(* ===== verification/FR_Prelude.thy ===== *)
theory FR_Prelude
  imports Complex_Main "HOL-Library.List_Lexorder" "HOL-Library.Char_ord"
begin

text \<open>
  Shared vocabulary of the development of \<^verbatim>\<open>src/face_recognition_service.py\<close>.

  \<^item> \<open>vec\<close>: a numpy float array, read as a list of reals.  Floating-point rounding
    is not modelled: all arithmetic is exact.  The one non-finite value the service
    can produce on finite input, the all-NaN array of a division by a zero norm, is
    modelled where it arises (theory \<open>Vectors\<close>).
  \<^item> \<open>exn\<close>: the exceptions the service raises or lets through: FastAPI's
    \<^verbatim>\<open>HTTPException\<close> with its status code and detail, and any other exception with
    its class name and its message (what \<^verbatim>\<open>str(e)\<close> returns).
  \<^item> \<open>('a, 'w) act\<close>: a Python coroutine body as a function from the world before to
    an outcome (\<open>Inl\<close> an exception, \<open>Inr\<close> a value) and the world after, with
    combinators for sequencing (\<open>bindE\<close>), \<^verbatim>\<open>raise\<close>, \<^verbatim>\<open>try/except\<close>
    (\<open>catchE\<close>) and \<^verbatim>\<open>try/finally\<close> (\<open>finallyE\<close>).
  \<^item> \<open>trunc0\<close>: conversion of a float to an integer, rounding towards zero, as
    Python's \<^verbatim>\<open>int()\<close> and numpy's \<^verbatim>\<open>astype(int)\<close> do.
  \<^item> \<open>str_nat\<close>, \<open>zfill\<close>: decimal rendering, for \<^verbatim>\<open>strftime\<close> and \<^verbatim>\<open>str()\<close>; with
    \<open>nat_of_digits\<close> as its inverse, and the lemma that zero-padded renderings of
    equal width compare as strings the way the numbers compare.
  \<^item> \<open>py_truthy\<close>: Python's truth value of an optional integer (\<^verbatim>\<open>if not x\<close>).

  The collection \<open>fr_defs\<close> holds the definitions a concrete evaluation unfolds;
  \<open>act_simps\<close> holds the laws of the combinators; \<open>preserves_intros\<close> holds the
  rules that lift an invariant of the primitives to a composed action.
\<close>

named_theorems fr_defs \<open>definitions unfolded when the model is evaluated on a concrete input\<close>
named_theorems act_simps \<open>laws of the exception-and-state combinators\<close>
named_theorems preserves_intros \<open>rules that prove an invariant of a composed action\<close>

section \<open>Arrays, exceptions, actions\<close>

type_synonym vec = "real list"

datatype exn = HTTPException nat string | PyException string string

type_synonym ('a, 'w) act = "'w \<Rightarrow> (exn + 'a) \<times> 'w"

definition returnE :: "'a \<Rightarrow> ('a, 'w) act" where
  "returnE x = (\<lambda>w. (Inr x, w))"

definition raiseE :: "exn \<Rightarrow> ('a, 'w) act" where
  "raiseE e = (\<lambda>w. (Inl e, w))"

definition bindE :: "('a, 'w) act \<Rightarrow> ('a \<Rightarrow> ('b, 'w) act) \<Rightarrow> ('b, 'w) act" where
  "bindE m f = (\<lambda>w. case m w of (Inl e, w') \<Rightarrow> (Inl e, w') | (Inr x, w') \<Rightarrow> f x w')"

definition catchE :: "('a, 'w) act \<Rightarrow> (exn \<Rightarrow> ('a, 'w) act) \<Rightarrow> ('a, 'w) act" where
  "catchE m h = (\<lambda>w. case m w of (Inl e, w') \<Rightarrow> h e w' | (Inr x, w') \<Rightarrow> (Inr x, w'))"

definition finallyE :: "('a, 'w) act \<Rightarrow> ('w \<Rightarrow> 'w) \<Rightarrow> ('a, 'w) act" where
  "finallyE m c = (\<lambda>w. case m w of (r, w') \<Rightarrow> (r, c w'))"

definition liftE :: "exn + 'a \<Rightarrow> ('a, 'w) act" where
  "liftE r = (\<lambda>w. (r, w))"

definition preserves :: "('w \<Rightarrow> bool) \<Rightarrow> ('a, 'w) act \<Rightarrow> bool" where
  "preserves I m \<longleftrightarrow> (\<forall>w. I w \<longrightarrow> I (snd (m w)))"

section \<open>Python scalars\<close>

definition py_truthy :: "int option \<Rightarrow> bool" where
  "py_truthy x = (case x of None \<Rightarrow> False | Some i \<Rightarrow> i \<noteq> 0)"

definition trunc0 :: "real \<Rightarrow> int" where
  "trunc0 x = (if 0 \<le> x then \<lfloor>x\<rfloor> else \<lceil>x\<rceil>)"

definition digit_char :: "nat \<Rightarrow> char" where
  "digit_char n = ''0123456789'' ! (n mod 10)"

fun str_nat :: "nat \<Rightarrow> string" where
  "str_nat n = (if n < 10 then [digit_char n] else str_nat (n div 10) @ [digit_char (n mod 10)])"

definition zfill :: "nat \<Rightarrow> string \<Rightarrow> string" where
  "zfill k s = replicate (k - length s) (CHR ''0'') @ s"

definition digit_val :: "char \<Rightarrow> nat" where
  "digit_val c = of_char c - 48"

definition nat_of_digits :: "string \<Rightarrow> nat" where
  "nat_of_digits s = foldl (\<lambda>a c. 10 * a + digit_val c) 0 s"

definition digits :: "string \<Rightarrow> bool" where
  "digits s \<longleftrightarrow> (\<forall>c \<in> set s. 48 \<le> (of_char c :: nat) \<and> (of_char c :: nat) \<le> 57)"

definition exn_str :: "exn \<Rightarrow> string" where
  "exn_str e = (case e of HTTPException c d \<Rightarrow> str_nat c @ '': '' @ d | PyException c m \<Rightarrow> m)"

declare str_nat.simps [simp del]

lemmas [fr_defs] = py_truthy_def trunc0_def digit_char_def zfill_def exn_str_def

section \<open>Laws of the combinators\<close>

lemma bindE_returnE [simp, act_simps]: "bindE (returnE x) f = f x"
  by (simp add: bindE_def returnE_def)

lemma bindE_raiseE [simp, act_simps]: "bindE (raiseE e) f = raiseE e"
  by (simp add: bindE_def raiseE_def)

lemma bindE_liftE [simp, act_simps]:
  "bindE (liftE (Inr x)) f = f x" "bindE (liftE (Inl e)) f = raiseE e"
  by (simp_all add: bindE_def liftE_def raiseE_def)

lemma catchE_returnE [simp, act_simps]: "catchE (returnE x) h = returnE x"
  by (simp add: catchE_def returnE_def)

lemma catchE_raiseE [simp, act_simps]: "catchE (raiseE e) h = h e"
  by (simp add: catchE_def raiseE_def)

lemma returnE_apply [simp, act_simps]: "returnE x w = (Inr x, w)"
  by (simp add: returnE_def)

lemma raiseE_apply [simp, act_simps]: "raiseE e w = (Inl e, w)"
  by (simp add: raiseE_def)

lemma liftE_apply [simp, act_simps]: "liftE r w = (r, w)"
  by (simp add: liftE_def)

lemma bindE_apply_Inr [act_simps]: "m w = (Inr x, w') \<Longrightarrow> bindE m f w = f x w'"
  by (simp add: bindE_def)

lemma bindE_apply_Inl [act_simps]: "m w = (Inl e, w') \<Longrightarrow> bindE m f w = (Inl e, w')"
  by (simp add: bindE_def)

lemma bindE_assoc: "bindE (bindE m f) g = bindE m (\<lambda>x. bindE (f x) g)"
  by (auto simp: bindE_def fun_eq_iff split: prod.splits sum.splits)

lemma catchE_apply_Inr [act_simps]: "m w = (Inr x, w') \<Longrightarrow> catchE m h w = (Inr x, w')"
  by (simp add: catchE_def)

lemma catchE_apply_Inl [act_simps]: "m w = (Inl e, w') \<Longrightarrow> catchE m h w = h e w'"
  by (simp add: catchE_def)

lemma bindE_InrD:
  "bindE m f w = (Inr y, w') \<Longrightarrow> \<exists>x w1. m w = (Inr x, w1) \<and> f x w1 = (Inr y, w')"
  by (auto simp: bindE_def split: prod.splits sum.splits)

lemma bindE_InlD:
  "bindE m f w = (Inl e, w') \<Longrightarrow>
     m w = (Inl e, w') \<or> (\<exists>x w1. m w = (Inr x, w1) \<and> f x w1 = (Inl e, w'))"
  by (auto simp: bindE_def split: prod.splits sum.splits)

lemma bindE_cases:
  "bindE m f w = (r, w') \<Longrightarrow>
     (\<exists>e. m w = (Inl e, w') \<and> r = Inl e) \<or> (\<exists>x w1. m w = (Inr x, w1) \<and> f x w1 = (r, w'))"
  by (auto simp: bindE_def split: prod.splits sum.splits)

lemma finallyE_apply [act_simps]: "m w = (r, w') \<Longrightarrow> finallyE m c w = (r, c w')"
  by (simp add: finallyE_def)

lemma snd_finallyE: "snd (finallyE m c w) = c (snd (m w))"
  by (simp add: finallyE_def split: prod.splits)

lemma fst_finallyE: "fst (finallyE m c w) = fst (m w)"
  by (simp add: finallyE_def split: prod.splits)

section \<open>Truncation towards zero\<close>

lemma trunc0_of_int [simp]: "trunc0 (of_int i) = i"
  by (simp add: trunc0_def)

lemma trunc0_zero [simp]: "trunc0 0 = 0"
  by (simp add: trunc0_def)

lemma trunc0_one [simp]: "trunc0 1 = 1"
  by (simp add: trunc0_def)

lemma trunc0_numeral [simp]: "trunc0 (numeral n) = numeral n"
  by (simp add: trunc0_def)

lemma trunc0_neg_numeral [simp]: "trunc0 (- numeral n) = - numeral n"
  by (simp add: trunc0_def)

lemma trunc0_of_nat [simp]: "trunc0 (of_nat n) = int n"
  by (simp add: trunc0_def)

lemma trunc0_nonneg: "0 \<le> x \<Longrightarrow> 0 \<le> trunc0 x"
  by (simp add: trunc0_def)

lemma trunc0_nonpos: "x \<le> 0 \<Longrightarrow> trunc0 x \<le> 0"
  by (auto simp: trunc0_def ceiling_le_iff)

lemma trunc0_mono: "x \<le> y \<Longrightarrow> trunc0 x \<le> trunc0 y"
proof -
  assume xy: "x \<le> y"
  consider "0 \<le> x" | "x < 0" "0 \<le> y" | "y < 0" by linarith
  then show ?thesis
  proof cases
    case 1
    with xy show ?thesis by (simp add: trunc0_def floor_mono)
  next
    case 2
    then have "\<lceil>x\<rceil> \<le> 0" "0 \<le> \<lfloor>y\<rfloor>" by (simp_all add: ceiling_le_iff)
    then have "\<lceil>x\<rceil> \<le> \<lfloor>y\<rfloor>" by linarith
    with 2 show ?thesis by (simp add: trunc0_def)
  next
    case 3
    with xy show ?thesis by (simp add: trunc0_def ceiling_mono)
  qed
qed

lemma trunc0_le_of_nonneg: "0 \<le> x \<Longrightarrow> of_int (trunc0 x) \<le> x"
  by (simp add: trunc0_def)

lemma trunc0_lower: "0 \<le> x \<Longrightarrow> x - 1 < of_int (trunc0 x)"
  by (simp add: trunc0_def)

lemma trunc0_le_int: "0 \<le> x \<Longrightarrow> x \<le> of_int k \<Longrightarrow> trunc0 x \<le> k"
  by (simp add: trunc0_def floor_le_iff)

lemma trunc0_abs_le: "\<bar>of_int (trunc0 x) :: real\<bar> \<le> \<bar>x\<bar>"
proof (cases "0 \<le> x")
  case True
  then have "0 \<le> \<lfloor>x\<rfloor>" by simp
  with True show ?thesis by (simp add: trunc0_def)
next
  case False
  then have "\<lceil>x\<rceil> \<le> 0" by (simp add: ceiling_le_iff)
  moreover have "x \<le> of_int \<lceil>x\<rceil>" by (rule le_of_int_ceiling)
  ultimately show ?thesis using False by (simp add: trunc0_def)
qed

section \<open>Decimal rendering\<close>

lemma str_nat_digit: "n < 10 \<Longrightarrow> str_nat n = [digit_char n]"
  by (simp add: str_nat.simps)

lemma str_nat_step: "10 \<le> n \<Longrightarrow> str_nat n = str_nat (n div 10) @ [digit_char (n mod 10)]"
  by (subst str_nat.simps) simp

lemma str_nat_nonempty [simp]: "str_nat n \<noteq> []"
  by (subst str_nat.simps) simp

lemma str_nat_nonempty' [simp]: "[] \<noteq> str_nat n"
  using str_nat_nonempty [of n] by (simp del: str_nat_nonempty)

lemma digit_char_inj: "a < 10 \<Longrightarrow> b < 10 \<Longrightarrow> digit_char a = digit_char b \<Longrightarrow> a = b"
proof -
  assume a: "a < 10" and b: "b < 10" and eq: "digit_char a = digit_char b"
  have d: "distinct ''0123456789''" by simp
  from a b have "a < length ''0123456789''" "b < length ''0123456789''" by simp_all
  with d eq a b show ?thesis
    by (simp only: digit_char_def mod_less nth_eq_iff_index_eq)
qed

lemma length_str_nat_le: "n < 10 ^ k \<Longrightarrow> 0 < k \<Longrightarrow> length (str_nat n) \<le> k"
proof (induction n arbitrary: k rule: str_nat.induct)
  case (1 n)
  show ?case
  proof (cases "n < 10")
    case True
    with "1.prems" show ?thesis by (simp add: str_nat_digit)
  next
    case False
    from "1.prems" False obtain j where k: "k = Suc j"
      by (cases k) auto
    with "1.prems" False have "0 < j" by (cases j) auto
    moreover from "1.prems" k have "n div 10 < 10 ^ j"
      by (simp add: less_mult_imp_div_less mult.commute)
    ultimately have "length (str_nat (n div 10)) \<le> j"
      using "1.IH" False by simp
    with False k show ?thesis by (simp add: str_nat_step)
  qed
qed

lemma str_nat_inj: "str_nat a = str_nat b \<Longrightarrow> a = b"
proof (induction a arbitrary: b rule: str_nat.induct)
  case (1 a)
  show ?case
  proof (cases "a < 10")
    case a: True
    show ?thesis
    proof (cases "b < 10")
      case True
      with a "1.prems" show ?thesis by (auto simp: str_nat_digit dest: digit_char_inj)
    next
      case False
      with a "1.prems" show ?thesis by (simp add: str_nat_digit str_nat_step)
    qed
  next
    case a: False
    show ?thesis
    proof (cases "b < 10")
      case True
      with a "1.prems" show ?thesis by (simp add: str_nat_digit str_nat_step)
    next
      case False
      with a "1.prems" have q: "str_nat (a div 10) = str_nat (b div 10)"
        and r: "digit_char (a mod 10) = digit_char (b mod 10)"
        by (simp_all add: str_nat_step)
      from a q have "a div 10 = b div 10" by (rule "1.IH")
      moreover from r have "a mod 10 = b mod 10" by (rule digit_char_inj [rotated 2]) simp_all
      ultimately show ?thesis by (metis div_mult_mod_eq)
    qed
  qed
qed

lemma length_zfill: "length (zfill k s) = max k (length s)"
  by (simp add: zfill_def)

lemma zfill_inj: "length s = length t \<Longrightarrow> zfill k s = zfill k t \<Longrightarrow> s = t"
  by (simp add: zfill_def)

section \<open>Invariants of actions\<close>

text \<open>
  \<open>preserves I m\<close>: whatever its outcome, the action \<open>m\<close> leaves a world that
  satisfies \<open>I\<close> in a world that satisfies \<open>I\<close>.  The rules below follow the shape of
  an action built from the combinators, so that an invariant of a handler is proved
  from the invariants of the primitives it calls.
\<close>

lemma preservesI: "(\<And>w. I w \<Longrightarrow> I (snd (m w))) \<Longrightarrow> preserves I m"
  by (simp add: preserves_def)

lemma preservesD: "preserves I m \<Longrightarrow> I w \<Longrightarrow> m w = (r, w') \<Longrightarrow> I w'"
  by (auto simp: preserves_def)

lemma preserves_returnE [preserves_intros]: "preserves I (returnE x)"
  by (simp add: preserves_def)

lemma preserves_raiseE [preserves_intros]: "preserves I (raiseE e)"
  by (simp add: preserves_def)

lemma preserves_liftE [preserves_intros]: "preserves I (liftE r)"
  by (simp add: preserves_def)

lemma preserves_bindE [preserves_intros]:
  "preserves I m \<Longrightarrow> (\<And>x. preserves I (f x)) \<Longrightarrow> preserves I (bindE m f)"
  by (auto simp: preserves_def bindE_def split: prod.splits sum.splits)

lemma preserves_catchE [preserves_intros]:
  "preserves I m \<Longrightarrow> (\<And>e. preserves I (h e)) \<Longrightarrow> preserves I (catchE m h)"
  by (auto simp: preserves_def catchE_def split: prod.splits sum.splits)

lemma preserves_finallyE [preserves_intros]:
  "preserves I m \<Longrightarrow> (\<And>w. I w \<Longrightarrow> I (c w)) \<Longrightarrow> preserves I (finallyE m c)"
  by (auto simp: preserves_def finallyE_def split: prod.splits)

lemma preserves_if [preserves_intros]:
  "(b \<Longrightarrow> preserves I m) \<Longrightarrow> (\<not> b \<Longrightarrow> preserves I n) \<Longrightarrow> preserves I (if b then m else n)"
  by simp

lemma preserves_Let [preserves_intros]:
  "(\<And>x. x = t \<Longrightarrow> preserves I (f x)) \<Longrightarrow> preserves I (let x = t in f x)"
  by simp

lemma preserves_case_option [preserves_intros]:
  "(x = None \<Longrightarrow> preserves I m) \<Longrightarrow> (\<And>y. x = Some y \<Longrightarrow> preserves I (f y)) \<Longrightarrow>
   preserves I (case x of None \<Rightarrow> m | Some y \<Rightarrow> f y)"
  by (cases x) simp_all

lemma preserves_case_prod [preserves_intros]:
  "(\<And>a b. p = (a, b) \<Longrightarrow> preserves I (f a b)) \<Longrightarrow> preserves I (case p of (a, b) \<Rightarrow> f a b)"
  by (cases p) simp

lemma preserves_conj:
  "preserves I m \<Longrightarrow> preserves J m \<Longrightarrow> preserves (\<lambda>w. I w \<and> J w) m"
  by (simp add: preserves_def)

section \<open>First match in a table\<close>

lemma find_SomeD: "find P xs = Some x \<Longrightarrow> x \<in> set xs \<and> P x"
  by (auto simp: find_Some_iff)

lemma py_truthy_None [simp]: "\<not> py_truthy None"
  by (simp add: py_truthy_def)

lemma py_truthy_Some [simp]: "py_truthy (Some i) \<longleftrightarrow> i \<noteq> 0"
  by (simp add: py_truthy_def)

lemma py_truthy_find:
  "list_all (\<lambda>r. f r \<noteq> 0) xs \<Longrightarrow> py_truthy (map_option f (find P xs)) \<longleftrightarrow> (\<exists>x\<in>set xs. P x)"
proof (cases "find P xs")
  case None
  then have "\<not> (\<exists>x\<in>set xs. P x)" by (simp add: find_None_iff)
  with None show ?thesis by simp
next
  case (Some x)
  then have "x \<in> set xs" "P x" by (auto dest: find_SomeD)
  moreover assume "list_all (\<lambda>r. f r \<noteq> 0) xs"
  ultimately show ?thesis using Some by (auto simp: list_all_iff)
qed

section \<open>Reading a decimal rendering back\<close>

lemma digit_val_digit_char [simp]: "digit_val (digit_char n) = n mod 10"
proof -
  define m where "m = n mod 10"
  then have "m < 10" by simp
  then have "m = 0 \<or> m = 1 \<or> m = 2 \<or> m = 3 \<or> m = 4 \<or> m = 5 \<or> m = 6 \<or> m = 7 \<or> m = 8 \<or> m = 9"
    by arith
  then have "digit_val (''0123456789'' ! m) = m"
    by (auto simp: digit_val_def)
  then show ?thesis by (simp add: digit_char_def m_def)
qed

lemma nat_of_digits_snoc [simp]:
  "nat_of_digits (s @ [c]) = 10 * nat_of_digits s + digit_val c"
  by (simp add: nat_of_digits_def)

lemma nat_of_digits_str_nat [simp]: "nat_of_digits (str_nat n) = n"
proof (induction n rule: str_nat.induct)
  case (1 n)
  show ?case
  proof (cases "n < 10")
    case True
    then show ?thesis by (simp add: str_nat_digit nat_of_digits_def)
  next
    case False
    with "1.IH" show ?thesis by (simp add: str_nat_step)
  qed
qed

lemma nat_of_digits_zeros: "foldl (\<lambda>a c. 10 * a + digit_val c) 0 (replicate k (CHR ''0'')) = 0"
  by (induction k) (simp_all add: digit_val_def)

lemma nat_of_digits_zfill [simp]: "nat_of_digits (zfill k s) = nat_of_digits s"
  by (simp add: nat_of_digits_def zfill_def nat_of_digits_zeros)

lemma zfill_str_nat_inj: "zfill k (str_nat a) = zfill k (str_nat b) \<Longrightarrow> a = b"
  by (drule arg_cong [where f = nat_of_digits]) simp

lemma length_zfill_str_nat: "n < 10 ^ k \<Longrightarrow> 0 < k \<Longrightarrow> length (zfill k (str_nat n)) = k"
  by (simp add: length_zfill length_str_nat_le max_absorb1)

section \<open>Order of decimal strings\<close>

lemma digits_simps [simp]:
  "digits []" "digits (c # s) \<longleftrightarrow> 48 \<le> (of_char c :: nat) \<and> (of_char c :: nat) \<le> 57 \<and> digits s"
  "digits (s @ t) \<longleftrightarrow> digits s \<and> digits t"
  by (auto simp: digits_def)

lemma of_char_digit_char: "(of_char (digit_char n) :: nat) = 48 + n mod 10"
proof -
  define m where "m = n mod 10"
  then have "m < 10" by simp
  then have "m = 0 \<or> m = 1 \<or> m = 2 \<or> m = 3 \<or> m = 4 \<or> m = 5 \<or> m = 6 \<or> m = 7 \<or> m = 8 \<or> m = 9"
    by arith
  then have "(of_char (''0123456789'' ! m) :: nat) = 48 + m" by auto
  then show ?thesis by (simp add: digit_char_def m_def)
qed

lemma digits_str_nat [simp]: "digits (str_nat n)"
proof (induction n rule: str_nat.induct)
  case (1 n)
  show ?case
  proof (cases "n < 10")
    case True
    then show ?thesis by (simp add: str_nat_digit of_char_digit_char)
  next
    case False
    with 1 show ?thesis by (simp add: str_nat_step of_char_digit_char)
  qed
qed

lemma digits_zfill [simp]: "digits s \<Longrightarrow> digits (zfill k s)"
  by (auto simp: zfill_def digits_def)

lemma nat_of_digits_Cons:
  "nat_of_digits (c # s) = digit_val c * 10 ^ length s + nat_of_digits s"
  by (induction s rule: rev_induct) (simp_all add: nat_of_digits_def algebra_simps)

lemma nat_of_digits_less: "digits s \<Longrightarrow> nat_of_digits s < 10 ^ length s"
proof (induction s rule: rev_induct)
  case Nil
  show ?case by (simp add: nat_of_digits_def)
next
  case (snoc c s)
  then have "nat_of_digits s < 10 ^ length s" and "digit_val c < 10"
    by (auto simp: digit_val_def)
  then show ?case by simp
qed

lemma block_less:
  fixes a b p x y :: nat
  assumes "a < p" and "b < p"
  shows "x * p + a < y * p + b \<longleftrightarrow> x < y \<or> (x = y \<and> a < b)"
proof (cases x y rule: linorder_cases)
  case less
  then have "(x + 1) * p \<le> y * p" by (intro mult_le_mono1) simp
  with assms less show ?thesis by (simp add: algebra_simps)
next
  case equal
  then show ?thesis by simp
next
  case greater
  then have "(y + 1) * p \<le> x * p" by (intro mult_le_mono1) simp
  with assms greater show ?thesis by (simp add: algebra_simps)
qed

lemma digit_less_iff:
  assumes "48 \<le> (of_char c :: nat)" and "48 \<le> (of_char d :: nat)"
  shows "c < d \<longleftrightarrow> digit_val c < digit_val d" and "c = d \<longleftrightarrow> digit_val c = digit_val d"
proof -
  from assms show "c < d \<longleftrightarrow> digit_val c < digit_val d"
    by (auto simp: less_char_def digit_val_def)
  from assms have "digit_val c = digit_val d \<longleftrightarrow> (of_char c :: nat) = of_char d"
    unfolding digit_val_def by arith
  then show "c = d \<longleftrightarrow> digit_val c = digit_val d" by simp
qed

lemma digits_less_iff:
  "length xs = length ys \<Longrightarrow> digits xs \<Longrightarrow> digits ys \<Longrightarrow>
   xs < ys \<longleftrightarrow> nat_of_digits xs < nat_of_digits ys"
proof (induction xs ys rule: list_induct2)
  case Nil
  show ?case by (simp add: nat_of_digits_def)
next
  case (Cons x xs y ys)
  then have ih: "xs < ys \<longleftrightarrow> nat_of_digits xs < nat_of_digits ys" by simp
  from Cons.prems have b: "nat_of_digits xs < 10 ^ length xs" "nat_of_digits ys < 10 ^ length xs"
    using nat_of_digits_less [of xs] nat_of_digits_less [of ys] Cons.hyps by simp_all
  from Cons.prems digit_less_iff [of x y]
  have d: "x < y \<longleftrightarrow> digit_val x < digit_val y" "x = y \<longleftrightarrow> digit_val x = digit_val y"
    by simp_all
  show ?case
    using block_less [OF b, of "digit_val x" "digit_val y"] Cons.hyps ih d
    by (simp add: nat_of_digits_Cons)
qed

lemma append_less_iff:
  "length a = length a' \<Longrightarrow> a @ b < a' @ b' \<longleftrightarrow> a < a' \<or> (a = a' \<and> b < b')"
  by (induction a a' rule: list_induct2) auto

lemma zfill_str_nat_less_iff:
  assumes "m < 10 ^ k" and "n < 10 ^ k" and "0 < k"
  shows "zfill k (str_nat m) < zfill k (str_nat n) \<longleftrightarrow> m < n"
  using digits_less_iff [of "zfill k (str_nat m)" "zfill k (str_nat n)"] assms
  by (simp add: length_zfill_str_nat)

lemma zfill_str_nat_eq_iff: "zfill k (str_nat a) = zfill k (str_nat b) \<longleftrightarrow> a = b"
  by (auto dest: zfill_str_nat_inj)

end
