(* ===== verification/Vectors.thy ===== *)
theory Vectors
  imports FR_Prelude
begin

text \<open>
  The similarity metric of the service: the inner product of embeddings, the
  Euclidean norm \<^verbatim>\<open>np.linalg.norm\<close>, and the normalisation
  \<^verbatim>\<open>emb = face.embedding / np.linalg.norm(face.embedding)\<close> of lines 64 and 157.

  numpy divides by a zero norm without raising: every component becomes NaN (in exact
  arithmetic the norm is zero only when every component is).  An \<open>ndarray\<close> is
  therefore either a finite array \<open>Arr v\<close> or the all-NaN array \<open>NaNs n\<close> of
  length \<open>n\<close>; an inner product with a NaN array is NaN, written \<open>None\<close>.

  Proved here: the Cauchy-Schwarz inequality for \<open>dot\<close>, that normalisation yields a
  unit vector, that the similarity of unit vectors lies in \<open>[-1, 1]\<close> and is \<open>1\<close> for
  a vector with itself, a square-root-free reading of "similarity above one half",
  and that moving a query by a vector of norm eps moves its inner product with a
  unit vector by at most eps.
\<close>

section \<open>Definitions\<close>

datatype ndarray = Arr vec | NaNs nat

fun arr_len :: "ndarray \<Rightarrow> nat" where
  "arr_len (Arr v) = length v"
| "arr_len (NaNs n) = n"

definition dot :: "vec \<Rightarrow> vec \<Rightarrow> real" where
  "dot xs ys = sum_list (map2 (*) xs ys)"

fun inner_product :: "ndarray \<Rightarrow> ndarray \<Rightarrow> real option" where
  "inner_product (Arr a) (Arr b) = Some (dot a b)"
| "inner_product _ _ = None"

definition linalg_norm :: "vec \<Rightarrow> real" where
  "linalg_norm v = sqrt (dot v v)"

definition normalize_embedding :: "vec \<Rightarrow> ndarray" where
  "normalize_embedding v =
     (if v \<noteq> [] \<and> linalg_norm v = 0 then NaNs (length v)
      else Arr (map (\<lambda>x. x / linalg_norm v) v))"

definition unit_vec :: "vec \<Rightarrow> bool" where
  "unit_vec v \<longleftrightarrow> dot v v = 1"

section \<open>The inner product\<close>

lemma dot_Nil [simp]: "dot [] ys = 0" "dot xs [] = 0"
  by (simp_all add: dot_def)

lemma dot_Cons [simp]: "dot (x # xs) (y # ys) = x * y + dot xs ys"
  by (simp add: dot_def)

lemma dot_commute: "dot xs ys = dot ys xs"
  by (induction xs ys rule: list_induct2') (simp_all add: mult.commute)

lemma dot_self_nonneg [simp]: "0 \<le> dot v v"
  by (induction v) simp_all

lemma dot_self_eq_0_iff: "dot v v = 0 \<longleftrightarrow> (\<forall>x\<in>set v. x = 0)"
proof (induction v)
  case Nil
  show ?case by simp
next
  case (Cons x v)
  have "x * x + dot v v = 0 \<longleftrightarrow> x * x = 0 \<and> dot v v = 0"
    by (rule add_nonneg_eq_0_iff) simp_all
  with Cons show ?case by simp
qed

lemma dot_map_divide_left: "dot (map (\<lambda>x. x / c) xs) ys = dot xs ys / c"
  by (induction xs ys rule: list_induct2') (simp_all add: add_divide_distrib)

lemma dot_map_divide_right: "dot xs (map (\<lambda>y. y / c) ys) = dot xs ys / c"
  by (simp add: dot_commute [of xs] dot_map_divide_left)

lemma cauchy_schwarz_step:
  fixes x y d A B :: real
  assumes d: "d\<^sup>2 \<le> A * B" and A: "0 \<le> A" and B: "0 \<le> B"
  shows "(x * y + d)\<^sup>2 \<le> (x * x + A) * (y * y + B)"
proof -
  let ?a = "sqrt A" and ?b = "sqrt B"
  have dab: "\<bar>d\<bar> \<le> ?a * ?b"
    by (metis d real_sqrt_abs real_sqrt_le_iff real_sqrt_mult)
  have "x * y * d \<le> \<bar>x * y * d\<bar>" by simp
  also have "\<dots> = \<bar>x\<bar> * \<bar>y\<bar> * \<bar>d\<bar>" by (simp add: abs_mult)
  also have "\<dots> \<le> \<bar>x\<bar> * \<bar>y\<bar> * (?a * ?b)"
    using dab by (simp add: mult_left_mono)
  finally have 1: "x * y * d \<le> \<bar>x\<bar> * \<bar>y\<bar> * (?a * ?b)" .
  have "0 \<le> (\<bar>x\<bar> * ?b - \<bar>y\<bar> * ?a)\<^sup>2" by simp
  also have "\<dots> = x * x * (?b * ?b) + y * y * (?a * ?a) - 2 * (\<bar>x\<bar> * \<bar>y\<bar> * (?a * ?b))"
    by (simp add: power2_eq_square algebra_simps)
  finally have 2: "2 * (\<bar>x\<bar> * \<bar>y\<bar> * (?a * ?b)) \<le> x * x * B + y * y * A"
    using A B by simp
  from 1 2 have "2 * (x * y * d) \<le> x * x * B + y * y * A" by linarith
  with d show ?thesis
    by (simp add: power2_eq_square algebra_simps)
qed

lemma cauchy_schwarz: "(dot xs ys)\<^sup>2 \<le> dot xs xs * dot ys ys"
proof (induction xs ys rule: list_induct2')
  case (4 x xs y ys)
  then show ?case by (simp add: cauchy_schwarz_step)
qed simp_all

section \<open>The norm\<close>

lemma linalg_norm_nonneg [simp]: "0 \<le> linalg_norm v"
  by (simp add: linalg_norm_def)

lemma linalg_norm_eq_0_iff: "linalg_norm v = 0 \<longleftrightarrow> (\<forall>x\<in>set v. x = 0)"
  by (simp add: linalg_norm_def dot_self_eq_0_iff)

lemma linalg_norm_unit: "unit_vec v \<Longrightarrow> linalg_norm v = 1"
  by (simp add: unit_vec_def linalg_norm_def)

lemma linalg_norm_mult_self [simp]: "linalg_norm v * linalg_norm v = dot v v"
  by (simp add: linalg_norm_def)

lemma abs_dot_le: "\<bar>dot xs ys\<bar> \<le> linalg_norm xs * linalg_norm ys"
proof -
  have "\<bar>dot xs ys\<bar> = sqrt ((dot xs ys)\<^sup>2)" by simp
  also have "\<dots> \<le> sqrt (dot xs xs * dot ys ys)"
    by (simp only: real_sqrt_le_iff cauchy_schwarz)
  finally show ?thesis by (simp add: linalg_norm_def real_sqrt_mult)
qed

section \<open>Normalisation\<close>

lemma normalize_embedding_Arr:
  "linalg_norm v \<noteq> 0 \<Longrightarrow> normalize_embedding v = Arr (map (\<lambda>x. x / linalg_norm v) v)"
  by (simp add: normalize_embedding_def)

lemma normalize_embedding_NaNs_iff:
  "normalize_embedding v = NaNs n \<longleftrightarrow> v \<noteq> [] \<and> (\<forall>x\<in>set v. x = 0) \<and> n = length v"
  by (auto simp: normalize_embedding_def linalg_norm_eq_0_iff)

lemma normalize_embedding_ArrD:
  "normalize_embedding v = Arr u \<Longrightarrow>
     u = map (\<lambda>x. x / linalg_norm v) v \<and> (v \<noteq> [] \<longrightarrow> 0 < linalg_norm v)"
  by (auto simp: normalize_embedding_def less_le split: if_splits)

lemma arr_len_normalize_embedding [simp]: "arr_len (normalize_embedding v) = length v"
  by (simp add: normalize_embedding_def)

lemma dot_normalized:
  "normalize_embedding v = Arr u \<Longrightarrow> dot u e = dot v e / linalg_norm v"
  by (auto dest!: normalize_embedding_ArrD simp: dot_map_divide_left)

lemma unit_vec_normalized: "unit_vec v \<Longrightarrow> normalize_embedding v = Arr v"
  by (simp add: normalize_embedding_def linalg_norm_unit)

lemma unit_vec_normalize:
  assumes "normalize_embedding v = Arr u" and "v \<noteq> []"
  shows "unit_vec u"
proof -
  from assms have n: "0 < linalg_norm v" and u: "u = map (\<lambda>x. x / linalg_norm v) v"
    by (auto dest: normalize_embedding_ArrD)
  have "dot u u = dot v v / (linalg_norm v * linalg_norm v)"
    by (simp add: u dot_map_divide_left dot_map_divide_right)
  with n show ?thesis by (simp add: unit_vec_def linalg_norm_def)
qed

lemma unit_dot_bounds:
  assumes "unit_vec a" and "unit_vec b"
  shows "-1 \<le> dot a b" and "dot a b \<le> 1"
proof -
  from assms have "\<bar>dot a b\<bar> \<le> 1"
    using abs_dot_le [of a b] by (simp add: linalg_norm_unit)
  then show "-1 \<le> dot a b" and "dot a b \<le> 1" by (simp_all add: abs_le_iff)
qed

text \<open>
  The acceptance test \<^verbatim>\<open>D[0][0] > 0.5\<close> on a normalised query, without the square
  root: the raw inner product is positive and its square exceeds a quarter of the
  squared norm.  Concrete evaluations use this form.
\<close>

lemma similarity_gt_half_iff:
  assumes "normalize_embedding v = Arr u" and "v \<noteq> []"
  shows "1 / 2 < dot u e \<longleftrightarrow> 0 < dot v e \<and> dot v v < 4 * (dot v e)\<^sup>2"
proof -
  let ?n = "linalg_norm v" and ?p = "dot v e"
  from assms have n: "0 < ?n"
    by (auto dest: normalize_embedding_ArrD)
  from assms(1) n have "1 / 2 < dot u e \<longleftrightarrow> ?n < 2 * ?p"
    by (simp add: dot_normalized field_simps)
  also have "\<dots> \<longleftrightarrow> 0 < ?p \<and> ?n\<^sup>2 < (2 * ?p)\<^sup>2"
  proof
    assume lt: "?n < 2 * ?p"
    with n have "0 < ?p" by linarith
    moreover from lt n have "?n\<^sup>2 < (2 * ?p)\<^sup>2"
      by (rule power_strict_mono [OF _ less_imp_le]) simp
    ultimately show "0 < ?p \<and> ?n\<^sup>2 < (2 * ?p)\<^sup>2" ..
  next
    assume "0 < ?p \<and> ?n\<^sup>2 < (2 * ?p)\<^sup>2"
    then show "?n < 2 * ?p" by (auto intro: power2_less_imp_less)
  qed
  finally show ?thesis by (simp add: power2_eq_square)
qed

section \<open>When the similarity is exactly one\<close>

lemma dot_diff_self:
  "length a = length b \<Longrightarrow>
   dot (map2 (-) a b) (map2 (-) a b) = dot a a - 2 * dot a b + dot b b"
  by (induction a b rule: list_induct2) (simp_all add: algebra_simps)

lemma map2_diff_zero:
  "length a = length b \<Longrightarrow> \<forall>x\<in>set (map2 (-) a b). x = (0::real) \<Longrightarrow> a = b"
  by (induction a b rule: list_induct2) simp_all

lemma unit_dot_eq_1:
  assumes "unit_vec a" and "unit_vec b" and "length a = length b" and "dot a b = 1"
  shows "a = b"
proof -
  from assms have "dot (map2 (-) a b) (map2 (-) a b) = 0"
    by (simp add: dot_diff_self unit_vec_def)
  with assms(3) show ?thesis
    by (simp add: dot_self_eq_0_iff map2_diff_zero)
qed

section \<open>Perturbation of a query\<close>

lemma dot_diff_left:
  "length a = length b \<Longrightarrow> dot (map2 (-) a b) r = dot a r - dot b r"
proof (induction a b arbitrary: r rule: list_induct2)
  case Nil
  show ?case by simp
next
  case (Cons x xs y ys)
  then show ?case by (cases r) (simp_all add: algebra_simps)
qed

lemma dot_perturb:
  assumes "length a = length b" and "unit_vec r"
  shows "\<bar>dot a r - dot b r\<bar> \<le> linalg_norm (map2 (-) a b)"
  using abs_dot_le [of "map2 (-) a b" r] assms
  by (simp add: dot_diff_left linalg_norm_unit)

section \<open>Properties\<close>

text \<open>
  C21: Normalising a non-empty embedding of non-zero norm, as line 157 does before the
  search and line 64 does at enrolment, yields a vector of unit length.
\<close>

theorem normalize_embedding_unit:
  assumes "normalize_embedding v = Arr u" and "v \<noteq> []"
  shows "unit_vec u"
  using assms by (rule unit_vec_normalize)

theorem normalize_embedding_unit_witness:
  "normalize_embedding [3, 4] = Arr [3 / 5, 4 / 5] \<and> [3, 4 :: real] \<noteq> [] \<and> unit_vec [3 / 5, 4 / 5]"
proof -
  have n: "normalize_embedding [3, 4] = Arr [3 / 5, 4 / 5]"
    by (simp add: normalize_embedding_def linalg_norm_def)
  from normalize_embedding_unit [OF n] n show ?thesis by simp
qed

text \<open>
  The similarity of two normalised embeddings - what the index computes for a
  normalised query and an enrolled row - lies between -1 and 1, and the similarity
  of a normalised embedding with itself is 1.
\<close>

theorem similarity_bounds:
  assumes "normalize_embedding a = Arr u" and "a \<noteq> []"
    and "normalize_embedding b = Arr v" and "b \<noteq> []"
  shows "-1 \<le> dot u v \<and> dot u v \<le> 1 \<and> dot u u = 1"
proof -
  from assms have u: "unit_vec u" and v: "unit_vec v"
    by (auto intro: unit_vec_normalize)
  from unit_dot_bounds [OF u v] u show ?thesis by (simp add: unit_vec_def)
qed

theorem similarity_bounds_witness:
  "normalize_embedding [3, 4] = Arr [3 / 5, 4 / 5] \<and> normalize_embedding [2, 0] = Arr [1, 0] \<and>
   -1 \<le> dot [3 / 5, 4 / 5] [1, 0] \<and> dot [3 / 5, 4 / 5] [1, 0] \<le> 1 \<and>
   dot [3 / 5, 4 / 5] [3 / 5, 4 / 5] = 1"
proof -
  have n: "normalize_embedding [3, 4] = Arr [3 / 5, 4 / 5]" "normalize_embedding [2, 0] = Arr [1, 0]"
    by (simp_all add: normalize_embedding_def linalg_norm_def)
  from similarity_bounds [OF n(1) _ n(2)] n show ?thesis by simp
qed

end
