(* ===== verification/Embedding_Index.thy ===== *)
theory Embedding_Index
  imports Vectors
begin

text \<open>
  The embedding index: \<^verbatim>\<open>index = faiss.IndexFlatIP(d)\<close>, \<^verbatim>\<open>index.add(embeddings_array)\<close>
  (lines 74-76) and the query \<^verbatim>\<open>D, I = index.search(emb[None, :], 1)\<close> (line 158).

  \<^item> \<open>array2d\<close> is the two-dimensional \<^verbatim>\<open>embeddings_array\<close>: its column count
    \<^verbatim>\<open>shape[1]\<close> and its rows.
  \<^item> \<open>faiss_index\<close> is the flat index: its dimension and the stored rows in insertion
    order.  \<open>IndexFlatIP\<close>, \<open>index_add\<close> and \<open>build_index\<close> follow lines 74-76;
    faiss's Python wrapper asserts that the array's column count is the index's
    dimension, in \<open>add\<close> and in \<open>search\<close>.
  \<^item> \<open>index_search\<close> is the search with \<open>k = 1\<close>, the only call the service makes.
    faiss itself is not part of the repository; \<open>scan_rows\<close> models its exhaustive
    scan as the specification describes it (exact, by inner product): the running
    best is replaced only by a strictly larger inner product, so among equal maxima
    the row enrolled first wins, and a NaN inner product never wins.  The result
    \<open>None\<close> stands for faiss's "no result" (\<^verbatim>\<open>I = -1\<close>, \<^verbatim>\<open>D = -3.4e38\<close>), which the
    service's test \<^verbatim>\<open>D[0][0] > threshold\<close> rejects.
  \<^item> \<open>best_match\<close> is the abstract specification of the search: an index of a row
    with the greatest inner product, the least such index.

  Proved here: \<open>scan_rows\<close> implements \<open>best_match\<close> (and returns \<open>None\<close> exactly
  when no row has a finite inner product), the returned position is in range, the
  similarity of normalised rows lies in \<open>[-1, 1]\<close>, a query with an enrolled unit
  vector returns that vector's own position with similarity \<open>1\<close>, and the best
  similarity over normalised rows moves by at most eps when the query moves by eps.
\<close>

section \<open>Definitions\<close>

record array2d =
  shape1 :: nat
  rows2d :: "ndarray list"

record faiss_index =
  ix_dim :: nat
  ix_rows :: "ndarray list"

definition IndexFlatIP :: "nat \<Rightarrow> faiss_index" where
  "IndexFlatIP n = \<lparr>ix_dim = n, ix_rows = []\<rparr>"

definition index_add :: "faiss_index \<Rightarrow> array2d \<Rightarrow> exn + faiss_index" where
  "index_add ix x =
     (if shape1 x = ix_dim ix then Inr (ix\<lparr>ix_rows := ix_rows ix @ rows2d x\<rparr>)
      else Inl (PyException ''AssertionError'' ''''))"

definition build_index :: "array2d \<Rightarrow> exn + faiss_index" where
  "build_index embeddings_array =
     (let d = shape1 embeddings_array;
          index = IndexFlatIP d
      in index_add index embeddings_array)"

fun scan_rows :: "ndarray \<Rightarrow> ndarray list \<Rightarrow> nat \<Rightarrow> (real \<times> nat) option \<Rightarrow> (real \<times> nat) option" where
  "scan_rows q [] i best = best"
| "scan_rows q (r # rs) i best =
     scan_rows q rs (Suc i)
       (case inner_product q r of
          None \<Rightarrow> best
        | Some s \<Rightarrow>
            (case best of
               None \<Rightarrow> Some (s, i)
             | Some (b, j) \<Rightarrow> if b < s then Some (s, i) else Some (b, j)))"

definition index_search :: "faiss_index \<Rightarrow> ndarray \<Rightarrow> exn + (real \<times> nat) option" where
  "index_search ix q =
     (if arr_len q \<noteq> ix_dim ix then Inl (PyException ''AssertionError'' '''')
      else Inr (scan_rows q (ix_rows ix) 0 None))"

definition best_match :: "ndarray \<Rightarrow> ndarray list \<Rightarrow> real \<times> nat \<Rightarrow> bool" where
  "best_match q rows r =
     (case r of (s, i) \<Rightarrow>
        i < length rows \<and> inner_product q (rows ! i) = Some s \<and>
        (\<forall>j < length rows.
           case inner_product q (rows ! j) of
             None \<Rightarrow> True
           | Some t \<Rightarrow> t \<le> s \<and> (t = s \<longrightarrow> i \<le> j)))"

definition wf_array2d :: "array2d \<Rightarrow> bool" where
  "wf_array2d x = list_all (\<lambda>r. arr_len r = shape1 x) (rows2d x)"

definition wf_index :: "faiss_index \<Rightarrow> bool" where
  "wf_index ix = list_all (\<lambda>r. arr_len r = ix_dim ix) (ix_rows ix)"

definition normalized_row :: "ndarray \<Rightarrow> bool" where
  "normalized_row r = (case r of Arr v \<Rightarrow> unit_vec v | NaNs n \<Rightarrow> True)"

definition normalized_index :: "faiss_index \<Rightarrow> bool" where
  "normalized_index ix = list_all normalized_row (ix_rows ix)"

section \<open>The scan\<close>

lemma scan_rows_NaNs [simp]: "scan_rows (NaNs n) rows i best = best"
  by (induction rows arbitrary: i) simp_all

lemma scan_rows_None_iff:
  "scan_rows q rows i best = None \<longleftrightarrow> best = None \<and> (\<forall>r\<in>set rows. inner_product q r = None)"
  by (induction rows arbitrary: i best) (auto split: option.splits)

lemma scan_rows_append:
  "scan_rows q (xs @ ys) i best = scan_rows q ys (i + length xs) (scan_rows q xs i best)"
  by (induction xs arbitrary: i best) simp_all

lemma scan_rows_snoc:
  "scan_rows q (xs @ [r]) i best =
     (case inner_product q r of
        None \<Rightarrow> scan_rows q xs i best
      | Some s \<Rightarrow>
          (case scan_rows q xs i best of
             None \<Rightarrow> Some (s, i + length xs)
           | Some (b, j) \<Rightarrow> if b < s then Some (s, i + length xs) else Some (b, j)))"
  by (simp add: scan_rows_append)

section \<open>The specification of the search\<close>

lemma best_match_unique: "best_match q rows r \<Longrightarrow> best_match q rows r' \<Longrightarrow> r = r'"
  by (cases r; cases r') (fastforce simp: best_match_def split: option.splits)

lemma best_match_finite:
  "best_match q rows r \<Longrightarrow> \<exists>x\<in>set rows. \<exists>s. inner_product q x = Some s"
  by (cases r) (auto simp: best_match_def)

lemma best_match_snoc_None:
  "inner_product q x = None \<Longrightarrow> best_match q xs r \<Longrightarrow> best_match q (xs @ [x]) r"
  by (cases r) (auto simp: best_match_def nth_append less_Suc_eq split: option.splits)

lemma best_match_snoc_first:
  "inner_product q x = Some s \<Longrightarrow> \<forall>r\<in>set xs. inner_product q r = None \<Longrightarrow>
   best_match q (xs @ [x]) (s, length xs)"
  by (auto simp: best_match_def nth_append less_Suc_eq split: option.splits)

lemma best_match_snoc_keep:
  "inner_product q x = Some s \<Longrightarrow> best_match q xs (b, j) \<Longrightarrow> \<not> b < s \<Longrightarrow>
   best_match q (xs @ [x]) (b, j)"
  by (auto simp: best_match_def nth_append less_Suc_eq split: option.splits)

lemma best_match_snoc_new:
  "inner_product q x = Some s \<Longrightarrow> best_match q xs (b, j) \<Longrightarrow> b < s \<Longrightarrow>
   best_match q (xs @ [x]) (s, length xs)"
  by (fastforce simp: best_match_def nth_append less_Suc_eq split: option.splits)

lemmas best_match_snoc =
  best_match_snoc_None best_match_snoc_first best_match_snoc_keep best_match_snoc_new

lemma scan_rows_best_match:
  "scan_rows q rows 0 None = Some r \<Longrightarrow> best_match q rows r"
proof (induction rows arbitrary: r rule: rev_induct)
  case Nil
  then show ?case by simp
next
  case (snoc x xs)
  show ?case
  proof (cases "inner_product q x")
    case None
    with snoc show ?thesis by (simp add: scan_rows_snoc best_match_snoc)
  next
    case (Some s)
    show ?thesis
    proof (cases "scan_rows q xs 0 None")
      case None
      with Some snoc.prems show ?thesis
        by (auto simp: scan_rows_snoc scan_rows_None_iff intro: best_match_snoc)
    next
      case prev: (Some bj)
      obtain b j where bj: "bj = (b, j)" by (cases bj)
      with prev have "best_match q xs (b, j)" by (simp add: snoc.IH)
      with Some prev bj snoc.prems show ?thesis
        by (auto simp: scan_rows_snoc intro: best_match_snoc split: if_splits)
    qed
  qed
qed

lemma scan_rows_eq_Some_iff:
  "scan_rows q rows 0 None = Some r \<longleftrightarrow> best_match q rows r"
proof
  assume "scan_rows q rows 0 None = Some r"
  then show "best_match q rows r" by (rule scan_rows_best_match)
next
  assume bm: "best_match q rows r"
  then have "scan_rows q rows 0 None \<noteq> None"
    by (auto simp: scan_rows_None_iff dest: best_match_finite)
  then obtain r' where r': "scan_rows q rows 0 None = Some r'" by auto
  then have "best_match q rows r'" by (rule scan_rows_best_match)
  with bm have "r = r'" by (rule best_match_unique)
  with r' show "scan_rows q rows 0 None = Some r" by simp
qed

section \<open>Building and searching the index\<close>

lemma build_index_eq:
  "build_index x = Inr \<lparr>ix_dim = shape1 x, ix_rows = rows2d x\<rparr>"
  by (simp add: build_index_def index_add_def IndexFlatIP_def)

lemma wf_index_build: "wf_array2d x \<Longrightarrow> build_index x = Inr ix \<Longrightarrow> wf_index ix"
  by (auto simp: build_index_eq wf_array2d_def wf_index_def)

lemma index_add_wf:
  "wf_index ix \<Longrightarrow> wf_array2d x \<Longrightarrow> index_add ix x = Inr ix' \<Longrightarrow> wf_index ix'"
  by (auto simp: index_add_def wf_index_def wf_array2d_def split: if_splits)

lemma index_search_mismatch:
  "arr_len q \<noteq> ix_dim ix \<Longrightarrow> index_search ix q = Inl (PyException ''AssertionError'' '''')"
  by (simp add: index_search_def)

lemma index_search_Inr_iff:
  "index_search ix q = Inr res \<longleftrightarrow> arr_len q = ix_dim ix \<and> res = scan_rows q (ix_rows ix) 0 None"
  by (auto simp: index_search_def)

lemma index_search_NaN: "index_search ix (NaNs n) = Inr res \<Longrightarrow> res = None"
  by (auto simp: index_search_Inr_iff)

lemma index_search_best:
  assumes "index_search ix q = Inr (Some (s, i))"
  shows "i < length (ix_rows ix) \<and> inner_product q (ix_rows ix ! i) = Some s \<and>
         (\<forall>j < length (ix_rows ix). \<forall>t. inner_product q (ix_rows ix ! j) = Some t \<longrightarrow>
            t \<le> s \<and> (t = s \<longrightarrow> i \<le> j))"
proof -
  from assms have "best_match q (ix_rows ix) (s, i)"
    by (simp add: index_search_Inr_iff scan_rows_eq_Some_iff [symmetric])
  then show ?thesis by (fastforce simp: best_match_def)
qed

lemma normalized_index_nth:
  "normalized_index ix \<Longrightarrow> j < length (ix_rows ix) \<Longrightarrow> ix_rows ix ! j = Arr w \<Longrightarrow> unit_vec w"
  by (auto simp: normalized_index_def normalized_row_def list_all_length split: ndarray.splits)

lemma index_search_unit_bounds:
  assumes "index_search ix (Arr u) = Inr (Some (s, i))"
    and "normalized_index ix" and "unit_vec u"
  shows "-1 \<le> s \<and> s \<le> 1"
proof -
  from assms(1) have i: "i < length (ix_rows ix)"
    and s: "inner_product (Arr u) (ix_rows ix ! i) = Some s"
    by (auto dest: index_search_best)
  from s obtain w where w: "ix_rows ix ! i = Arr w" "s = dot u w"
    by (cases "ix_rows ix ! i") auto
  with assms(2) i have "unit_vec w" by (auto intro: normalized_index_nth)
  with assms(3) w show ?thesis using unit_dot_bounds [of u w] by simp
qed

lemma index_search_self:
  assumes wf: "wf_index ix" and nz: "normalized_index ix" and d: "distinct (ix_rows ix)"
    and i: "i < length (ix_rows ix)" and row: "ix_rows ix ! i = Arr v" and v: "unit_vec v"
  shows "index_search ix (Arr v) = Inr (Some (1, i))"
proof -
  let ?rows = "ix_rows ix"
  from wf i row have len: "length v = ix_dim ix"
    by (auto simp: wf_index_def list_all_length)
  have "best_match (Arr v) ?rows (1, i)"
    unfolding best_match_def
  proof (clarsimp simp: i row split: option.splits, intro conjI allI impI)
    from v show "dot v v = 1" by (simp add: unit_vec_def)
  next
    fix j t
    assume j: "j < length ?rows" and t: "inner_product (Arr v) (?rows ! j) = Some t"
    then obtain w where w: "?rows ! j = Arr w" "t = dot v w"
      by (cases "?rows ! j") auto
    with nz j have uw: "unit_vec w" by (auto intro: normalized_index_nth)
    with v w show "t \<le> 1" using unit_dot_bounds [of v w] by simp
    assume "t = 1"
    moreover from wf j w len have "length v = length w"
      by (auto simp: wf_index_def list_all_length)
    ultimately have "v = w" using v uw w by (auto intro: unit_dot_eq_1)
    with w row have "?rows ! j = ?rows ! i" by simp
    with d i j show "i \<le> j" by (simp add: nth_eq_iff_index_eq)
  qed
  then show ?thesis
    by (simp add: index_search_def len scan_rows_eq_Some_iff)
qed

section \<open>Perturbation of a query\<close>

lemma inner_product_None_query:
  "inner_product (Arr u) r = None \<longleftrightarrow> inner_product (Arr u') r = None"
  by (cases r) simp_all

lemma index_search_Some_query:
  assumes "index_search ix (Arr u) = Inr (Some r)" and "length u' = length u"
  shows "\<exists>r'. index_search ix (Arr u') = Inr (Some r')"
proof -
  from assms(1) have "scan_rows (Arr u) (ix_rows ix) 0 None = Some r" and "length u = ix_dim ix"
    by (simp_all add: index_search_Inr_iff)
  then have "scan_rows (Arr u) (ix_rows ix) 0 None \<noteq> None" by simp
  with inner_product_None_query [of u _ u'] have "scan_rows (Arr u') (ix_rows ix) 0 None \<noteq> None"
    by (simp add: scan_rows_None_iff)
  with assms(2) \<open>length u = ix_dim ix\<close> show ?thesis by (auto simp: index_search_def)
qed

lemma index_search_le_perturbed:
  assumes "normalized_index ix" and "length u = length u'"
    and "index_search ix (Arr u) = Inr (Some (s, i))"
    and "index_search ix (Arr u') = Inr (Some (s', i'))"
  shows "s \<le> s' + linalg_norm (map2 (-) u u')"
proof -
  from index_search_best [OF assms(3)] obtain r
    where i: "i < length (ix_rows ix)" and r: "ix_rows ix ! i = Arr r" and s: "s = dot u r"
    by (cases "ix_rows ix ! i") auto
  from assms(1) i r have "unit_vec r" by (rule normalized_index_nth)
  with assms(2) have "\<bar>dot u r - dot u' r\<bar> \<le> linalg_norm (map2 (-) u u')" by (rule dot_perturb)
  moreover from index_search_best [OF assms(4)] i r have "dot u' r \<le> s'" by simp
  ultimately show ?thesis using s by simp
qed

lemma index_search_stable:
  assumes "normalized_index ix" and "length u = length u'"
    and "linalg_norm (map2 (-) u' u) \<le> eps"
    and "index_search ix (Arr u) = Inr (Some (s, i))"
  shows "\<exists>s' i'. index_search ix (Arr u') = Inr (Some (s', i')) \<and> \<bar>s' - s\<bar> \<le> eps"
proof -
  from index_search_Some_query [OF assms(4) assms(2) [symmetric]] obtain s' i'
    where r': "index_search ix (Arr u') = Inr (Some (s', i'))" by auto
  have sym: "linalg_norm (map2 (-) u u') = linalg_norm (map2 (-) u' u)"
    using assms(2) by (simp add: linalg_norm_def dot_diff_self dot_commute algebra_simps)
  from index_search_le_perturbed [OF assms(1,2) assms(4) r']
    index_search_le_perturbed [OF assms(1) assms(2) [symmetric] r' assms(4)] sym assms(3)
  have "\<bar>s' - s\<bar> \<le> eps" by simp
  with r' show ?thesis by blast
qed

section \<open>Properties\<close>

text \<open>
  C5: \<^verbatim>\<open>index.search(q, 1)\<close> implements the specification of an exact
  nearest-neighbour query: it returns a pair exactly when the query has the index's
  dimension and the pair is the greatest inner product over the stored rows together
  with the least position that attains it.
\<close>

theorem index_search_refines_best_match:
  "index_search ix q = Inr (Some r) \<longleftrightarrow> arr_len q = ix_dim ix \<and> best_match q (ix_rows ix) r"
  by (auto simp: index_search_Inr_iff scan_rows_eq_Some_iff [symmetric])

theorem index_search_refines_best_match_witness:
  "index_search \<lparr>ix_dim = 2, ix_rows = [Arr [0, 1], Arr [1, 0], NaNs 2, Arr [1, 0]]\<rparr> (Arr [1, 0])
     = Inr (Some (1, 1)) \<and>
   best_match (Arr [1, 0]) [Arr [0, 1], Arr [1, 0], NaNs 2, Arr [1, 0]] (1, 1)"
proof -
  have "index_search \<lparr>ix_dim = 2, ix_rows = [Arr [0, 1], Arr [1, 0], NaNs 2, Arr [1, 0]]\<rparr>
      (Arr [1, 0]) = Inr (Some (1, 1))"
    by (simp add: index_search_def)
  then show ?thesis
    using index_search_refines_best_match
      [of "\<lparr>ix_dim = 2, ix_rows = [Arr [0, 1], Arr [1, 0], NaNs 2, Arr [1, 0]]\<rparr>" "Arr [1, 0]"
        "(1, 1)"]
    by simp
qed

text \<open>
  A successful search returns a position inside the index whose row has the
  reported similarity, and no stored row has a greater similarity to the query: the
  search is exact.
\<close>

theorem index_search_exact:
  assumes "index_search ix q = Inr (Some (s, i))"
  shows "i < length (ix_rows ix) \<and> inner_product q (ix_rows ix ! i) = Some s \<and>
         (\<forall>j < length (ix_rows ix). \<forall>t. inner_product q (ix_rows ix ! j) = Some t \<longrightarrow> t \<le> s)"
  using index_search_best [OF assms] by blast

theorem index_search_exact_witness:
  "index_search \<lparr>ix_dim = 2, ix_rows = [Arr [0, 1], Arr [1, 0]]\<rparr> (Arr [3 / 5, 4 / 5])
     = Inr (Some (4 / 5, 0)) \<and>
   (0::nat) < length [Arr [0, 1], Arr [1, 0]] \<and>
   inner_product (Arr [3 / 5, 4 / 5]) ([Arr [0, 1], Arr [1, 0]] ! 0) = Some (4 / 5)"
proof -
  have "index_search \<lparr>ix_dim = 2, ix_rows = [Arr [0, 1], Arr [1, 0]]\<rparr> (Arr [3 / 5, 4 / 5])
     = Inr (Some (4 / 5, 0))"
    by (simp add: index_search_def)
  from index_search_exact [OF this] this show ?thesis by simp
qed

text \<open>
  In an index of distinct, normalised rows of the index's dimension, a query with
  an enrolled unit vector returns that vector's own position with similarity 1.
\<close>

theorem index_search_enrolled:
  assumes "wf_index ix" and "normalized_index ix" and "distinct (ix_rows ix)"
    and "i < length (ix_rows ix)" and "ix_rows ix ! i = Arr v" and "unit_vec v"
  shows "index_search ix (Arr v) = Inr (Some (1, i))"
  using assms by (rule index_search_self)

theorem index_search_enrolled_witness:
  "wf_index \<lparr>ix_dim = 2, ix_rows = [Arr [0, 1], Arr [3 / 5, 4 / 5]]\<rparr> \<and>
   normalized_index \<lparr>ix_dim = 2, ix_rows = [Arr [0, 1], Arr [3 / 5, 4 / 5]]\<rparr> \<and>
   distinct [Arr [0, 1], Arr [3 / 5, 4 / 5]] \<and>
   (1::nat) < length [Arr [0, 1], Arr [3 / 5, 4 / 5]] \<and>
   [Arr [0, 1], Arr [3 / 5, 4 / 5]] ! 1 = Arr [3 / 5, 4 / 5] \<and>
   unit_vec [3 / 5, 4 / 5] \<and>
   index_search \<lparr>ix_dim = 2, ix_rows = [Arr [0, 1], Arr [3 / 5, 4 / 5]]\<rparr> (Arr [3 / 5, 4 / 5])
     = Inr (Some (1, 1))"
proof -
  let ?ix = "\<lparr>ix_dim = 2, ix_rows = [Arr [0, 1], Arr [3 / 5, 4 / 5]]\<rparr>"
  have h: "wf_index ?ix" "normalized_index ?ix" "distinct (ix_rows ?ix)"
    "1 < length (ix_rows ?ix)" "ix_rows ?ix ! 1 = Arr [3 / 5, 4 / 5]" "unit_vec [3 / 5, 4 / 5]"
    by (simp_all add: wf_index_def normalized_index_def normalized_row_def unit_vec_def)
  from index_search_enrolled [OF h] h show ?thesis by simp
qed

end
