(* ===== verification/Face_Match.thy ===== *)
theory Face_Match
  imports Embedding_Index
begin

text \<open>
  The per-face matching policy, lines 146 and 156-161 of
  \<^verbatim>\<open>recognize_faces_in_image\<close>: normalise the detected embedding, query the index
  for the single best row, accept it when its similarity is strictly above the
  threshold \<open>0.5\<close>, and read the label at the returned position.

  \<open>service\<close> holds the two module-level values the request handlers read: the index
  and the list \<^verbatim>\<open>labels\<close>.  \<open>match_face\<close> returns \<open>Inr None\<close> for "no identity",
  \<open>Inr (Some (name, confidence))\<close> for an accepted match, and \<open>Inl\<close> the exception
  that the search or the list access raises (a dimension mismatch, a label list
  shorter than the index).  \<open>wf_service\<close> is what start-up establishes: rows of the
  index's dimension, normalised, one label per row.

  Proved here: acceptance is strict (a similarity of exactly \<open>0.5\<close> is rejected), an
  embedding of zero norm is "no identity" and not an error, no exception on a
  well-formed service, an accepted name is the label of the best row, confidences
  lie in \<open>(0.5, 1]\<close>, an enrolled vector is recognised with confidence \<open>1\<close>, and the
  accept/reject decision does not change under an error of the query that is smaller
  than the distance of the best similarity from the threshold.
\<close>

section \<open>Definitions\<close>

record service =
  index :: faiss_index
  labels :: "string list"

definition threshold :: real where
  "threshold = 0.5"

definition match_face :: "service \<Rightarrow> vec \<Rightarrow> exn + (string \<times> real) option" where
  "match_face svc embedding =
     (let emb = normalize_embedding embedding in
      case index_search (index svc) emb of
        Inl e \<Rightarrow> Inl e
      | Inr None \<Rightarrow> Inr None
      | Inr (Some (D, I)) \<Rightarrow>
          if D > threshold then
            (if I < length (labels svc) then Inr (Some (labels svc ! I, D))
             else Inl (PyException ''IndexError'' ''list index out of range''))
          else Inr None)"

definition wf_service :: "service \<Rightarrow> bool" where
  "wf_service svc \<longleftrightarrow>
     wf_index (index svc) \<and> normalized_index (index svc) \<and>
     length (labels svc) = length (ix_rows (index svc))"

section \<open>The branches of the policy\<close>

lemma match_face_cases:
  "match_face svc e =
     (if length e \<noteq> ix_dim (index svc) then Inl (PyException ''AssertionError'' '''')
      else case scan_rows (normalize_embedding e) (ix_rows (index svc)) 0 None of
        None \<Rightarrow> Inr None
      | Some (D, I) \<Rightarrow>
          if D \<le> 1 / 2 then Inr None
          else if I < length (labels svc) then Inr (Some (labels svc ! I, D))
          else Inl (PyException ''IndexError'' ''list index out of range''))"
  by (auto simp: match_face_def index_search_def threshold_def Let_def split: option.splits)

lemma match_face_SomeD:
  assumes "match_face svc e = Inr (Some (name, D))"
  shows "length e = ix_dim (index svc)"
    and "\<exists>I. scan_rows (normalize_embedding e) (ix_rows (index svc)) 0 None = Some (D, I) \<and>
           I < length (labels svc) \<and> name = labels svc ! I"
    and "1 / 2 < D"
  using assms by (auto simp: match_face_cases split: if_splits option.splits)

lemma match_face_NaN:
  "normalize_embedding e = NaNs n \<Longrightarrow> length e = ix_dim (index svc) \<Longrightarrow>
   match_face svc e = Inr None"
  by (simp add: match_face_cases)

lemma match_face_Inr:
  assumes "wf_service svc" and "length e = ix_dim (index svc)"
  shows "\<exists>r. match_face svc e = Inr r"
proof (cases "scan_rows (normalize_embedding e) (ix_rows (index svc)) 0 None")
  case None
  with assms(2) show ?thesis by (simp add: match_face_cases)
next
  case (Some r)
  obtain D I where r: "r = (D, I)" by (cases r)
  with Some have "best_match (normalize_embedding e) (ix_rows (index svc)) (D, I)"
    by (simp add: scan_rows_eq_Some_iff)
  then have "I < length (ix_rows (index svc))" by (simp add: best_match_def)
  with assms Some r show ?thesis by (simp add: match_face_cases wf_service_def)
qed

lemma match_face_le_1:
  assumes "match_face svc e = Inr (Some (name, D))" and "wf_service svc" and "e \<noteq> []"
  shows "D \<le> 1"
proof -
  from match_face_SomeD [OF assms(1)] obtain I
    where len: "length e = ix_dim (index svc)"
      and s: "scan_rows (normalize_embedding e) (ix_rows (index svc)) 0 None = Some (D, I)"
    by blast
  then obtain u where u: "normalize_embedding e = Arr u"
    by (cases "normalize_embedding e") auto
  from u assms(3) have "unit_vec u" by (rule unit_vec_normalize)
  moreover from u have "length u = length e"
    using arr_len_normalize_embedding [of e] by simp
  with s u len have "index_search (index svc) (Arr u) = Inr (Some (D, I))"
    by (simp add: index_search_def)
  ultimately show ?thesis using assms(2)
    by (auto simp: wf_service_def dest: index_search_unit_bounds)
qed

lemma match_face_unit_row:
  assumes "wf_service svc" and "distinct (ix_rows (index svc))"
    and "i < length (labels svc)" and "ix_rows (index svc) ! i = Arr v" and "unit_vec v"
  shows "match_face svc v = Inr (Some (labels svc ! i, 1))"
proof -
  from assms have "index_search (index svc) (Arr v) = Inr (Some (1, i))"
    by (intro index_search_self) (simp_all add: wf_service_def)
  with assms(3,5) show ?thesis
    by (simp add: match_face_def unit_vec_normalized threshold_def)
qed

section \<open>Properties\<close>

text \<open>
  C4: A face is accepted only when the similarity of its best match is strictly
  greater than the threshold 0.5, and then the reported name is the label stored at
  the position of the best-matching row.
\<close>

theorem match_face_sound:
  assumes "match_face svc e = Inr (Some (name, D))"
  shows "threshold < D \<and>
         (\<exists>I < length (labels svc). name = labels svc ! I \<and>
            best_match (normalize_embedding e) (ix_rows (index svc)) (D, I))"
  using match_face_SomeD [OF assms]
  by (auto simp: threshold_def scan_rows_eq_Some_iff)

theorem match_face_sound_witness:
  "match_face \<lparr>index = \<lparr>ix_dim = 2, ix_rows = [Arr [1, 0], Arr [0, 1]]\<rparr>, labels = [''A'', ''B'']\<rparr>
     [3, 4] = Inr (Some (''B'', 4 / 5)) \<and> threshold < 4 / 5"
proof -
  have "match_face \<lparr>index = \<lparr>ix_dim = 2, ix_rows = [Arr [1, 0], Arr [0, 1]]\<rparr>,
      labels = [''A'', ''B'']\<rparr> [3, 4] = Inr (Some (''B'', 4 / 5))"
    by (simp add: match_face_cases normalize_embedding_def linalg_norm_def)
  from match_face_sound [OF this] this show ?thesis by simp
qed

text \<open>
  The comparison with the threshold is strict: a face whose best match has a
  similarity of exactly 0.5 is rejected, whatever the labels are.
\<close>

theorem match_face_boundary_rejected:
  assumes "scan_rows (normalize_embedding e) (ix_rows (index svc)) 0 None = Some (1 / 2, I)"
    and "length e = ix_dim (index svc)"
  shows "match_face svc e = Inr None"
  using assms by (simp add: match_face_cases)

theorem match_face_boundary_rejected_witness:
  "scan_rows (normalize_embedding [1, sqrt 3]) [Arr [1, 0]] 0 None = Some (1 / 2, 0) \<and>
   length [1, sqrt 3] = (2::nat) \<and>
   match_face \<lparr>index = \<lparr>ix_dim = 2, ix_rows = [Arr [1, 0]]\<rparr>, labels = [''A'']\<rparr> [1, sqrt 3]
     = Inr None"
proof -
  let ?svc = "\<lparr>index = \<lparr>ix_dim = 2, ix_rows = [Arr [1, 0]]\<rparr>, labels = [''A'']\<rparr>"
  have s: "scan_rows (normalize_embedding [1, sqrt 3]) (ix_rows (index ?svc)) 0 None
      = Some (1 / 2, 0)"
    by (simp add: normalize_embedding_def linalg_norm_def)
  have l: "length [1, sqrt 3] = ix_dim (index ?svc)" by simp
  from match_face_boundary_rejected [OF s l] s show ?thesis by simp
qed

text \<open>
  C37: An embedding of zero norm does not raise: the division yields NaN, no row of
  the index compares greater, and the face is reported as "no identity".
\<close>

theorem match_face_zero_norm:
  assumes "e \<noteq> []" and "\<forall>x\<in>set e. x = 0" and "length e = ix_dim (index svc)"
  shows "match_face svc e = Inr None"
proof -
  from assms(1,2) have "normalize_embedding e = NaNs (length e)"
    by (simp add: normalize_embedding_NaNs_iff)
  then show ?thesis using assms(3) by (rule match_face_NaN)
qed

theorem match_face_zero_norm_witness:
  "[0, 0 :: real] \<noteq> [] \<and> set [0, 0 :: real] = {0} \<and> length [0, 0 :: real] = 2 \<and>
   match_face \<lparr>index = \<lparr>ix_dim = 2, ix_rows = [Arr [1, 0]]\<rparr>, labels = [''A'']\<rparr> [0, 0]
     = Inr None"
  using match_face_zero_norm
    [of "[0, 0]" "\<lparr>index = \<lparr>ix_dim = 2, ix_rows = [Arr [1, 0]]\<rparr>, labels = [''A'']\<rparr>"]
  by simp

text \<open>
  On a well-formed service, matching an embedding of the index's dimension never
  raises: the position the search returns always has a label.
\<close>

theorem match_face_total:
  assumes "wf_service svc" and "length e = ix_dim (index svc)"
  shows "\<exists>r. match_face svc e = Inr r"
  using assms by (rule match_face_Inr)

theorem match_face_total_witness:
  "wf_service \<lparr>index = \<lparr>ix_dim = 2, ix_rows = [Arr [1, 0]]\<rparr>, labels = [''A'']\<rparr> \<and>
   (\<exists>r. match_face \<lparr>index = \<lparr>ix_dim = 2, ix_rows = [Arr [1, 0]]\<rparr>, labels = [''A'']\<rparr> [0, 2]
     = Inr r)"
proof -
  let ?svc = "\<lparr>index = \<lparr>ix_dim = 2, ix_rows = [Arr [1, 0]]\<rparr>, labels = [''A'']\<rparr>"
  have w: "wf_service ?svc"
    by (simp add: wf_service_def wf_index_def normalized_index_def normalized_row_def unit_vec_def)
  have l: "length [0, 2 :: real] = ix_dim (index ?svc)" by simp
  from match_face_total [OF w l] w show ?thesis by simp
qed

text \<open>
  On a well-formed service the confidence of an accepted match lies in the
  interval (0.5, 1].
\<close>

theorem match_face_confidence_bounds:
  assumes "match_face svc e = Inr (Some (name, D))" and "wf_service svc" and "e \<noteq> []"
  shows "1 / 2 < D \<and> D \<le> 1"
  using match_face_SomeD(3) [OF assms(1)] match_face_le_1 [OF assms] by simp

theorem match_face_confidence_bounds_witness:
  "match_face \<lparr>index = \<lparr>ix_dim = 2, ix_rows = [Arr [1, 0], Arr [0, 1]]\<rparr>, labels = [''A'', ''B'']\<rparr>
     [3, 4] = Inr (Some (''B'', 4 / 5)) \<and>
   wf_service \<lparr>index = \<lparr>ix_dim = 2, ix_rows = [Arr [1, 0], Arr [0, 1]]\<rparr>, labels = [''A'', ''B'']\<rparr> \<and>
   [3, 4 :: real] \<noteq> [] \<and> (1 / 2 :: real) < 4 / 5 \<and> (4 / 5 :: real) \<le> 1"
proof -
  let ?svc = "\<lparr>index = \<lparr>ix_dim = 2, ix_rows = [Arr [1, 0], Arr [0, 1]]\<rparr>, labels = [''A'', ''B'']\<rparr>"
  have m: "match_face ?svc [3, 4] = Inr (Some (''B'', 4 / 5))"
    by (simp add: match_face_cases normalize_embedding_def linalg_norm_def)
  have w: "wf_service ?svc"
    by (simp add: wf_service_def wf_index_def normalized_index_def normalized_row_def unit_vec_def)
  from match_face_confidence_bounds [OF m w] m w show ?thesis by simp
qed

text \<open>
  With identities enrolled under distinct normalised vectors, a face whose
  embedding is an enrolled unit vector is recognised as that identity with
  confidence 1.
\<close>

theorem match_face_enrolled:
  assumes "wf_service svc" and "distinct (ix_rows (index svc))"
    and "i < length (labels svc)" and "ix_rows (index svc) ! i = Arr v" and "unit_vec v"
  shows "match_face svc v = Inr (Some (labels svc ! i, 1))"
  using assms by (rule match_face_unit_row)

theorem match_face_enrolled_witness:
  "wf_service \<lparr>index = \<lparr>ix_dim = 2, ix_rows = [Arr [1, 0], Arr [0, 1]]\<rparr>, labels = [''A'', ''B'']\<rparr> \<and>
   distinct [Arr [1, 0], Arr [0, 1]] \<and> (0::nat) < length [''A'', ''B''] \<and>
   [Arr [1, 0], Arr [0, 1]] ! 0 = Arr [1, 0] \<and> unit_vec [1, 0] \<and>
   match_face \<lparr>index = \<lparr>ix_dim = 2, ix_rows = [Arr [1, 0], Arr [0, 1]]\<rparr>, labels = [''A'', ''B'']\<rparr>
     [1, 0] = Inr (Some (''A'', 1))"
proof -
  let ?svc = "\<lparr>index = \<lparr>ix_dim = 2, ix_rows = [Arr [1, 0], Arr [0, 1]]\<rparr>, labels = [''A'', ''B'']\<rparr>"
  have h: "wf_service ?svc" "distinct (ix_rows (index ?svc))" "0 < length (labels ?svc)"
    "ix_rows (index ?svc) ! 0 = Arr [1, 0]" "unit_vec [1, 0]"
    by (simp_all add: wf_service_def wf_index_def normalized_index_def normalized_row_def
        unit_vec_def)
  from match_face_enrolled [OF h] h show ?thesis by simp
qed

text \<open>
  C20: The decision is stable under small errors of the query.  When the rows of the
  index are normalised and a query is replaced by one at distance at most eps from
  it (as rounding the normalised embedding to single precision does), the best
  similarity moves by at most eps: a match that clears the threshold by more than
  eps is still accepted, and a face whose best similarity is at most the threshold
  minus eps is still rejected.
\<close>

theorem threshold_decision_stable:
  assumes "normalized_index (index svc)" and "length u = length u'"
    and "linalg_norm (map2 (-) u' u) \<le> eps"
    and "index_search (index svc) (Arr u) = Inr (Some (s, i))"
  shows "\<exists>s' i'. index_search (index svc) (Arr u') = Inr (Some (s', i')) \<and>
           \<bar>s' - s\<bar> \<le> eps \<and> (threshold + eps < s \<longrightarrow> threshold < s') \<and>
           (s \<le> threshold - eps \<longrightarrow> s' \<le> threshold)"
proof -
  from index_search_stable [OF assms] obtain s' i'
    where "index_search (index svc) (Arr u') = Inr (Some (s', i'))" and "\<bar>s' - s\<bar> \<le> eps"
    by blast
  then show ?thesis by (intro exI [of _ s'] exI [of _ i']) auto
qed

theorem threshold_decision_stable_witness:
  "normalized_index (index \<lparr>index = \<lparr>ix_dim = 2, ix_rows = [Arr [1, 0], Arr [0, 1]]\<rparr>,
      labels = [''A'', ''B'']\<rparr>) \<and>
   linalg_norm (map2 (-) [3 / 5, 3 / 4] [3 / 5, 4 / 5]) \<le> 1 / 20 \<and>
   index_search \<lparr>ix_dim = 2, ix_rows = [Arr [1, 0], Arr [0, 1]]\<rparr> (Arr [3 / 5, 4 / 5]) =
     Inr (Some (4 / 5, 1)) \<and>
   (\<exists>s' i'. index_search \<lparr>ix_dim = 2, ix_rows = [Arr [1, 0], Arr [0, 1]]\<rparr> (Arr [3 / 5, 3 / 4]) =
      Inr (Some (s', i')) \<and> \<bar>s' - 4 / 5\<bar> \<le> 1 / 20 \<and> threshold < s')"
proof -
  let ?svc = "\<lparr>index = \<lparr>ix_dim = 2, ix_rows = [Arr [1, 0], Arr [0, 1]]\<rparr>, labels = [''A'', ''B'']\<rparr>"
  have n: "normalized_index (index ?svc)"
    by (simp add: normalized_index_def normalized_row_def unit_vec_def)
  have l: "length [3 / 5, 4 / 5 :: real] = length [3 / 5, 3 / 4 :: real]" by simp
  have "sqrt (1 / 400) = 1 / 20"
    by (rule real_sqrt_unique) (simp_all add: power2_eq_square)
  then have e: "linalg_norm (map2 (-) [3 / 5, 3 / 4] [3 / 5, 4 / 5]) \<le> 1 / 20"
    by (simp add: linalg_norm_def)
  have s: "index_search (index ?svc) (Arr [3 / 5, 4 / 5]) = Inr (Some (4 / 5, 1))"
    by (simp add: index_search_def)
  from threshold_decision_stable [OF n l e s] n e s show ?thesis
    by (simp add: threshold_def)
qed

end
