(* ===== verification/Coordinates.thy ===== *)
theory Coordinates
  imports FR_Prelude
begin

text \<open>
  The coordinate reconciler, lines 141-142 and 150-154 of
  \<^verbatim>\<open>recognize_faces_in_image\<close>.  The detector sees the frame squashed to 640x640
  (\<open>det_size\<close>); its bounding box (four floats) is cast to integers with
  \<^verbatim>\<open>astype(int)\<close>, and each coordinate is multiplied by the scale factor of its
  axis, \<^verbatim>\<open>frame.shape[1] / 640\<close> or \<^verbatim>\<open>frame.shape[0] / 640\<close>, and cut to an
  integer with \<^verbatim>\<open>int()\<close>.  Both conversions round towards zero (\<open>trunc0\<close>).
  A frame's shape is the pair (height, width), as \<^verbatim>\<open>frame.shape[0]\<close> and
  \<^verbatim>\<open>frame.shape[1]\<close> are.  Arithmetic is exact (no float rounding of the factor).

  Proved here: the full detection frame maps to the full original frame, a 640x640
  original is only truncated, the order of the corners is kept, a box inside the
  detection frame lands inside the original frame, and the two truncations lose less
  than one pixel plus one scale factor.  Nothing clamps a box that the detector
  places outside its frame.
\<close>

section \<open>Definitions\<close>

type_synonym fbox = "real \<times> real \<times> real \<times> real"
type_synonym ibox = "int \<times> int \<times> int \<times> int"

definition det_size :: nat where
  "det_size = 640"

definition scale_factor :: "nat \<Rightarrow> real" where
  "scale_factor n = real n / 640"

definition astype_int :: "real \<Rightarrow> int" where
  "astype_int x = trunc0 x"

definition rescale :: "int \<Rightarrow> real \<Rightarrow> int" where
  "rescale c s = trunc0 (of_int c * s)"

definition reconcile_bbox :: "nat \<times> nat \<Rightarrow> fbox \<Rightarrow> ibox" where
  "reconcile_bbox shape bbox =
     (case shape of (h, w) \<Rightarrow>
      case bbox of (bx1, by1, bx2, by2) \<Rightarrow>
        let scale_x = scale_factor w;
            scale_y = scale_factor h;
            x1 = astype_int bx1; y1 = astype_int by1;
            x2 = astype_int bx2; y2 = astype_int by2
        in (rescale x1 scale_x, rescale y1 scale_y, rescale x2 scale_x, rescale y2 scale_y))"

lemma scale_factor_nonneg [simp]: "0 \<le> scale_factor n"
  by (simp add: scale_factor_def)

lemma scale_factor_det_size [simp]: "scale_factor 640 = 1"
  by (simp add: scale_factor_def)

lemma rescale_0 [simp]: "rescale 0 s = 0"
  by (simp add: rescale_def)

lemma rescale_640 [simp]: "rescale 640 (scale_factor n) = int n"
proof -
  have "of_int 640 * scale_factor n = (of_int (int n) :: real)"
    by (simp add: scale_factor_def)
  then show ?thesis unfolding rescale_def by (simp only: trunc0_of_int)
qed

lemma rescale_1 [simp]: "rescale c 1 = c"
  by (simp add: rescale_def)

lemma rescale_mono: "0 \<le> s \<Longrightarrow> a \<le> b \<Longrightarrow> rescale a s \<le> rescale b s"
  unfolding rescale_def by (intro trunc0_mono mult_right_mono) simp_all

lemma astype_int_mono: "a \<le> b \<Longrightarrow> astype_int a \<le> astype_int b"
  by (simp add: astype_int_def trunc0_mono)

lemma rescale_nonneg: "0 \<le> s \<Longrightarrow> 0 \<le> c \<Longrightarrow> 0 \<le> rescale c s"
  using rescale_mono [of s 0 c] by simp

lemma rescale_le_size: "c \<le> 640 \<Longrightarrow> rescale c (scale_factor n) \<le> int n"
  using rescale_mono [of "scale_factor n" c 640] by simp

lemma rescale_error:
  assumes "0 \<le> x" and "0 \<le> s"
  shows "x * s - (s + 1) < of_int (rescale (astype_int x) s)"
    and "of_int (rescale (astype_int x) s) \<le> x * s"
proof -
  let ?c = "astype_int x"
  from assms(1) have c: "x - 1 < of_int ?c" "of_int ?c \<le> x" "0 \<le> ?c"
    by (simp_all add: astype_int_def trunc0_lower trunc0_le_of_nonneg trunc0_nonneg)
  with assms(2) have cs: "0 \<le> of_int ?c * s" by simp
  from c(1) assms(2) have "(x - 1) * s \<le> of_int ?c * s"
    by (intro mult_right_mono) simp_all
  moreover from cs have "of_int ?c * s - 1 < of_int (rescale ?c s)"
    unfolding rescale_def by (rule trunc0_lower)
  ultimately show "x * s - (s + 1) < of_int (rescale ?c s)"
    by (simp add: algebra_simps)
  from cs have "of_int (rescale ?c s) \<le> of_int ?c * s"
    unfolding rescale_def by (rule trunc0_le_of_nonneg)
  also from c(2) assms(2) have "\<dots> \<le> x * s" by (intro mult_right_mono)
  finally show "of_int (rescale ?c s) \<le> x * s" .
qed

lemma reconcile_bbox_simp:
  "reconcile_bbox (h, w) (bx1, by1, bx2, by2) =
     (rescale (astype_int bx1) (scale_factor w), rescale (astype_int by1) (scale_factor h),
      rescale (astype_int bx2) (scale_factor w), rescale (astype_int by2) (scale_factor h))"
  by (simp add: reconcile_bbox_def Let_def)

lemmas reconcile_eval = reconcile_bbox_simp astype_int_def rescale_def scale_factor_def

section \<open>Properties\<close>

text \<open>
  C18: The whole detection frame (0, 0, 640, 640) is reconciled to the whole original
  frame (0, 0, width, height), for every frame size.
\<close>

theorem reconcile_full_frame:
  "reconcile_bbox (h, w) (0, 0, 640, 640) = (0, 0, int w, int h)"
  by (simp add: reconcile_bbox_simp astype_int_def)

text \<open>
  Reconciliation keeps the order of the corners: a box with x1 <= x2 and
  y1 <= y2 in detection coordinates has x1 <= x2 and y1 <= y2 in the original frame.
\<close>

theorem reconcile_keeps_order:
  assumes "bx1 \<le> bx2" and "by1 \<le> by2"
    and "reconcile_bbox (h, w) (bx1, by1, bx2, by2) = (x1, y1, x2, y2)"
  shows "x1 \<le> x2 \<and> y1 \<le> y2"
  using assms by (auto simp: reconcile_bbox_simp intro!: rescale_mono astype_int_mono)

theorem reconcile_keeps_order_witness:
  "(100.7::real) \<le> 300.9 \<and> (50.2::real) \<le> 200.5 \<and>
   reconcile_bbox (480, 1000) (100.7, 50.2, 300.9, 200.5) = (156, 37, 468, 150) \<and>
   (156::int) \<le> 468 \<and> (37::int) \<le> 150"
proof -
  have r: "reconcile_bbox (480, 1000) (100.7, 50.2, 300.9, 200.5) = (156, 37, 468, 150)"
    by (simp add: reconcile_eval trunc0_def)
  from reconcile_keeps_order [OF _ _ r] r show ?thesis by simp
qed

text \<open>
  C39: A box that lies inside the 640x640 detection frame is reconciled to a box
  inside the original frame: every x in [0, width], every y in [0, height].
\<close>

theorem reconcile_in_frame:
  assumes "0 \<le> bx1" "bx1 \<le> 640" "0 \<le> by1" "by1 \<le> 640"
    and "0 \<le> bx2" "bx2 \<le> 640" "0 \<le> by2" "by2 \<le> 640"
    and "reconcile_bbox (h, w) (bx1, by1, bx2, by2) = (x1, y1, x2, y2)"
  shows "0 \<le> x1 \<and> x1 \<le> int w \<and> 0 \<le> y1 \<and> y1 \<le> int h \<and>
         0 \<le> x2 \<and> x2 \<le> int w \<and> 0 \<le> y2 \<and> y2 \<le> int h"
proof -
  have "0 \<le> rescale (astype_int b) (scale_factor n) \<and> rescale (astype_int b) (scale_factor n) \<le> int n"
    if "0 \<le> b" "b \<le> 640" for b n
  proof -
    from that have "0 \<le> astype_int b" "astype_int b \<le> 640"
      by (simp_all add: astype_int_def trunc0_nonneg trunc0_le_int)
    then show ?thesis by (simp add: rescale_nonneg rescale_le_size)
  qed
  with assms show ?thesis by (auto simp: reconcile_bbox_simp)
qed

theorem reconcile_in_frame_witness:
  "(0::real) \<le> 100.7 \<and> (100.7::real) \<le> 640 \<and> (0::real) \<le> 50.2 \<and> (50.2::real) \<le> 640 \<and>
   (0::real) \<le> 300.9 \<and> (300.9::real) \<le> 640 \<and> (0::real) \<le> 200.5 \<and> (200.5::real) \<le> 640 \<and>
   reconcile_bbox (480, 1000) (100.7, 50.2, 300.9, 200.5) = (156, 37, 468, 150) \<and>
   (0::int) \<le> 156 \<and> (468::int) \<le> 1000 \<and> (150::int) \<le> 480"
proof -
  have r: "reconcile_bbox (480, 1000) (100.7, 50.2, 300.9, 200.5) = (156, 37, 468, 150)"
    by (simp add: reconcile_eval trunc0_def)
  from reconcile_in_frame [OF _ _ _ _ _ _ _ _ r] r show ?thesis by simp
qed

text \<open>
  For a non-negative coordinate x and scale factor s, the reconciled coordinate
  is at most the exact product x * s and falls short of it by less than s + 1: the
  cast before the multiplication costs up to s pixels, the cast after it up to one.
\<close>

theorem reconcile_truncation_error:
  assumes "0 \<le> x" and "0 \<le> s"
  shows "x * s - (s + 1) < of_int (rescale (astype_int x) s) \<and>
         of_int (rescale (astype_int x) s) \<le> x * s"
  using rescale_error [OF assms] by simp

theorem reconcile_truncation_error_witness:
  "(0::real) \<le> 100.7 \<and> (0::real) \<le> 25 / 16 \<and>
   100.7 * (25 / 16) - (25 / 16 + 1) < (of_int (rescale (astype_int 100.7) (25 / 16)) :: real) \<and>
   (of_int (rescale (astype_int 100.7) (25 / 16)) :: real) \<le> 100.7 * (25 / 16)"
  using reconcile_truncation_error [of "100.7" "25 / 16"] by simp

end
