(* ===== verification/Ledger.thy ===== *)
theory Ledger
  imports FR_Prelude
begin

text \<open>
  The attendance ledger: \<^verbatim>\<open>get_db_connection\<close> (lines 36-37) and
  \<^verbatim>\<open>mark_attendance\<close> (lines 96-124), over the two tables its SQL names.

  \<^bold>\<open>State.\<close>  \<open>world\<close> is everything outside the Python process that the handlers
  read or change:
  \<^item> \<open>students\<close>, \<open>attendance\<close>: the tables, as lists of rows in storage order, with
    the columns the queries of the file mention.  A \<^verbatim>\<open>SELECT\<close> without
    \<^verbatim>\<open>ORDER BY\<close> is read as returning rows in that order, so \<^verbatim>\<open>fetchval\<close> is the
    first match (\<open>find\<close>).
  \<^item> \<open>attendance_seq\<close>: the next value of the key sequence of \<open>attendance\<close>; the
    \<^verbatim>\<open>INSERT\<close> of line 118 names no id, so the database assigns it.
  \<^item> \<open>open_conns\<close>: the number of connections opened and not yet closed.
  \<^item> \<open>faults\<close>: the outcomes of the coming database calls, one entry per call:
    \<open>None\<close> (or an exhausted list) lets the call succeed, \<open>Some e\<close> makes it raise
    \<open>e\<close>.  Any pattern of storage failures is such a list.
  \<^item> \<open>now\<close>, \<open>later\<close>: the value the next \<^verbatim>\<open>datetime.now()\<close> returns and the
    values of the calls after it; when \<open>later\<close> is used up the clock stands still.

  \<^bold>\<open>Operations.\<close>  \<open>db_call\<close> is one awaited call on the database; the connection,
  the two \<^verbatim>\<open>fetchval\<close>s and the \<^verbatim>\<open>execute\<close> are instances of it.
  \<open>mark_attendance\<close> is the coroutine, statement by statement, with its
  \<^verbatim>\<open>try/finally\<close>.  Python's \<^verbatim>\<open>if not student_id\<close> and \<^verbatim>\<open>if not existing\<close> are
  \<open>py_truthy\<close>: false for \<^verbatim>\<open>None\<close> and for the integer 0.

  \<^bold>\<open>Specification.\<close>  \<open>ledger_of\<close> abstracts the table to the set of
  (student, date) pairs; \<open>markPresent\<close> is the contract of the specification on that
  set.  \<open>unique_per_day\<close> is the invariant "at most one row per student and day";
  \<open>wf_world\<close> says that the keys of \<open>attendance\<close> and its sequence are positive, as
  a serial key is.  \<open>steady\<close> is the situation of the idempotence results - the
  storage up, the clock staying on one day, a well-formed table; \<open>settled w name c\<close>
  says that a call for \<open>name\<close> in \<open>w\<close> cannot create a record (no such student, key
  0, or a record for today); \<open>extends w w'\<close> relates a world to a later one of the
  same day with the same students and at least the same records.

  \<^bold>\<open>Proved here.\<close>  For every fault list: the outcome of \<open>mark_attendance\<close> (at most
  one row appended, with status Present; \<open>True\<close> exactly when a row was appended),
  the connection count restored, the two invariants preserved, no row on an
  exception.  Without faults: the refinement of \<open>markPresent\<close>, and marking twice on
  one day gives \<open>True\<close>, then \<open>False\<close>, and one row.  The date rendering is
  injective on calendar days, and date and time strings compare as the calendar
  days and times of day they render.  A row with key 0 breaks the uniqueness.  On a steady
  day a call returns \<open>True\<close> exactly when its name was not settled, settles it, and
  leads to a steady world that extends the one before.
\<close>

section \<open>Tables, clock and world\<close>

record student_row =
  s_id :: int
  s_name :: string
  s_class_id :: int
  s_classroom :: string
  s_face_embedding_path :: string

record attendance_row =
  a_id :: int
  a_student_id :: int
  a_class_id :: int
  a_date :: string
  a_time :: string
  a_status :: string

record datetime =
  dt_year :: nat
  dt_month :: nat
  dt_day :: nat
  dt_hour :: nat
  dt_minute :: nat
  dt_second :: nat

record world =
  students :: "student_row list"
  attendance :: "attendance_row list"
  attendance_seq :: int
  open_conns :: nat
  faults :: "exn option list"
  now :: datetime
  later :: "datetime list"

section \<open>Operations\<close>

definition strftime_date :: "datetime \<Rightarrow> string" where
  "strftime_date t =
     zfill 4 (str_nat (dt_year t)) @ ''-'' @ zfill 2 (str_nat (dt_month t)) @ ''-'' @
     zfill 2 (str_nat (dt_day t))"

definition strftime_time :: "datetime \<Rightarrow> string" where
  "strftime_time t =
     zfill 2 (str_nat (dt_hour t)) @ '':'' @ zfill 2 (str_nat (dt_minute t)) @ '':'' @
     zfill 2 (str_nat (dt_second t))"

definition valid_datetime :: "datetime \<Rightarrow> bool" where
  "valid_datetime t \<longleftrightarrow>
     1 \<le> dt_year t \<and> dt_year t \<le> 9999 \<and> 1 \<le> dt_month t \<and> dt_month t \<le> 12 \<and>
     1 \<le> dt_day t \<and> dt_day t \<le> 31 \<and> dt_hour t < 24 \<and> dt_minute t < 60 \<and> dt_second t < 60"

definition tick :: "world \<Rightarrow> world" where
  "tick w = (case later w of [] \<Rightarrow> w | t # ts \<Rightarrow> w\<lparr>now := t, later := ts\<rparr>)"

definition datetime_now :: "(datetime, world) act" where
  "datetime_now w = (Inr (now w), tick w)"

definition db_call :: "(world \<Rightarrow> 'a \<times> world) \<Rightarrow> ('a, world) act" where
  "db_call f w =
     (case faults w of
        Some e # fs \<Rightarrow> (Inl e, w\<lparr>faults := fs\<rparr>)
      | _ \<Rightarrow> (case f (w\<lparr>faults := tl (faults w)\<rparr>) of (x, w') \<Rightarrow> (Inr x, w')))"

definition get_db_connection :: "(unit, world) act" where
  "get_db_connection = db_call (\<lambda>w. ((), w\<lparr>open_conns := Suc (open_conns w)\<rparr>))"

definition conn_close :: "world \<Rightarrow> world" where
  "conn_close w = w\<lparr>open_conns := open_conns w - 1\<rparr>"

definition select_student_id :: "student_row list \<Rightarrow> string \<Rightarrow> int \<Rightarrow> int option" where
  "select_student_id tbl name class_id =
     map_option s_id (find (\<lambda>r. s_name r = name \<and> s_class_id r = class_id) tbl)"

definition select_attendance_id :: "attendance_row list \<Rightarrow> int \<Rightarrow> string \<Rightarrow> int option" where
  "select_attendance_id tbl student_id today =
     map_option a_id (find (\<lambda>r. a_student_id r = student_id \<and> a_date r = today) tbl)"

definition insert_attendance :: "int \<Rightarrow> int \<Rightarrow> string \<Rightarrow> string \<Rightarrow> string \<Rightarrow> world \<Rightarrow> world" where
  "insert_attendance student_id class_id date time status w =
     w\<lparr>attendance := attendance w @
          [\<lparr>a_id = attendance_seq w, a_student_id = student_id, a_class_id = class_id,
            a_date = date, a_time = time, a_status = status\<rparr>],
       attendance_seq := attendance_seq w + 1\<rparr>"

definition mark_attendance :: "string \<Rightarrow> int \<Rightarrow> (bool, world) act" where
  "mark_attendance name class_id =
     bindE get_db_connection (\<lambda>conn.
       finallyE
         (bindE (db_call (\<lambda>w. (select_student_id (students w) name class_id, w))) (\<lambda>student_id.
            if \<not> py_truthy student_id then returnE False
            else
              bindE datetime_now (\<lambda>t. let today = strftime_date t in
              bindE (db_call (\<lambda>w. (select_attendance_id (attendance w) (the student_id) today, w)))
                (\<lambda>existing.
                if \<not> py_truthy existing then
                  bindE datetime_now (\<lambda>t'. let now = strftime_time t' in
                  bindE (db_call (\<lambda>w. ((), insert_attendance (the student_id) class_id today now
                                             ''Present'' w))) (\<lambda>_.
                  returnE True))
                else returnE False))))
         conn_close)"

section \<open>Specification and invariants\<close>

definition att_key :: "attendance_row \<Rightarrow> int \<times> string" where
  "att_key r = (a_student_id r, a_date r)"

definition ledger_of :: "world \<Rightarrow> (int \<times> string) set" where
  "ledger_of w = set (map att_key (attendance w))"

definition markPresent :: "int option \<Rightarrow> string \<Rightarrow> (int \<times> string) set \<Rightarrow> bool \<times> (int \<times> string) set" where
  "markPresent student_id today L =
     (case student_id of
        None \<Rightarrow> (False, L)
      | Some s \<Rightarrow> if (s, today) \<in> L then (False, L) else (True, insert (s, today) L))"

definition unique_per_day :: "world \<Rightarrow> bool" where
  "unique_per_day w = distinct (map att_key (attendance w))"

definition wf_world :: "world \<Rightarrow> bool" where
  "wf_world w \<longleftrightarrow> list_all (\<lambda>r. 0 < a_id r) (attendance w) \<and> 0 < attendance_seq w"

definition same_day :: "world \<Rightarrow> bool" where
  "same_day w = list_all (\<lambda>t. strftime_date t = strftime_date (now w)) (later w)"

definition steady :: "world \<Rightarrow> bool" where
  "steady w \<longleftrightarrow> wf_world w \<and> faults w = [] \<and> same_day w"

definition settled :: "world \<Rightarrow> string \<Rightarrow> int \<Rightarrow> bool" where
  "settled w name class_id \<longleftrightarrow>
     (case select_student_id (students w) name class_id of
        None \<Rightarrow> True
      | Some sid \<Rightarrow> sid = 0 \<or> (sid, strftime_date (now w)) \<in> ledger_of w)"

definition extends :: "world \<Rightarrow> world \<Rightarrow> bool" where
  "extends w w' \<longleftrightarrow>
     students w' = students w \<and> strftime_date (now w') = strftime_date (now w) \<and>
     ledger_of w \<subseteq> ledger_of w'"

definition present_row :: "int \<Rightarrow> int \<Rightarrow> int \<Rightarrow> string \<Rightarrow> string \<Rightarrow> attendance_row" where
  "present_row i sid cid d t =
     \<lparr>a_id = i, a_student_id = sid, a_class_id = cid, a_date = d, a_time = t,
      a_status = ''Present''\<rparr>"

definition demo_world :: world where
  "demo_world =
     \<lparr>students = [\<lparr>s_id = 7, s_name = ''Asha'', s_class_id = 3, s_classroom = ''10-B'',
                   s_face_embedding_path = ''asha.npy''\<rparr>],
      attendance = [], attendance_seq = 1, open_conns = 0, faults = [],
      now = \<lparr>dt_year = 2024, dt_month = 3, dt_day = 9, dt_hour = 8, dt_minute = 5,
              dt_second = 0\<rparr>,
      later = []\<rparr>"

section \<open>The primitives\<close>

lemmas mark_attendance_unfold =
  mark_attendance_def get_db_connection_def bindE_def finallyE_def db_call_def

lemma faults_update_same [simp]: "faults w = fs \<Longrightarrow> w\<lparr>faults := fs\<rparr> = w"
  by (cases w) simp

lemma db_call_ok [act_simps]:
  "faults w = [] \<Longrightarrow> db_call f w = (Inr (fst (f w)), snd (f w))"
  by (simp add: db_call_def split: prod.splits)

lemma db_call_skip [act_simps]:
  "faults w = None # fs \<Longrightarrow>
   db_call f w = (Inr (fst (f (w\<lparr>faults := fs\<rparr>))), snd (f (w\<lparr>faults := fs\<rparr>)))"
  by (simp add: db_call_def split: prod.splits)

lemma db_call_fault [act_simps]:
  "faults w = Some e # fs \<Longrightarrow> db_call f w = (Inl e, w\<lparr>faults := fs\<rparr>)"
  by (simp add: db_call_def)

lemma tick_fields [simp]:
  "students (tick w) = students w" "attendance (tick w) = attendance w"
  "attendance_seq (tick w) = attendance_seq w" "open_conns (tick w) = open_conns w"
  "faults (tick w) = faults w"
  by (simp_all add: tick_def split: list.splits)

lemma tick_later_Nil [simp]: "later w = [] \<Longrightarrow> tick w = w"
  by (simp add: tick_def)

lemma tick_update [simp]:
  "tick (w\<lparr>open_conns := n\<rparr>) = (tick w)\<lparr>open_conns := n\<rparr>"
  "tick (w\<lparr>faults := fs\<rparr>) = (tick w)\<lparr>faults := fs\<rparr>"
  "now (w\<lparr>open_conns := n\<rparr>) = now w"
  by (simp_all add: tick_def split: list.splits)

lemma insert_attendance_fields [simp]:
  "students (insert_attendance s c d t st w) = students w"
  "faults (insert_attendance s c d t st w) = faults w"
  "now (insert_attendance s c d t st w) = now w"
  "later (insert_attendance s c d t st w) = later w"
  "open_conns (insert_attendance s c d t st w) = open_conns w"
  "attendance (insert_attendance s c d t st w) =
     attendance w @ [\<lparr>a_id = attendance_seq w, a_student_id = s, a_class_id = c,
                      a_date = d, a_time = t, a_status = st\<rparr>]"
  "attendance_seq (insert_attendance s c d t st w) = attendance_seq w + 1"
  by (simp_all add: insert_attendance_def)

lemma att_key_present_row [simp]: "att_key (present_row i sid cid d t) = (sid, d)"
  by (simp add: att_key_def present_row_def)

lemma a_id_present_row [simp]: "a_id (present_row i sid cid d t) = i"
  by (simp add: present_row_def)

section \<open>Queries\<close>

lemma select_attendance_id_None_iff:
  "select_attendance_id tbl sid d = None \<longleftrightarrow> (sid, d) \<notin> set (map att_key tbl)"
  by (auto simp: select_attendance_id_def att_key_def find_None_iff)

lemma py_truthy_select_attendance_id:
  "list_all (\<lambda>r. 0 < a_id r) tbl \<Longrightarrow>
   py_truthy (select_attendance_id tbl sid d) \<longleftrightarrow> (sid, d) \<in> set (map att_key tbl)"
proof -
  assume "list_all (\<lambda>r. 0 < a_id r) tbl"
  then have "list_all (\<lambda>r. a_id r \<noteq> 0) tbl" by (auto simp: list_all_iff)
  then show ?thesis
    unfolding select_attendance_id_def by (auto simp: py_truthy_find att_key_def)
qed

lemma select_student_id_SomeD:
  "select_student_id tbl name cid = Some i \<Longrightarrow>
   \<exists>r\<in>set tbl. s_id r = i \<and> s_name r = name \<and> s_class_id r = cid"
  by (auto simp: select_student_id_def dest: find_SomeD)

lemma select_student_id_None_iff:
  "select_student_id tbl name cid = None \<longleftrightarrow>
   (\<forall>r\<in>set tbl. \<not> (s_name r = name \<and> s_class_id r = cid))"
  by (auto simp: select_student_id_def find_None_iff)

section \<open>Dates as strings\<close>

lemma strftime_date_eval:
  "strftime_date \<lparr>dt_year = 2024, dt_month = 3, dt_day = 9, dt_hour = 8, dt_minute = 5,
     dt_second = 0\<rparr> = ''2024-03-09''"
  by (simp add: strftime_date_def zfill_def str_nat.simps digit_char_def)

lemma strftime_time_eval:
  "strftime_time \<lparr>dt_year = 2024, dt_month = 3, dt_day = 9, dt_hour = 8, dt_minute = 5,
     dt_second = 0\<rparr> = ''08:05:00''"
  by (simp add: strftime_time_def zfill_def str_nat.simps digit_char_def)

lemma strftime_date_inj:
  assumes "valid_datetime a" and "valid_datetime b"
  shows "strftime_date a = strftime_date b \<longleftrightarrow>
         dt_year a = dt_year b \<and> dt_month a = dt_month b \<and> dt_day a = dt_day b"
proof -
  have y: "length (zfill 4 (str_nat (dt_year t))) = 4"
    and m: "length (zfill 2 (str_nat (dt_month t))) = 2" if "valid_datetime t" for t
    using that by (simp_all add: valid_datetime_def length_zfill_str_nat)
  from assms show ?thesis
    by (auto simp: strftime_date_def y m dest: zfill_str_nat_inj)
qed

lemma strftime_lengths:
  assumes "valid_datetime t"
  shows "length (zfill 4 (str_nat (dt_year t))) = 4" "length (zfill 2 (str_nat (dt_month t))) = 2"
    "length (zfill 2 (str_nat (dt_day t))) = 2" "length (zfill 2 (str_nat (dt_hour t))) = 2"
    "length (zfill 2 (str_nat (dt_minute t))) = 2" "length (zfill 2 (str_nat (dt_second t))) = 2"
  using assms by (simp_all add: valid_datetime_def length_zfill_str_nat)

lemma strftime_fields_less:
  assumes "valid_datetime a" and "valid_datetime b"
  shows "zfill 4 (str_nat (dt_year a)) < zfill 4 (str_nat (dt_year b)) \<longleftrightarrow> dt_year a < dt_year b"
    "zfill 2 (str_nat (dt_month a)) < zfill 2 (str_nat (dt_month b)) \<longleftrightarrow> dt_month a < dt_month b"
    "zfill 2 (str_nat (dt_day a)) < zfill 2 (str_nat (dt_day b)) \<longleftrightarrow> dt_day a < dt_day b"
    "zfill 2 (str_nat (dt_hour a)) < zfill 2 (str_nat (dt_hour b)) \<longleftrightarrow> dt_hour a < dt_hour b"
    "zfill 2 (str_nat (dt_minute a)) < zfill 2 (str_nat (dt_minute b)) \<longleftrightarrow> dt_minute a < dt_minute b"
    "zfill 2 (str_nat (dt_second a)) < zfill 2 (str_nat (dt_second b)) \<longleftrightarrow> dt_second a < dt_second b"
  using assms by (simp_all add: valid_datetime_def zfill_str_nat_less_iff)

lemma strftime_date_less_iff:
  assumes "valid_datetime a" and "valid_datetime b"
  shows "strftime_date a < strftime_date b \<longleftrightarrow>
         dt_year a < dt_year b \<or>
         dt_year a = dt_year b \<and>
           (dt_month a < dt_month b \<or> dt_month a = dt_month b \<and> dt_day a < dt_day b)"
  using strftime_lengths [OF assms(1)] strftime_lengths [OF assms(2)]
  by (simp add: strftime_date_def append_less_iff strftime_fields_less [OF assms]
      zfill_str_nat_eq_iff)

lemma strftime_time_less_iff:
  assumes "valid_datetime a" and "valid_datetime b"
  shows "strftime_time a < strftime_time b \<longleftrightarrow>
         dt_hour a < dt_hour b \<or>
         dt_hour a = dt_hour b \<and>
           (dt_minute a < dt_minute b \<or> dt_minute a = dt_minute b \<and> dt_second a < dt_second b)"
  using strftime_lengths [OF assms(1)] strftime_lengths [OF assms(2)]
  by (simp add: strftime_time_def append_less_iff strftime_fields_less [OF assms]
      zfill_str_nat_eq_iff)

lemma strftime_time_inj:
  assumes "valid_datetime a" and "valid_datetime b"
  shows "strftime_time a = strftime_time b \<longleftrightarrow>
         dt_hour a = dt_hour b \<and> dt_minute a = dt_minute b \<and> dt_second a = dt_second b"
  using strftime_lengths [OF assms(1)] strftime_lengths [OF assms(2)]
  by (auto simp: strftime_time_def dest: zfill_str_nat_inj)

lemma same_day_tick:
  "same_day w \<Longrightarrow> same_day (tick w) \<and> strftime_date (now (tick w)) = strftime_date (now w)"
  by (auto simp: same_day_def tick_def split: list.splits)

lemma same_day_insert [simp]: "same_day (insert_attendance s c d t st w) = same_day w"
  by (simp add: same_day_def)

section \<open>Every outcome of marking\<close>

lemma mark_attendance_outcome:
  assumes "mark_attendance name class_id w = (r, w')"
  shows "students w' = students w \<and> open_conns w' = open_conns w \<and>
    ((attendance w' = attendance w \<and> attendance_seq w' = attendance_seq w \<and> r \<noteq> Inr True) \<or>
     (r = Inr True \<and>
      (\<exists>sid d t. select_student_id (students w) name class_id = Some sid \<and> sid \<noteq> 0 \<and>
         \<not> py_truthy (select_attendance_id (attendance w) sid d) \<and>
         attendance w' = attendance w @ [present_row (attendance_seq w) sid class_id d t] \<and>
         attendance_seq w' = attendance_seq w + 1)))"
  using assms
  by (auto simp: mark_attendance_unfold
      datetime_now_def conn_close_def insert_attendance_def Let_def present_row_def py_truthy_def
      split: list.splits option.splits if_splits prod.splits sum.splits)

lemma mark_attendance_Inl_fault:
  "mark_attendance name cid w = (Inl e, w') \<Longrightarrow> Some e \<in> set (faults w)"
  by (auto simp: mark_attendance_unfold
      datetime_now_def Let_def
      split: list.splits option.splits if_splits prod.splits sum.splits)

lemma mark_attendance_open_conns:
  "mark_attendance name cid w = (r, w') \<Longrightarrow> open_conns w' = open_conns w"
  by (simp add: mark_attendance_outcome)

lemma mark_attendance_students:
  "mark_attendance name cid w = (r, w') \<Longrightarrow> students w' = students w"
  by (simp add: mark_attendance_outcome)

lemma mark_attendance_Inl:
  "mark_attendance name cid w = (Inl e, w') \<Longrightarrow> attendance w' = attendance w"
  using mark_attendance_outcome [of name cid w "Inl e" w'] by auto

lemma mark_attendance_append_only:
  "mark_attendance name cid w = (r, w') \<Longrightarrow> \<exists>rows. attendance w' = attendance w @ rows \<and>
     list_all (\<lambda>r. a_status r = ''Present'' \<and> a_class_id r = cid) rows \<and>
     length rows = (if r = Inr True then 1 else 0)"
  using mark_attendance_outcome [of name cid w r w']
  by (auto simp: present_row_def)

lemma mark_attendance_connect_fault:
  "faults w = Some e # fs \<Longrightarrow> mark_attendance name cid w = (Inl e, w\<lparr>faults := fs\<rparr>)"
  by (simp add: mark_attendance_def get_db_connection_def bindE_def db_call_fault)

section \<open>Invariants\<close>

lemma mark_attendance_wf:
  assumes "mark_attendance name class_id w = (r, w')" and "wf_world w"
  shows "wf_world w'"
  using mark_attendance_outcome [OF assms(1)] assms(2)
  by (auto simp: wf_world_def)

lemma mark_attendance_unique:
  assumes "mark_attendance name class_id w = (r, w')" and "wf_world w" and "unique_per_day w"
  shows "unique_per_day w'"
  using mark_attendance_outcome [OF assms(1)] assms(2,3)
  by (auto simp: wf_world_def unique_per_day_def py_truthy_select_attendance_id)

lemma preserves_mark_attendance [preserves_intros]:
  "preserves (\<lambda>w. wf_world w \<and> unique_per_day w) (mark_attendance name class_id)"
  by (rule preservesI) (auto intro: mark_attendance_wf mark_attendance_unique
      simp: prod_eq_iff)

section \<open>Marking without faults\<close>

lemma mark_attendance_no_fault:
  assumes "faults w = []"
  shows "mark_attendance name class_id w =
    (let student_id = select_student_id (students w) name class_id in
     if \<not> py_truthy student_id then (Inr False, w)
     else
       let today = strftime_date (now w); w1 = tick w in
       if py_truthy (select_attendance_id (attendance w) (the student_id) today)
       then (Inr False, w1)
       else (Inr True,
             insert_attendance (the student_id) class_id today (strftime_time (now w1))
               ''Present'' (tick w1)))"
  using assms
  by (simp add: mark_attendance_def get_db_connection_def bindE_def finallyE_def db_call_ok
      datetime_now_def conn_close_def insert_attendance_def Let_def)

lemma mark_attendance_first:
  assumes "wf_world w" and "faults w = []"
    and "select_student_id (students w) name cid = Some sid" and "sid \<noteq> 0"
    and "(sid, strftime_date (now w)) \<notin> ledger_of w"
  shows "mark_attendance name cid w =
     (Inr True, insert_attendance sid cid (strftime_date (now w))
                  (strftime_time (now (tick w))) ''Present'' (tick (tick w)))"
  using assms
  by (simp add: mark_attendance_no_fault Let_def wf_world_def ledger_of_def
      py_truthy_select_attendance_id)

lemma mark_attendance_again:
  assumes "wf_world w" and "faults w = []"
    and "select_student_id (students w) name cid = Some sid" and "sid \<noteq> 0"
    and "(sid, strftime_date (now w)) \<in> ledger_of w"
  shows "mark_attendance name cid w = (Inr False, tick w)"
  using assms
  by (simp add: mark_attendance_no_fault Let_def wf_world_def ledger_of_def
      py_truthy_select_attendance_id)

lemma mark_attendance_unknown:
  assumes "faults w = []" and "\<not> py_truthy (select_student_id (students w) name cid)"
  shows "mark_attendance name cid w = (Inr False, w)"
  using assms by (simp add: mark_attendance_no_fault)

lemma mark_attendance_ledger:
  assumes "wf_world w" and "faults w = []"
    and "select_student_id (students w) name class_id \<noteq> Some 0"
  shows "(case mark_attendance name class_id w of (r, w') \<Rightarrow> (r, ledger_of w')) =
         (case markPresent (select_student_id (students w) name class_id)
                  (strftime_date (now w)) (ledger_of w) of (b, L) \<Rightarrow> (Inr b, L))"
  using assms
  by (cases "select_student_id (students w) name class_id")
     (auto simp: mark_attendance_no_fault markPresent_def Let_def ledger_of_def wf_world_def
       py_truthy_select_attendance_id insert_attendance_def att_key_def)

lemma mark_attendance_twice:
  assumes wf: "wf_world w" and nf: "faults w = []"
    and sid: "select_student_id (students w) name cid = Some sid" "sid \<noteq> 0"
    and fresh: "(sid, strftime_date (now w)) \<notin> ledger_of w"
    and sd: "same_day w"
  shows "\<exists>w1 w2 t. mark_attendance name cid w = (Inr True, w1) \<and>
           mark_attendance name cid w1 = (Inr False, w2) \<and>
           attendance w1 = attendance w @
             [present_row (attendance_seq w) sid cid (strftime_date (now w)) t] \<and>
           attendance w2 = attendance w1"
proof -
  let ?d = "strftime_date (now w)"
  let ?w1 = "insert_attendance sid cid ?d (strftime_time (now (tick w))) ''Present'' (tick (tick w))"
  have 1: "mark_attendance name cid w = (Inr True, ?w1)"
    using wf nf sid fresh by (rule mark_attendance_first)
  then have wf1: "wf_world ?w1" using wf by (rule mark_attendance_wf)
  from sd have d1: "strftime_date (now ?w1) = ?d"
    by (simp add: same_day_tick)
  have "(sid, ?d) \<in> ledger_of ?w1"
    by (simp add: ledger_of_def att_key_def)
  with wf1 nf sid d1 have 2: "mark_attendance name cid ?w1 = (Inr False, tick ?w1)"
    by (intro mark_attendance_again) simp_all
  show ?thesis
    by (intro exI conjI, rule 1, rule 2) (simp_all add: present_row_def)
qed

section \<open>Marking on a steady day\<close>

lemma ledger_of_tick [simp]: "ledger_of (tick w) = ledger_of w"
  by (simp add: ledger_of_def)

lemma ledger_of_insert [simp]:
  "ledger_of (insert_attendance s c d t st w) = insert (s, d) (ledger_of w)"
  by (simp add: ledger_of_def att_key_def)

lemma steady_tick: "steady w \<Longrightarrow> steady (tick w) \<and> strftime_date (now (tick w)) = strftime_date (now w)"
  by (simp add: steady_def same_day_tick wf_world_def)

lemma mark_attendance_steady_outcome:
  assumes "steady w" and "mark_attendance name cid w = (r, w')"
  shows "steady w' \<and> strftime_date (now w') = strftime_date (now w) \<and>
         students w' = students w \<and> ledger_of w \<subseteq> ledger_of w' \<and>
         settled w' name cid \<and> r = Inr (\<not> settled w name cid)"
proof -
  from assms(1) have wf: "wf_world w" and nf: "faults w = []" and sd: "same_day w"
    by (simp_all add: steady_def)
  note t1 = steady_tick [OF assms(1)]
  note t2 = steady_tick [OF t1 [THEN conjunct1]]
  from assms(2) have wf': "wf_world w'" using wf by (rule mark_attendance_wf)
  show ?thesis
  proof (cases "select_student_id (students w) name cid")
    case None
    with assms nf show ?thesis
      by (simp add: mark_attendance_no_fault settled_def)
  next
    case (Some sid)
    consider "sid = 0" | "sid \<noteq> 0" "(sid, strftime_date (now w)) \<in> ledger_of w"
      | "sid \<noteq> 0" "(sid, strftime_date (now w)) \<notin> ledger_of w"
      by blast
    then show ?thesis
    proof cases
      case 1
      with Some nf have "mark_attendance name cid w = (Inr False, w)"
        by (intro mark_attendance_unknown) (simp_all add: py_truthy_def)
      with assms Some 1 show ?thesis by (simp add: settled_def)
    next
      case 2
      with wf nf Some have "mark_attendance name cid w = (Inr False, tick w)"
        by (intro mark_attendance_again)
      with assms(2) Some 2 t1 show ?thesis by (auto simp: settled_def)
    next
      case 3
      with wf nf Some have "mark_attendance name cid w =
          (Inr True, insert_attendance sid cid (strftime_date (now w))
                  (strftime_time (now (tick w))) ''Present'' (tick (tick w)))"
        by (intro mark_attendance_first)
      with assms(2) Some 3 t1 t2 wf' nf show ?thesis
        by (auto simp: settled_def steady_def)
    qed
  qed
qed

lemma mark_attendance_steady:
  assumes "steady w" and "mark_attendance name cid w = (r, w')"
  shows "steady w'" and "strftime_date (now w') = strftime_date (now w)"
    and "students w' = students w" and "ledger_of w \<subseteq> ledger_of w'"
    and "settled w' name cid" and "r = Inr (\<not> settled w name cid)"
  using mark_attendance_steady_outcome [OF assms] by simp_all

lemma extends_refl [simp]: "extends w w"
  by (simp add: extends_def)

lemma extends_trans: "extends w w1 \<Longrightarrow> extends w1 w2 \<Longrightarrow> extends w w2"
  by (auto simp: extends_def)

lemma settled_mono: "settled w name cid \<Longrightarrow> extends w w' \<Longrightarrow> settled w' name cid"
  by (auto simp: settled_def extends_def split: option.splits)

lemma mark_attendance_extends:
  "steady w \<Longrightarrow> mark_attendance name cid w = (r, w') \<Longrightarrow> steady w' \<and> extends w w'"
  by (simp add: extends_def mark_attendance_steady)

lemma mark_attendance_settled:
  "steady w \<Longrightarrow> settled w name cid \<Longrightarrow> \<exists>w'. mark_attendance name cid w = (Inr False, w') \<and>
     attendance w' = attendance w"
  using mark_attendance_steady(6) [of w name cid] mark_attendance_append_only [of name cid w]
  by (cases "mark_attendance name cid w") fastforce

section \<open>A worked example\<close>

lemma demo_world_facts:
  "wf_world demo_world" "unique_per_day demo_world" "faults demo_world = []"
  "select_student_id (students demo_world) ''Asha'' 3 = Some 7"
  "select_student_id (students demo_world) ''Ravi'' 3 = None"
  "ledger_of demo_world = {}" "same_day demo_world" "later demo_world = []"
  "strftime_date (now demo_world) = ''2024-03-09''"
  "strftime_time (now demo_world) = ''08:05:00''"
  by (simp_all add: demo_world_def wf_world_def unique_per_day_def select_student_id_def
      ledger_of_def same_day_def strftime_date_eval strftime_time_eval)

lemma demo_mark:
  "mark_attendance ''Asha'' 3 demo_world =
     (Inr True, demo_world\<lparr>attendance := [present_row 1 7 3 ''2024-03-09'' ''08:05:00''],
                           attendance_seq := 2\<rparr>)"
proof -
  have "mark_attendance ''Asha'' 3 demo_world =
     (Inr True, insert_attendance 7 3 (strftime_date (now demo_world))
                  (strftime_time (now (tick demo_world))) ''Present'' (tick (tick demo_world)))"
    by (rule mark_attendance_first) (simp_all add: demo_world_facts)
  then show ?thesis
    by (simp add: demo_world_facts) (simp add: insert_attendance_def demo_world_def present_row_def)
qed

lemma demo_mark_again:
  "mark_attendance ''Asha'' 3
     (demo_world\<lparr>attendance := [present_row 1 7 3 ''2024-03-09'' ''08:05:00''],
                 attendance_seq := 2\<rparr>) =
   (Inr False, demo_world\<lparr>attendance := [present_row 1 7 3 ''2024-03-09'' ''08:05:00''],
                           attendance_seq := 2\<rparr>)"
proof -
  let ?w = "demo_world\<lparr>attendance := [present_row 1 7 3 ''2024-03-09'' ''08:05:00''],
                 attendance_seq := 2\<rparr>"
  have "mark_attendance ''Asha'' 3 ?w = (Inr False, tick ?w)"
    by (rule mark_attendance_again [where sid = 7])
      (simp_all add: demo_world_def wf_world_def ledger_of_def present_row_def att_key_def
        select_student_id_def strftime_date_eval)
  then show ?thesis by (simp add: tick_def demo_world_def)
qed

lemma demo_world_steady: "steady demo_world"
  by (simp add: steady_def demo_world_facts)

section \<open>Properties\<close>

text \<open>
  C1: Idempotent marking.  With the storage up, a student of the class who has no
  record for today, and a clock that stays on the same day, the first call of
  \<^verbatim>\<open>mark_attendance\<close> returns True and appends one Present row for (student, today);
  a second call returns False and leaves the table as it is.
\<close>

theorem mark_attendance_idempotent:
  assumes "wf_world w" and "faults w = []"
    and "select_student_id (students w) name cid = Some sid" and "sid \<noteq> 0"
    and "(sid, strftime_date (now w)) \<notin> ledger_of w"
    and "same_day w"
  shows "\<exists>w1 w2 t. mark_attendance name cid w = (Inr True, w1) \<and>
           mark_attendance name cid w1 = (Inr False, w2) \<and>
           attendance w1 = attendance w @
             [present_row (attendance_seq w) sid cid (strftime_date (now w)) t] \<and>
           attendance w2 = attendance w1"
  using assms by (rule mark_attendance_twice)

theorem mark_attendance_idempotent_witness:
  "wf_world demo_world \<and> faults demo_world = [] \<and>
   select_student_id (students demo_world) ''Asha'' 3 = Some 7 \<and> (7::int) \<noteq> 0 \<and>
   (7, strftime_date (now demo_world)) \<notin> ledger_of demo_world \<and> same_day demo_world \<and>
   (\<exists>w1 w2 t. mark_attendance ''Asha'' 3 demo_world = (Inr True, w1) \<and>
      mark_attendance ''Asha'' 3 w1 = (Inr False, w2) \<and>
      attendance w1 = attendance demo_world @
        [present_row (attendance_seq demo_world) 7 3 (strftime_date (now demo_world)) t] \<and>
      attendance w2 = attendance w1)"
  using mark_attendance_idempotent [of demo_world "''Asha''" 3 7]
  by (simp add: demo_world_facts)

text \<open>
  C2: Uniqueness is an invariant of marking.  Whatever the storage does (any fault
  list), if the keys of the attendance table are positive and no two rows share
  (student, date) before a call of \<^verbatim>\<open>mark_attendance\<close>, the same holds after it.
\<close>

theorem mark_attendance_preserves_unique:
  assumes "mark_attendance name cid w = (r, w')" and "wf_world w" and "unique_per_day w"
  shows "wf_world w' \<and> unique_per_day w'"
  using assms by (blast intro: mark_attendance_wf mark_attendance_unique)

theorem mark_attendance_preserves_unique_witness:
  "mark_attendance ''Asha'' 3 demo_world =
     (Inr True, demo_world\<lparr>attendance := [present_row 1 7 3 ''2024-03-09'' ''08:05:00''],
                           attendance_seq := 2\<rparr>) \<and>
   wf_world demo_world \<and> unique_per_day demo_world \<and>
   wf_world (demo_world\<lparr>attendance := [present_row 1 7 3 ''2024-03-09'' ''08:05:00''],
                         attendance_seq := 2\<rparr>) \<and>
   unique_per_day (demo_world\<lparr>attendance := [present_row 1 7 3 ''2024-03-09'' ''08:05:00''],
                               attendance_seq := 2\<rparr>)"
  using mark_attendance_preserves_unique [OF demo_mark]
  by (simp add: demo_world_facts demo_mark)

text \<open>
  C6: Refinement of the ledger contract.  With the storage up and no student key 0,
  \<^verbatim>\<open>mark_attendance\<close> acts on the set of (student, date) pairs exactly as the
  contract markPresent does: created is True iff the pair was absent, and then the
  pair is added; otherwise the set is unchanged.
\<close>

theorem mark_attendance_refines_markPresent:
  assumes "wf_world w" and "faults w = []"
    and "select_student_id (students w) name class_id \<noteq> Some 0"
  shows "(case mark_attendance name class_id w of (r, w') \<Rightarrow> (r, ledger_of w')) =
         (case markPresent (select_student_id (students w) name class_id)
                  (strftime_date (now w)) (ledger_of w) of (b, L) \<Rightarrow> (Inr b, L))"
  using assms by (rule mark_attendance_ledger)

theorem mark_attendance_refines_markPresent_witness:
  "wf_world demo_world \<and> faults demo_world = [] \<and>
   select_student_id (students demo_world) ''Asha'' 3 \<noteq> Some 0 \<and>
   (case mark_attendance ''Asha'' 3 demo_world of (r, w') \<Rightarrow> (r, ledger_of w')) =
     (Inr True, {(7, ''2024-03-09'')})"
  using mark_attendance_refines_markPresent [of demo_world "''Asha''" 3]
  by (simp add: demo_world_facts markPresent_def)

text \<open>
  C17: Every connection is released.  On every path of \<^verbatim>\<open>mark_attendance\<close>, the
  early returns and the exceptions included, the number of open connections after
  the call is the number before it.
\<close>

theorem mark_attendance_releases_connection:
  assumes "mark_attendance name cid w = (r, w')"
  shows "open_conns w' = open_conns w"
  using assms by (rule mark_attendance_open_conns)

theorem mark_attendance_releases_connection_witness:
  "mark_attendance ''Asha'' 3 (demo_world\<lparr>faults := [None, Some (PyException ''E'' ''down'')]\<rparr>) =
     (Inl (PyException ''E'' ''down''), demo_world) \<and>
   open_conns demo_world = open_conns (demo_world\<lparr>faults := [None, Some (PyException ''E'' ''down'')]\<rparr>)"
proof -
  have m: "mark_attendance ''Asha'' 3 (demo_world\<lparr>faults := [None, Some (PyException ''E'' ''down'')]\<rparr>) =
     (Inl (PyException ''E'' ''down''), demo_world)"
    by (simp add: mark_attendance_unfold
        conn_close_def demo_world_def)
  from mark_attendance_releases_connection [OF m] m show ?thesis by simp
qed

text \<open>
  The result tells what was written.  A call of \<^verbatim>\<open>mark_attendance\<close> appends
  exactly one row when it returns True and none otherwise (False or an exception);
  an appended row has status Present and the class of the call, and no existing row
  is changed or removed.
\<close>

theorem mark_attendance_created_iff_appended:
  assumes "mark_attendance name cid w = (r, w')"
  shows "\<exists>rows. attendance w' = attendance w @ rows \<and>
           list_all (\<lambda>x. a_status x = ''Present'' \<and> a_class_id x = cid) rows \<and>
           length rows = (if r = Inr True then 1 else 0)"
  using assms by (rule mark_attendance_append_only)

theorem mark_attendance_created_iff_appended_witness:
  "mark_attendance ''Asha'' 3 demo_world =
     (Inr True, demo_world\<lparr>attendance := [present_row 1 7 3 ''2024-03-09'' ''08:05:00''],
                           attendance_seq := 2\<rparr>) \<and>
   (\<exists>rows. [present_row 1 7 3 ''2024-03-09'' ''08:05:00''] = attendance demo_world @ rows \<and>
      length rows = 1)"
  using mark_attendance_created_iff_appended [OF demo_mark]
  by (simp add: demo_mark demo_world_facts) (simp add: demo_world_def)

text \<open>
  A storage failure writes nothing.  When \<^verbatim>\<open>mark_attendance\<close> raises, the
  exception is one the storage raised and the attendance table is unchanged.
\<close>

theorem mark_attendance_failure_writes_nothing:
  assumes "mark_attendance name cid w = (Inl e, w')"
  shows "attendance w' = attendance w \<and> Some e \<in> set (faults w)"
  using assms by (simp add: mark_attendance_Inl mark_attendance_Inl_fault)

theorem mark_attendance_failure_writes_nothing_witness:
  "mark_attendance ''Asha'' 3 (demo_world\<lparr>faults := [Some (PyException ''E'' ''down'')]\<rparr>) =
     (Inl (PyException ''E'' ''down''), demo_world) \<and>
   attendance demo_world = attendance (demo_world\<lparr>faults := [Some (PyException ''E'' ''down'')]\<rparr>)"
proof -
  have m: "mark_attendance ''Asha'' 3 (demo_world\<lparr>faults := [Some (PyException ''E'' ''down'')]\<rparr>) =
     (Inl (PyException ''E'' ''down''), demo_world)"
    by (simp add: mark_attendance_connect_fault) (simp add: demo_world_def)
  from mark_attendance_failure_writes_nothing [OF m] m show ?thesis by simp
qed

text \<open>
  A name that is no student of the class is ignored.  With the storage up, when
  the lookup by (name, class) finds no row, or finds the key 0, \<^verbatim>\<open>mark_attendance\<close>
  returns False and changes nothing.
\<close>

theorem mark_attendance_unknown_student:
  assumes "faults w = []" and "\<not> py_truthy (select_student_id (students w) name cid)"
  shows "mark_attendance name cid w = (Inr False, w)"
  using assms by (rule mark_attendance_unknown)

theorem mark_attendance_unknown_student_witness:
  "faults demo_world = [] \<and> \<not> py_truthy (select_student_id (students demo_world) ''Ravi'' 3) \<and>
   mark_attendance ''Ravi'' 3 demo_world = (Inr False, demo_world)"
  using mark_attendance_unknown_student [of demo_world "''Ravi''" 3]
  by (simp add: demo_world_facts)

text \<open>
  C27: The test \<^verbatim>\<open>if not existing\<close> takes an attendance row whose key is 0 for no
  row: there is a table without duplicates on which a call of \<^verbatim>\<open>mark_attendance\<close>
  returns True and leaves two rows for the same student and day.
\<close>

theorem mark_attendance_key_zero_duplicates:
  "\<exists>w w'. unique_per_day w \<and> faults w = [] \<and>
     mark_attendance ''Asha'' 3 w = (Inr True, w') \<and> \<not> unique_per_day w'"
proof -
  let ?w = "demo_world\<lparr>attendance := [present_row 0 7 3 ''2024-03-09'' ''08:00:00'']\<rparr>"
  have "mark_attendance ''Asha'' 3 ?w =
      (Inr True, insert_attendance 7 3 ''2024-03-09'' ''08:05:00'' ''Present'' ?w)"
    by (simp add: mark_attendance_no_fault demo_world_facts select_student_id_def
        select_attendance_id_def present_row_def Let_def)
       (simp add: demo_world_def select_student_id_def strftime_date_eval strftime_time_eval)
  moreover have "unique_per_day ?w" "faults ?w = []"
    "\<not> unique_per_day (insert_attendance 7 3 ''2024-03-09'' ''08:05:00'' ''Present'' ?w)"
    by (simp_all add: unique_per_day_def demo_world_facts att_key_def present_row_def)
  ultimately show ?thesis by blast
qed

text \<open>
  The rendering of the date that keys the attendance rows is injective on
  calendar days: two valid clock readings give the same \<^verbatim>\<open>%Y-%m-%d\<close> string exactly
  when they agree on year, month and day.
\<close>

theorem strftime_date_injective:
  assumes "valid_datetime a" and "valid_datetime b"
  shows "strftime_date a = strftime_date b \<longleftrightarrow>
         dt_year a = dt_year b \<and> dt_month a = dt_month b \<and> dt_day a = dt_day b"
  using assms by (rule strftime_date_inj)

theorem strftime_date_injective_witness:
  "valid_datetime (now demo_world) \<and>
   valid_datetime ((now demo_world)\<lparr>dt_hour := 23\<rparr>) \<and>
   strftime_date (now demo_world) = strftime_date ((now demo_world)\<lparr>dt_hour := 23\<rparr>)"
proof -
  have v: "valid_datetime (now demo_world)" "valid_datetime ((now demo_world)\<lparr>dt_hour := 23\<rparr>)"
    by (simp_all add: valid_datetime_def demo_world_def)
  from strftime_date_injective [OF v] v show ?thesis by simp
qed

end
