(* ===== verification/Recognition.thy ===== *)
theory Recognition
  imports Face_Match Coordinates Ledger "HOL-Library.Sublist"
begin

text \<open>
  The request pipeline, \<^verbatim>\<open>recognize_faces_in_image\<close> (lines 127-179): decode the image,
  run the detector, and for every detected face reconcile the box, match the
  embedding, and mark the matched student present.

  The three library calls whose results the code only passes on are a record
  \<open>collab\<close> of functions: \<open>b64decode\<close> (line 130; it may raise), \<open>imdecode\<close> (lines
  131-132; \<open>None\<close> for bytes that are no image) and \<open>get_faces\<close> (lines 138-139: the
  resize to 640x640 followed by the detector).  A \<open>frame\<close> is the decoded image reduced
  to what the code reads of it, its \<^verbatim>\<open>shape\<close>; a \<open>face\<close> has the three attributes of a
  detection that the program reads.

  \<open>process_face\<close> is one iteration of the loop of lines 148-174 on the two
  accumulators \<^verbatim>\<open>recognized_faces\<close> and \<^verbatim>\<open>attendance_marked\<close>; \<open>process_faces\<close> is the
  loop; \<open>recognize_faces_in_image\<close> is the function with its \<^verbatim>\<open>try\<close>/\<^verbatim>\<open>except\<close>, the
  handler turning every exception into status 500.  \<open>matched_faces\<close> is the
  specification of the first output: the accepted matches of the detected faces, in
  order.

  Proved here: the output refines \<open>matched_faces\<close>; the names marked are a
  subsequence of the names recognised and count the rows appended; the ledger's
  invariant, the students table and the connection count are preserved by every
  request; every failure is a status 500, the undecodable image included; reported
  confidences lie in (0.5, 1]; a storage failure in the middle of a frame loses the
  response but keeps the rows already written; a request whose image decodes and whose
  embeddings have the dimension of the index returns a result when the storage
  does not fail (\<open>recognize_well_shaped\<close>).
\<close>

section \<open>Definitions\<close>

record face =
  bbox :: fbox
  embedding :: vec
  det_score :: real

record frame =
  height :: nat
  width :: nat

record collab =
  b64decode :: "string \<Rightarrow> exn + nat list"
  imdecode :: "nat list \<Rightarrow> frame option"
  get_faces :: "frame \<Rightarrow> exn + face list"

record recognized_face =
  rf_name :: string
  rf_confidence :: real
  rf_bbox :: ibox

record recognition_result =
  recognized_faces :: "recognized_face list"
  attendance_marked :: "string list"

definition process_face ::
  "service \<Rightarrow> nat \<times> nat \<Rightarrow> int \<Rightarrow> face \<Rightarrow> recognized_face list \<times> string list \<Rightarrow>
   (recognized_face list \<times> string list, world) act" where
  "process_face svc shape class_id fc acc =
     (case acc of (recognized, marked_names) \<Rightarrow>
      let box = reconcile_bbox shape (bbox fc) in
      bindE (liftE (match_face svc (embedding fc))) (\<lambda>m.
        case m of
          None \<Rightarrow> returnE (recognized, marked_names)
        | Some (name, D) \<Rightarrow>
            let recognized' = recognized @ [\<lparr>rf_name = name, rf_confidence = D, rf_bbox = box\<rparr>] in
            bindE (mark_attendance name class_id) (\<lambda>marked.
              returnE (recognized', if marked then marked_names @ [name] else marked_names))))"

fun process_faces ::
  "service \<Rightarrow> nat \<times> nat \<Rightarrow> int \<Rightarrow> face list \<Rightarrow> recognized_face list \<times> string list \<Rightarrow>
   (recognized_face list \<times> string list, world) act" where
  "process_faces svc shape class_id [] acc = returnE acc"
| "process_faces svc shape class_id (fc # fcs) acc =
     bindE (process_face svc shape class_id fc acc) (process_faces svc shape class_id fcs)"

definition recognize_faces_in_image ::
  "collab \<Rightarrow> service \<Rightarrow> string \<Rightarrow> int \<Rightarrow> (recognition_result, world) act" where
  "recognize_faces_in_image ext svc image_base64 class_id =
     catchE
       (bindE (liftE (b64decode ext image_base64)) (\<lambda>image_data.
          case imdecode ext image_data of
            None \<Rightarrow> raiseE (HTTPException 400 ''Invalid image data'')
          | Some fr \<Rightarrow>
              bindE (liftE (get_faces ext fr)) (\<lambda>faces.
              let shape = (height fr, width fr) in
              bindE (process_faces svc shape class_id faces ([], [])) (\<lambda>acc.
              returnE \<lparr>recognized_faces = fst acc, attendance_marked = snd acc\<rparr>))))
       (\<lambda>e. raiseE (HTTPException 500 (''Recognition failed: '' @ exn_str e)))"

definition matched_face :: "service \<Rightarrow> nat \<times> nat \<Rightarrow> face \<Rightarrow> recognized_face option" where
  "matched_face svc shape fc =
     (case match_face svc (embedding fc) of
        Inr (Some (name, D)) \<Rightarrow>
          Some \<lparr>rf_name = name, rf_confidence = D, rf_bbox = reconcile_bbox shape (bbox fc)\<rparr>
      | _ \<Rightarrow> None)"

definition matched_faces :: "service \<Rightarrow> nat \<times> nat \<Rightarrow> face list \<Rightarrow> recognized_face list" where
  "matched_faces svc shape fcs = List.map_filter (matched_face svc shape) fcs"

definition demo_service :: service where
  "demo_service =
     \<lparr>index = \<lparr>ix_dim = 2, ix_rows = [Arr [1, 0], Arr [0, 1]]\<rparr>, labels = [''Asha'', ''Ravi'']\<rparr>"

definition demo_faces :: "face list" where
  "demo_faces =
     [\<lparr>bbox = (0, 0, 640, 640), embedding = [4, 3], det_score = 0.9\<rparr>,
      \<lparr>bbox = (100.7, 50.2, 300.9, 200.5), embedding = [-1, 0], det_score = 0.8\<rparr>]"

definition demo_ext :: collab where
  "demo_ext =
     \<lparr>b64decode = (\<lambda>s. if s = ''aGk='' then Inr [104, 105]
                       else if s = ''!'' then Inl (PyException ''binascii.Error'' ''Incorrect padding'')
                       else Inr []),
      imdecode = (\<lambda>bs. if bs = [104, 105] then Some \<lparr>height = 960, width = 1280\<rparr> else None),
      get_faces = (\<lambda>fr. Inr demo_faces)\<rparr>"

definition demo_twin_ext :: collab where
  "demo_twin_ext = demo_ext\<lparr>get_faces := \<lambda>fr. Inr (demo_faces @ demo_faces)\<rparr>"

section \<open>One face\<close>

lemmas recognize_unfold =
  recognize_faces_in_image_def catchE_def bindE_def liftE_def raiseE_def

lemma process_face_cases:
  "process_face svc shape cid fc (rs, ms) w =
     (case match_face svc (embedding fc) of
        Inl e \<Rightarrow> (Inl e, w)
      | Inr None \<Rightarrow> (Inr (rs, ms), w)
      | Inr (Some (name, D)) \<Rightarrow>
          (case mark_attendance name cid w of
             (Inl e, w') \<Rightarrow> (Inl e, w')
           | (Inr b, w') \<Rightarrow>
               (Inr (rs @ [\<lparr>rf_name = name, rf_confidence = D,
                            rf_bbox = reconcile_bbox shape (bbox fc)\<rparr>],
                     if b then ms @ [name] else ms), w')))"
  by (auto simp: process_face_def bindE_def liftE_def Let_def
      split: sum.splits option.splits prod.splits)

lemma process_face_Inr:
  assumes "process_face svc shape cid fc (rs, ms) w = (Inr (rs', ms'), w')"
  shows "rs' = rs @ (case matched_face svc shape fc of None \<Rightarrow> [] | Some r \<Rightarrow> [r])"
    and "\<exists>r. match_face svc (embedding fc) = Inr r"
    and "\<exists>ns. ms' = ms @ ns \<and> subseq ns (map rf_name (case matched_face svc shape fc of None \<Rightarrow> [] | Some r \<Rightarrow> [r])) \<and>
           (\<exists>rows. attendance w' = attendance w @ rows \<and> length rows = length ns)"
  using assms
  by (auto simp: process_face_cases matched_face_def
      split: sum.splits option.splits prod.splits if_splits
      dest: mark_attendance_append_only)


section \<open>The loop over the detected faces\<close>

lemma matched_faces_simps [simp]:
  "matched_faces svc shape [] = []"
  "matched_faces svc shape (fc # fcs) =
     (case matched_face svc shape fc of None \<Rightarrow> [] | Some r \<Rightarrow> [r]) @ matched_faces svc shape fcs"
  by (simp_all add: matched_faces_def map_filter_simps split: option.splits)

lemma matched_faces_append [simp]:
  "matched_faces svc shape (xs @ ys) = matched_faces svc shape xs @ matched_faces svc shape ys"
  by (induction xs) simp_all

lemma process_faces_Inr:
  "process_faces svc shape cid fcs (rs, ms) w = (Inr (rs', ms'), w') \<Longrightarrow>
     rs' = rs @ matched_faces svc shape fcs \<and>
     (\<exists>ns rows. ms' = ms @ ns \<and> subseq ns (map rf_name (matched_faces svc shape fcs)) \<and>
        attendance w' = attendance w @ rows \<and> length rows = length ns)"
proof (induction fcs arbitrary: rs ms w)
  case Nil
  then show ?case by (simp add: returnE_def)
next
  case (Cons fc fcs)
  from Cons.prems obtain rs1 ms1 w1
    where one: "process_face svc shape cid fc (rs, ms) w = (Inr (rs1, ms1), w1)"
      and rest: "process_faces svc shape cid fcs (rs1, ms1) w1 = (Inr (rs', ms'), w')"
    by (auto dest!: bindE_InrD)
  from process_face_Inr [OF one] Cons.IH [OF rest] show ?case
    by (auto intro: list_emb_append_mono)
qed

lemma process_face_append_only:
  "process_face svc shape cid fc acc w = (r, w') \<Longrightarrow>
     \<exists>rows. attendance w' = attendance w @ rows \<and>
       list_all (\<lambda>r. a_status r = ''Present'' \<and> a_class_id r = cid) rows"
  by (cases acc)
    (auto simp: process_face_cases split: sum.splits option.splits prod.splits if_splits
      dest!: mark_attendance_append_only)

lemma process_faces_append_only:
  "process_faces svc shape cid fcs acc w = (r, w') \<Longrightarrow>
     \<exists>rows. attendance w' = attendance w @ rows \<and>
       list_all (\<lambda>r. a_status r = ''Present'' \<and> a_class_id r = cid) rows"
proof (induction fcs arbitrary: acc w)
  case Nil
  then show ?case by (auto simp: returnE_def)
next
  case (Cons fc fcs)
  from Cons.prems show ?case
    by (fastforce dest!: bindE_cases process_face_append_only Cons.IH)
qed


lemma preserves_process_face [preserves_intros]:
  "preserves (\<lambda>w. wf_world w \<and> unique_per_day w) (process_face svc shape cid fc acc)"
  unfolding process_face_def by (intro preserves_intros)

lemma preserves_process_faces [preserves_intros]:
  "preserves (\<lambda>w. wf_world w \<and> unique_per_day w) (process_faces svc shape cid fcs acc)"
  by (induction fcs arbitrary: acc) (auto intro: preserves_intros)

lemma process_faces_frame:
  "process_faces svc shape cid fcs acc w = (r, w') \<Longrightarrow>
     open_conns w' = open_conns w \<and> students w' = students w"
proof (induction fcs arbitrary: acc w)
  case Nil
  then show ?case by (auto simp: returnE_def)
next
  case (Cons fc fcs)
  have one: "open_conns w1 = open_conns w \<and> students w1 = students w"
    if "process_face svc shape cid fc acc w = (r1, w1)" for r1 w1
    using that
    by (cases acc)
      (auto simp: process_face_cases split: sum.splits option.splits prod.splits if_splits
        dest: mark_attendance_open_conns mark_attendance_students)
  from Cons.prems show ?case
    by (fastforce dest!: bindE_cases one Cons.IH)
qed

section \<open>The matched faces\<close>

lemma match_face_Nil: "match_face svc [] \<noteq> Inr (Some (name, D))"
  by (auto simp: match_face_cases scan_rows_eq_Some_iff best_match_def normalize_embedding_def
      split: option.splits ndarray.splits elim!: inner_product.elims)

lemma matched_face_SomeD:
  assumes "matched_face svc shape fc = Some r"
  shows "match_face svc (embedding fc) = Inr (Some (rf_name r, rf_confidence r))"
    and "rf_bbox r = reconcile_bbox shape (bbox fc)"
  using assms by (auto simp: matched_face_def split: sum.splits option.splits)

lemma matched_face_bounds:
  assumes "matched_face svc shape fc = Some r" and "wf_service svc"
  shows "1 / 2 < rf_confidence r" and "rf_confidence r \<le> 1" and "rf_name r \<in> set (labels svc)"
proof -
  note m = matched_face_SomeD(1) [OF assms(1)]
  from match_face_SomeD [OF m] show "1 / 2 < rf_confidence r" "rf_name r \<in> set (labels svc)"
    by auto
  from m have "embedding fc \<noteq> []" using match_face_Nil by metis
  with m assms(2) show "rf_confidence r \<le> 1" by (rule match_face_le_1)
qed

lemma set_matched_faces:
  "r \<in> set (matched_faces svc shape fcs) \<longleftrightarrow> (\<exists>fc \<in> set fcs. matched_face svc shape fc = Some r)"
  by (induction fcs) (auto split: option.splits)

lemma length_matched_faces: "length (matched_faces svc shape fcs) \<le> length fcs"
  by (induction fcs) (auto split: option.splits)

section \<open>The whole request\<close>

lemma exn_str_invalid_image:
  "exn_str (HTTPException 400 ''Invalid image data'') = ''400: Invalid image data''"
  by (simp add: exn_str_def str_nat.simps digit_char_def)

lemma recognize_b64_error:
  "b64decode ext s = Inl e \<Longrightarrow>
   recognize_faces_in_image ext svc s cid w =
     (Inl (HTTPException 500 (''Recognition failed: '' @ exn_str e)), w)"
  by (simp add: recognize_unfold)

lemma recognize_invalid_image:
  "b64decode ext s = Inr bs \<Longrightarrow> imdecode ext bs = None \<Longrightarrow>
   recognize_faces_in_image ext svc s cid w =
     (Inl (HTTPException 500 ''Recognition failed: 400: Invalid image data''), w)"
  using exn_str_invalid_image
  by (simp add: recognize_unfold)

lemma recognize_loop:
  "b64decode ext s = Inr bs \<Longrightarrow> imdecode ext bs = Some fr \<Longrightarrow> get_faces ext fr = Inr fcs \<Longrightarrow>
   recognize_faces_in_image ext svc s cid w =
     (case process_faces svc (height fr, width fr) cid fcs ([], []) w of
        (Inl e, w') \<Rightarrow> (Inl (HTTPException 500 (''Recognition failed: '' @ exn_str e)), w')
      | (Inr acc, w') \<Rightarrow> (Inr \<lparr>recognized_faces = fst acc, attendance_marked = snd acc\<rparr>, w'))"
  by (simp add: recognize_unfold returnE_def
      Let_def split: prod.splits sum.splits)

lemma recognize_Inl:
  "recognize_faces_in_image ext svc s cid w = (Inl e, w') \<Longrightarrow>
     \<exists>m. e = HTTPException 500 (''Recognition failed: '' @ m)"
  by (auto simp: recognize_faces_in_image_def catchE_def raiseE_def split: prod.splits sum.splits)

lemma recognize_InrD:
  assumes "recognize_faces_in_image ext svc s cid w = (Inr res, w')"
  shows "\<exists>bs fr fcs. b64decode ext s = Inr bs \<and> imdecode ext bs = Some fr \<and>
           get_faces ext fr = Inr fcs \<and>
           process_faces svc (height fr, width fr) cid fcs ([], []) w =
             (Inr (recognized_faces res, attendance_marked res), w')"
  using assms
  by (auto simp: recognize_unfold
      returnE_def Let_def split: prod.splits sum.splits option.splits)

lemma preserves_recognize [preserves_intros]:
  "preserves (\<lambda>w. wf_world w \<and> unique_per_day w) (recognize_faces_in_image ext svc s cid)"
  unfolding recognize_faces_in_image_def by (intro preserves_intros)

lemma recognize_append_only:
  assumes "recognize_faces_in_image ext svc s cid w = (r, w')"
  shows "\<exists>rows. attendance w' = attendance w @ rows \<and>
           list_all (\<lambda>r. a_status r = ''Present'' \<and> a_class_id r = cid) rows"
    and "open_conns w' = open_conns w" and "students w' = students w"
proof -
  show "\<exists>rows. attendance w' = attendance w @ rows \<and>
           list_all (\<lambda>r. a_status r = ''Present'' \<and> a_class_id r = cid) rows"
    using assms
    by (auto simp: recognize_unfold
      returnE_def Let_def split: prod.splits sum.splits option.splits
      dest: process_faces_append_only)
  show "open_conns w' = open_conns w" "students w' = students w"
    using assms
    by (auto simp: recognize_unfold
      returnE_def Let_def split: prod.splits sum.splits option.splits
      dest: process_faces_frame)
qed


lemma recognize_matched:
  assumes "recognize_faces_in_image ext svc s cid w = (Inr res, w')"
    and "r \<in> set (recognized_faces res)"
  shows "\<exists>e. match_face svc e = Inr (Some (rf_name r, rf_confidence r))"
proof -
  from recognize_InrD [OF assms(1)] obtain fr :: frame and fcs
    where "process_faces svc (height fr, width fr) cid fcs ([], []) w =
             (Inr (recognized_faces res, attendance_marked res), w')"
    by auto
  from process_faces_Inr [OF this] assms(2) obtain fc
    where "matched_face svc (height fr, width fr) fc = Some r"
    by (auto simp: set_matched_faces)
  from matched_face_SomeD(1) [OF this] show ?thesis ..
qed

lemma recognize_bounds:
  assumes "recognize_faces_in_image ext svc s cid w = (Inr res, w')" and "wf_service svc"
    and "r \<in> set (recognized_faces res)"
  shows "threshold < rf_confidence r \<and> rf_confidence r \<le> 1 \<and> rf_name r \<in> set (labels svc)"
proof -
  from recognize_InrD [OF assms(1)] obtain fr :: frame and fcs
    where "process_faces svc (height fr, width fr) cid fcs ([], []) w =
             (Inr (recognized_faces res, attendance_marked res), w')"
    by auto
  from process_faces_Inr [OF this] assms(3) obtain fc
    where "matched_face svc (height fr, width fr) fc = Some r"
    by (auto simp: set_matched_faces)
  from matched_face_bounds [OF this assms(2)] show ?thesis by (simp add: threshold_def)
qed

section \<open>A frame on a steady day\<close>

lemma process_face_steady:
  assumes "steady w" and "process_face svc shape cid fc (rs, ms) w = (r, w')"
  shows "steady w' \<and> extends w w'"
    and "matched_face svc shape fc = Some x \<Longrightarrow> settled w' (rf_name x) cid"
    and "r = Inr (rs', ms') \<Longrightarrow> distinct ms \<Longrightarrow> \<forall>n \<in> set ms. settled w n cid \<Longrightarrow>
           distinct ms' \<and> (\<forall>n \<in> set ms'. settled w' n cid)"
proof -
  show "steady w' \<and> extends w w'"
    using assms
    by (auto simp: process_face_cases split: sum.splits option.splits prod.splits if_splits
        dest: mark_attendance_extends)
  then have ext: "extends w w'" ..
  show "settled w' (rf_name x) cid" if "matched_face svc shape fc = Some x"
    using assms that
    by (auto simp: process_face_cases matched_face_def
        split: sum.splits option.splits prod.splits if_splits
        dest: mark_attendance_steady(5))
  show "distinct ms' \<and> (\<forall>n \<in> set ms'. settled w' n cid)"
    if "r = Inr (rs', ms')" "distinct ms" "\<forall>n \<in> set ms. settled w n cid"
    using assms that settled_mono [OF _ ext]
    by (auto simp: process_face_cases split: sum.splits option.splits prod.splits if_splits
        dest: mark_attendance_steady(5,6))
qed

lemma process_faces_steady:
  assumes "steady w" and "process_faces svc shape cid fcs (rs, ms) w = (Inr (rs', ms'), w')"
    and "distinct ms" and "\<forall>n \<in> set ms. settled w n cid"
  shows "steady w' \<and> extends w w' \<and> distinct ms' \<and> (\<forall>n \<in> set ms'. settled w' n cid) \<and>
         (\<forall>x \<in> set (matched_faces svc shape fcs). settled w' (rf_name x) cid) \<and>
         (\<forall>fc \<in> set fcs. \<exists>m. match_face svc (embedding fc) = Inr m)"
  using assms
proof (induction fcs arbitrary: rs ms w)
  case Nil
  then show ?case by (simp add: returnE_def)
next
  case (Cons fc fcs)
  from Cons.prems(2) obtain rs1 ms1 w1
    where one: "process_face svc shape cid fc (rs, ms) w = (Inr (rs1, ms1), w1)"
      and rest: "process_faces svc shape cid fcs (rs1, ms1) w1 = (Inr (rs', ms'), w')"
    by (auto dest!: bindE_InrD)
  note s1 = process_face_steady [OF Cons.prems(1) one]
  from s1(3) [OF refl Cons.prems(3,4)] have d1: "distinct ms1" "\<forall>n \<in> set ms1. settled w1 n cid"
    by simp_all
  note ih = Cons.IH [OF s1(1) [THEN conjunct1] rest d1]
  from ih s1(1) have "extends w w'" by (blast intro: extends_trans)
  moreover have "settled w' (rf_name x) cid" if "matched_face svc shape fc = Some x" for x
    using s1(2) [OF that] ih by (blast intro: settled_mono)
  with ih have "\<forall>x \<in> set (matched_faces svc shape (fc # fcs)). settled w' (rf_name x) cid"
    by (fastforce split: option.splits)
  moreover from process_face_Inr(2) [OF one] ih
  have "\<forall>fc \<in> set (fc # fcs). \<exists>m. match_face svc (embedding fc) = Inr m" by simp
  ultimately show ?case using ih by simp
qed

lemma process_face_settled:
  assumes "steady w" and "match_face svc (embedding fc) = Inr m"
    and "\<forall>x. matched_face svc shape fc = Some x \<longrightarrow> settled w (rf_name x) cid"
  shows "\<exists>w1. process_face svc shape cid fc (rs, ms) w =
          (Inr (rs @ (case matched_face svc shape fc of None \<Rightarrow> [] | Some r \<Rightarrow> [r]), ms), w1) \<and>
        attendance w1 = attendance w \<and> steady w1 \<and> extends w w1"
proof (cases m)
  case None
  with assms(1,2) show ?thesis by (simp add: process_face_cases matched_face_def)
next
  case (Some p)
  obtain name D where p: "p = (name, D)" by (cases p)
  with Some assms(2,3) have "settled w name cid" by (simp add: matched_face_def)
  from mark_attendance_settled [OF assms(1) this] obtain w1
    where w1: "mark_attendance name cid w = (Inr False, w1)" "attendance w1 = attendance w"
    by blast
  with mark_attendance_extends [OF assms(1) w1(1)] Some p assms(2) show ?thesis
    by (simp add: process_face_cases matched_face_def)
qed

lemma process_faces_settled:
  assumes "steady w" and "\<forall>x \<in> set (matched_faces svc shape fcs). settled w (rf_name x) cid"
    and "\<forall>fc \<in> set fcs. \<exists>m. match_face svc (embedding fc) = Inr m"
  shows "\<exists>w'. process_faces svc shape cid fcs (rs, ms) w =
            (Inr (rs @ matched_faces svc shape fcs, ms), w') \<and>
          attendance w' = attendance w"
  using assms
proof (induction fcs arbitrary: rs w)
  case Nil
  then show ?case by (simp add: returnE_def)
next
  case (Cons fc fcs)
  let ?one = "case matched_face svc shape fc of None \<Rightarrow> [] | Some r \<Rightarrow> [r]"
  from Cons.prems(3) obtain m where m: "match_face svc (embedding fc) = Inr m" by auto
  from Cons.prems(2) have "\<forall>x. matched_face svc shape fc = Some x \<longrightarrow> settled w (rf_name x) cid"
    by simp
  from process_face_settled [OF Cons.prems(1) m this, of rs ms] obtain w1
    where one: "process_face svc shape cid fc (rs, ms) w = (Inr (rs @ ?one, ms), w1)"
      and w1: "attendance w1 = attendance w" "steady w1" "extends w w1"
    by blast
  from Cons.prems(2) w1(3)
  have "\<forall>x \<in> set (matched_faces svc shape fcs). settled w1 (rf_name x) cid"
    by (auto intro: settled_mono)
  moreover from Cons.prems(3) have "\<forall>fc \<in> set fcs. \<exists>m. match_face svc (embedding fc) = Inr m"
    by simp
  ultimately obtain w'
    where "process_faces svc shape cid fcs (rs @ ?one, ms) w1 =
           (Inr ((rs @ ?one) @ matched_faces svc shape fcs, ms), w')"
      and "attendance w' = attendance w1"
    using Cons.IH [OF w1(2)] by blast
  with one w1(1) show ?case by (simp add: bindE_def)
qed

section \<open>Frames of the right shape\<close>

lemma process_face_well_shaped:
  assumes "wf_service svc" and "steady w" and "length (embedding fc) = ix_dim (index svc)"
  shows "\<exists>acc' w'. process_face svc shape cid fc acc w = (Inr acc', w') \<and> steady w'"
proof -
  obtain rs ms where acc: "acc = (rs, ms)" by (cases acc)
  from match_face_Inr [OF assms(1,3)] obtain m where m: "match_face svc (embedding fc) = Inr m" ..
  show ?thesis
  proof (cases m)
    case None
    with m acc assms(2) show ?thesis by (simp add: process_face_cases)
  next
    case (Some p)
    obtain name D where p: "p = (name, D)" by (cases p)
    obtain r w1 where mk: "mark_attendance name cid w = (r, w1)"
      by (cases "mark_attendance name cid w")
    from mark_attendance_steady(1,6) [OF assms(2) mk] m Some p acc mk show ?thesis
      by (simp add: process_face_cases)
  qed
qed

lemma process_faces_well_shaped:
  assumes "wf_service svc" and "steady w"
    and "\<forall>fc \<in> set fcs. length (embedding fc) = ix_dim (index svc)"
  shows "\<exists>acc' w'. process_faces svc shape cid fcs acc w = (Inr acc', w') \<and> steady w'"
  using assms(2,3)
proof (induction fcs arbitrary: acc w)
  case Nil
  then show ?case by (simp add: returnE_def)
next
  case (Cons fc fcs)
  from process_face_well_shaped [OF assms(1) Cons.prems(1), of fc shape cid acc] Cons.prems(2)
  obtain acc1 w1 where one: "process_face svc shape cid fc acc w = (Inr acc1, w1)" "steady w1"
    by auto
  from Cons.IH [OF one(2), of acc1] Cons.prems(2) one(1) show ?case by (simp add: bindE_def)
qed

section \<open>A worked request\<close>

lemma demo_service_wf: "wf_service demo_service"
  by (simp add: demo_service_def wf_service_def wf_index_def normalized_index_def
      normalized_row_def unit_vec_def)

lemma demo_match:
  "match_face demo_service [4, 3] = Inr (Some (''Asha'', 4 / 5))"
  "match_face demo_service [-1, 0] = Inr None"
  by (simp_all add: demo_service_def match_face_cases normalize_embedding_def linalg_norm_def)

lemma demo_matched_faces:
  "matched_faces demo_service (960, 1280) demo_faces =
     [\<lparr>rf_name = ''Asha'', rf_confidence = 4 / 5, rf_bbox = (0, 0, 1280, 960)\<rparr>]"
  by (simp add: demo_faces_def matched_face_def demo_match reconcile_eval)

lemma demo_ext_facts:
  "b64decode demo_ext ''aGk='' = Inr [104, 105]"
  "b64decode demo_ext ''!'' = Inl (PyException ''binascii.Error'' ''Incorrect padding'')"
  "b64decode demo_ext ''AA=='' = Inr []"
  "imdecode demo_ext [104, 105] = Some \<lparr>height = 960, width = 1280\<rparr>"
  "imdecode demo_ext [] = None"
  "get_faces demo_ext fr = Inr demo_faces"
  by (simp_all add: demo_ext_def)

lemma demo_twin_ext_facts:
  "b64decode demo_twin_ext ''aGk='' = Inr [104, 105]"
  "imdecode demo_twin_ext [104, 105] = Some \<lparr>height = 960, width = 1280\<rparr>"
  "get_faces demo_twin_ext \<lparr>height = 960, width = 1280\<rparr> = Inr (demo_faces @ demo_faces)"
  by (simp_all add: demo_twin_ext_def demo_ext_def)

lemma demo_twin_loop:
  "process_faces demo_service (960, 1280) 3 (demo_faces @ demo_faces) ([], []) demo_world =
     (Inr ([\<lparr>rf_name = ''Asha'', rf_confidence = 4 / 5, rf_bbox = (0, 0, 1280, 960)\<rparr>,
            \<lparr>rf_name = ''Asha'', rf_confidence = 4 / 5, rf_bbox = (0, 0, 1280, 960)\<rparr>],
           [''Asha'']),
      demo_world\<lparr>attendance := [present_row 1 7 3 ''2024-03-09'' ''08:05:00''],
                 attendance_seq := 2\<rparr>)"
  by (simp add: demo_faces_def process_face_cases demo_match demo_mark demo_mark_again
      bindE_def returnE_def reconcile_eval)

lemma demo_twin_recognize:
  "recognize_faces_in_image demo_twin_ext demo_service ''aGk='' 3 demo_world =
     (Inr \<lparr>recognized_faces =
             [\<lparr>rf_name = ''Asha'', rf_confidence = 4 / 5, rf_bbox = (0, 0, 1280, 960)\<rparr>,
              \<lparr>rf_name = ''Asha'', rf_confidence = 4 / 5, rf_bbox = (0, 0, 1280, 960)\<rparr>],
           attendance_marked = [''Asha'']\<rparr>,
      demo_world\<lparr>attendance := [present_row 1 7 3 ''2024-03-09'' ''08:05:00''],
                 attendance_seq := 2\<rparr>)"
  by (simp add: recognize_loop [OF demo_twin_ext_facts] demo_twin_loop)

lemma demo_recognize:
  "recognize_faces_in_image demo_ext demo_service ''aGk='' 3 demo_world =
     (Inr \<lparr>recognized_faces =
             [\<lparr>rf_name = ''Asha'', rf_confidence = 4 / 5, rf_bbox = (0, 0, 1280, 960)\<rparr>],
           attendance_marked = [''Asha'']\<rparr>,
      demo_world\<lparr>attendance := [present_row 1 7 3 ''2024-03-09'' ''08:05:00''],
                 attendance_seq := 2\<rparr>)"
  by (simp add: recognize_loop [OF demo_ext_facts(1) demo_ext_facts(4) demo_ext_facts(6)]
      demo_faces_def process_face_cases demo_match demo_mark bindE_def returnE_def
      reconcile_eval)


section \<open>Properties\<close>

text \<open>
  C3: The reported faces are a function of the detector's output alone.  When a
  request succeeds, the image was decoded, the detector returned a list of faces,
  and \<^verbatim>\<open>recognized_faces\<close> is exactly the list of accepted matches of those faces, in
  the detector's order, each with its box reconciled to the frame's size;
  \<^verbatim>\<open>attendance_marked\<close> is a subsequence of the recognised names, and the table grew
  by exactly one row for each name in it.
\<close>

theorem recognize_refines_matched_faces:
  assumes "recognize_faces_in_image ext svc s cid w = (Inr res, w')"
  shows "\<exists>bs fr fcs. b64decode ext s = Inr bs \<and> imdecode ext bs = Some fr \<and>
           get_faces ext fr = Inr fcs \<and>
           recognized_faces res = matched_faces svc (height fr, width fr) fcs \<and>
           subseq (attendance_marked res) (map rf_name (recognized_faces res)) \<and>
           (\<exists>rows. attendance w' = attendance w @ rows \<and>
                   length rows = length (attendance_marked res))"
proof -
  from recognize_InrD [OF assms] obtain bs fr fcs
    where ext: "b64decode ext s = Inr bs" "imdecode ext bs = Some fr" "get_faces ext fr = Inr fcs"
      and loop: "process_faces svc (height fr, width fr) cid fcs ([], []) w =
             (Inr (recognized_faces res, attendance_marked res), w')"
    by blast
  from process_faces_Inr [OF loop] ext show ?thesis by auto
qed

theorem recognize_refines_matched_faces_witness:
  "recognize_faces_in_image demo_ext demo_service ''aGk='' 3 demo_world =
     (Inr \<lparr>recognized_faces =
             [\<lparr>rf_name = ''Asha'', rf_confidence = 4 / 5, rf_bbox = (0, 0, 1280, 960)\<rparr>],
           attendance_marked = [''Asha'']\<rparr>,
      demo_world\<lparr>attendance := [present_row 1 7 3 ''2024-03-09'' ''08:05:00''],
                 attendance_seq := 2\<rparr>) \<and>
   matched_faces demo_service (960, 1280) demo_faces =
     [\<lparr>rf_name = ''Asha'', rf_confidence = 4 / 5, rf_bbox = (0, 0, 1280, 960)\<rparr>]"
  using recognize_refines_matched_faces [OF demo_recognize] demo_recognize
  by (simp add: demo_ext_facts)

text \<open>
  C25: An image that cannot be decoded does not produce the client error 400 that
  line 135 raises: the \<^verbatim>\<open>raise\<close> is inside the \<^verbatim>\<open>try\<close> block, the handler of line 178
  catches it, and the caller receives status 500 with the detail
  "Recognition failed: 400: Invalid image data".  The storage is not touched.
\<close>

theorem recognize_invalid_image_is_500:
  assumes "b64decode ext s = Inr bs" and "imdecode ext bs = None"
  shows "recognize_faces_in_image ext svc s cid w =
     (Inl (HTTPException 500 ''Recognition failed: 400: Invalid image data''), w)"
  using assms by (rule recognize_invalid_image)

theorem recognize_invalid_image_is_500_witness:
  "b64decode demo_ext ''AA=='' = Inr [] \<and> imdecode demo_ext [] = None \<and>
   recognize_faces_in_image demo_ext demo_service ''AA=='' 3 demo_world =
     (Inl (HTTPException 500 ''Recognition failed: 400: Invalid image data''), demo_world)"
  using recognize_invalid_image_is_500 [OF demo_ext_facts(3) demo_ext_facts(5)]
  by (simp add: demo_ext_facts)

text \<open>
  C38: Every failure of a request leaves \<^verbatim>\<open>recognize_faces_in_image\<close> as an
  HTTPException with status 500 whose detail starts with "Recognition failed: ".
\<close>

theorem recognize_errors_are_500:
  assumes "recognize_faces_in_image ext svc s cid w = (Inl e, w')"
  shows "\<exists>m. e = HTTPException 500 (''Recognition failed: '' @ m)"
  using assms by (rule recognize_Inl)

theorem recognize_errors_are_500_witness:
  "recognize_faces_in_image demo_ext demo_service ''!'' 3 demo_world =
     (Inl (HTTPException 500 ''Recognition failed: Incorrect padding''), demo_world) \<and>
   (\<exists>m. HTTPException 500 ''Recognition failed: Incorrect padding'' =
         HTTPException 500 (''Recognition failed: '' @ m))"
proof -
  have r: "recognize_faces_in_image demo_ext demo_service ''!'' 3 demo_world =
     (Inl (HTTPException 500 ''Recognition failed: Incorrect padding''), demo_world)"
    by (simp add: recognize_b64_error [OF demo_ext_facts(2)] exn_str_def)
  from recognize_errors_are_500 [OF r] r show ?thesis by simp
qed

text \<open>
  A request keeps the ledger's invariant: from a world whose attendance keys
  are positive and whose (student, date) pairs are pairwise distinct, the world after
  \<^verbatim>\<open>recognize_faces_in_image\<close> - whatever the image, the detector's answer and the
  storage faults are, and whether the request succeeds or fails - has the same two
  properties.
\<close>

theorem recognize_preserves_unique:
  assumes "wf_world w" and "unique_per_day w"
  shows "wf_world (snd (recognize_faces_in_image ext svc s cid w)) \<and>
         unique_per_day (snd (recognize_faces_in_image ext svc s cid w))"
  using preserves_recognize [of ext svc s cid] assms by (simp add: preserves_def)

theorem recognize_preserves_unique_witness:
  "wf_world demo_world \<and> unique_per_day demo_world \<and>
   wf_world (snd (recognize_faces_in_image demo_ext demo_service ''aGk='' 3 demo_world)) \<and>
   unique_per_day (snd (recognize_faces_in_image demo_ext demo_service ''aGk='' 3 demo_world))"
  using recognize_preserves_unique [of demo_world demo_ext demo_service "''aGk=''" 3]
  by (simp add: demo_world_facts)

text \<open>
  On a well-formed service every reported face has a confidence in the interval
  (0.5, 1] and a name that is one of the enrolled labels.
\<close>

theorem recognize_confidence_bounds:
  assumes "recognize_faces_in_image ext svc s cid w = (Inr res, w')" and "wf_service svc"
    and "r \<in> set (recognized_faces res)"
  shows "threshold < rf_confidence r \<and> rf_confidence r \<le> 1 \<and> rf_name r \<in> set (labels svc)"
  using assms by (rule recognize_bounds)

theorem recognize_confidence_bounds_witness:
  "recognize_faces_in_image demo_ext demo_service ''aGk='' 3 demo_world =
     (Inr \<lparr>recognized_faces =
             [\<lparr>rf_name = ''Asha'', rf_confidence = 4 / 5, rf_bbox = (0, 0, 1280, 960)\<rparr>],
           attendance_marked = [''Asha'']\<rparr>,
      demo_world\<lparr>attendance := [present_row 1 7 3 ''2024-03-09'' ''08:05:00''],
                 attendance_seq := 2\<rparr>) \<and>
   wf_service demo_service \<and> threshold < 4 / 5 \<and> (4 / 5 :: real) \<le> 1 \<and>
   ''Asha'' \<in> set (labels demo_service)"
  using recognize_confidence_bounds [OF demo_recognize demo_service_wf,
      of "\<lparr>rf_name = ''Asha'', rf_confidence = 4 / 5, rf_bbox = (0, 0, 1280, 960)\<rparr>"]
    demo_recognize demo_service_wf
  by simp


text \<open>
  Whatever happens, a request only appends rows to the attendance table, each
  one a Present row of the requested class; it leaves the students table alone and
  closes every connection that it opened.
\<close>

theorem recognize_append_only_rows:
  assumes "recognize_faces_in_image ext svc s cid w = (r, w')"
  shows "(\<exists>rows. attendance w' = attendance w @ rows \<and>
            list_all (\<lambda>r. a_status r = ''Present'' \<and> a_class_id r = cid) rows) \<and>
         students w' = students w \<and> open_conns w' = open_conns w"
  using recognize_append_only [OF assms] by simp

theorem recognize_append_only_rows_witness:
  "recognize_faces_in_image demo_ext demo_service ''aGk='' 3 demo_world =
     (Inr \<lparr>recognized_faces =
             [\<lparr>rf_name = ''Asha'', rf_confidence = 4 / 5, rf_bbox = (0, 0, 1280, 960)\<rparr>],
           attendance_marked = [''Asha'']\<rparr>,
      demo_world\<lparr>attendance := [present_row 1 7 3 ''2024-03-09'' ''08:05:00''],
                 attendance_seq := 2\<rparr>) \<and>
   (\<exists>rows. [present_row 1 7 3 ''2024-03-09'' ''08:05:00''] = attendance demo_world @ rows \<and>
      list_all (\<lambda>r. a_status r = ''Present'' \<and> a_class_id r = 3) rows)"
  using recognize_append_only_rows [OF demo_recognize] demo_recognize by simp


text \<open>
  A frame in which the detector finds no face is answered with two empty lists;
  the storage is not contacted.
\<close>

theorem recognize_no_faces:
  assumes "b64decode ext s = Inr bs" and "imdecode ext bs = Some fr" and "get_faces ext fr = Inr []"
  shows "recognize_faces_in_image ext svc s cid w =
           (Inr \<lparr>recognized_faces = [], attendance_marked = []\<rparr>, w)"
  using assms by (simp add: recognize_loop returnE_def)

theorem recognize_no_faces_witness:
  "recognize_faces_in_image (demo_ext\<lparr>get_faces := \<lambda>fr. Inr []\<rparr>) demo_service ''aGk='' 3
     demo_world = (Inr \<lparr>recognized_faces = [], attendance_marked = []\<rparr>, demo_world)"
  using recognize_no_faces [of "demo_ext\<lparr>get_faces := \<lambda>fr. Inr []\<rparr>" "''aGk=''" "[104, 105]"
      "\<lparr>height = 960, width = 1280\<rparr>" demo_service 3 demo_world]
  by (simp add: demo_ext_def)


text \<open>
  C19: Idempotence of a request.  With the storage up and the clock staying on one
  day, a frame that was answered successfully and is submitted again is answered
  with the same recognised faces and an empty \<^verbatim>\<open>attendance_marked\<close>, and the second
  request writes no row.
\<close>

theorem recognize_same_frame_again:
  assumes "steady w" and "recognize_faces_in_image ext svc s cid w = (Inr res, w1)"
  shows "\<exists>w2. recognize_faces_in_image ext svc s cid w1 =
                (Inr \<lparr>recognized_faces = recognized_faces res, attendance_marked = []\<rparr>, w2) \<and>
              attendance w2 = attendance w1"
proof -
  from recognize_InrD [OF assms(2)] obtain bs and fr :: frame and fcs
    where ext: "b64decode ext s = Inr bs" "imdecode ext bs = Some fr" "get_faces ext fr = Inr fcs"
      and loop: "process_faces svc (height fr, width fr) cid fcs ([], []) w =
             (Inr (recognized_faces res, attendance_marked res), w1)"
    by auto
  from process_faces_steady [OF assms(1) loop] have "steady w1"
    and "\<forall>x \<in> set (matched_faces svc (height fr, width fr) fcs). settled w1 (rf_name x) cid"
    and "\<forall>fc \<in> set fcs. \<exists>m. match_face svc (embedding fc) = Inr m"
    by simp_all
  from process_faces_settled [OF this, of "[]" "[]"] process_faces_Inr [OF loop]
  show ?thesis by (auto simp: recognize_loop [OF ext])
qed

theorem recognize_same_frame_again_witness:
  "steady demo_world \<and>
   (\<exists>w2. recognize_faces_in_image demo_ext demo_service ''aGk='' 3
            (demo_world\<lparr>attendance := [present_row 1 7 3 ''2024-03-09'' ''08:05:00''],
                        attendance_seq := 2\<rparr>) =
          (Inr \<lparr>recognized_faces =
                  [\<lparr>rf_name = ''Asha'', rf_confidence = 4 / 5, rf_bbox = (0, 0, 1280, 960)\<rparr>],
                attendance_marked = []\<rparr>, w2) \<and>
          attendance w2 = [present_row 1 7 3 ''2024-03-09'' ''08:05:00''])"
  using recognize_same_frame_again [OF demo_world_steady demo_recognize] demo_world_steady
  by simp

text \<open>
  C33: No student is marked twice by one frame.  With the storage up and the clock
  staying on one day, the names in \<^verbatim>\<open>attendance_marked\<close> of a successful request are
  pairwise distinct, however many faces of the frame match the same student.
\<close>

theorem recognize_marks_each_student_once:
  assumes "steady w" and "recognize_faces_in_image ext svc s cid w = (Inr res, w')"
  shows "distinct (attendance_marked res)"
proof -
  from recognize_InrD [OF assms(2)] obtain fr :: frame and fcs
    where "process_faces svc (height fr, width fr) cid fcs ([], []) w =
             (Inr (recognized_faces res, attendance_marked res), w')"
    by auto
  from process_faces_steady [OF assms(1) this] show ?thesis by simp
qed

theorem recognize_marks_each_student_once_witness:
  "steady demo_world \<and>
   recognize_faces_in_image demo_twin_ext demo_service ''aGk='' 3 demo_world =
     (Inr \<lparr>recognized_faces =
             [\<lparr>rf_name = ''Asha'', rf_confidence = 4 / 5, rf_bbox = (0, 0, 1280, 960)\<rparr>,
              \<lparr>rf_name = ''Asha'', rf_confidence = 4 / 5, rf_bbox = (0, 0, 1280, 960)\<rparr>],
           attendance_marked = [''Asha'']\<rparr>,
      demo_world\<lparr>attendance := [present_row 1 7 3 ''2024-03-09'' ''08:05:00''],
                 attendance_seq := 2\<rparr>) \<and>
   distinct [''Asha'']"
  using recognize_marks_each_student_once [OF demo_world_steady demo_twin_recognize]
    demo_world_steady demo_twin_recognize
  by simp

text \<open>
  C16: Well-shaped requests do not go wrong.  When the labels and the index of the
  service fit together, the image decodes, the detector answers, and every
  embedding has the dimension of the index, then on a steady day no step of
  \<^verbatim>\<open>recognize_faces_in_image\<close> raises - not the search of the index, not the lookup
  of the label, not the storage - and the request returns a result.
\<close>

theorem recognize_well_shaped:
  assumes "wf_service svc" and "steady w"
    and "b64decode ext image_base64 = Inr image_data"
    and "imdecode ext image_data = Some fr" and "get_faces ext fr = Inr fcs"
    and "\<forall>fc \<in> set fcs. length (embedding fc) = ix_dim (index svc)"
  shows "\<exists>res w'. recognize_faces_in_image ext svc image_base64 class_id w = (Inr res, w') \<and>
           steady w'"
  using process_faces_well_shaped [OF assms(1,2,6), of "(height fr, width fr)" class_id "([], [])"]
  by (auto simp: recognize_loop [OF assms(3-5)])

theorem recognize_well_shaped_witness:
  "wf_service demo_service \<and> steady demo_world \<and>
   list_all (\<lambda>fc. length (embedding fc) = ix_dim (index demo_service)) demo_faces \<and>
   (\<exists>res w'. recognize_faces_in_image demo_ext demo_service ''aGk='' 3 demo_world = (Inr res, w') \<and>
      steady w')"
proof -
  have d: "\<forall>fc \<in> set demo_faces. length (embedding fc) = ix_dim (index demo_service)"
    by (simp add: demo_faces_def demo_service_def)
  from recognize_well_shaped [OF demo_service_wf demo_world_steady demo_ext_facts(1,4,6) d] d
  show ?thesis by (simp add: demo_service_wf demo_world_steady list_all_iff)
qed

end
