(* ===== verification/Api.thy ===== *)
theory Api
  imports Ledger "HOL-Library.Product_Lexorder" "HOL-Library.Multiset"
begin

text \<open>
  The read and maintenance endpoints, lines 187-233: \<^verbatim>\<open>get_attendance\<close>,
  \<^verbatim>\<open>get_students\<close>, \<^verbatim>\<open>clear_attendance\<close> and \<^verbatim>\<open>health_check\<close>.

  \<open>AttendanceRecord\<close> is the response model declared in lines 79-85; no handler
  uses it, and the entries that \<^verbatim>\<open>get_attendance\<close> returns (\<open>attendance_view\<close>) have its
  fields but for \<^verbatim>\<open>student_id\<close>.

  Each handler opens a connection, runs one SQL statement and closes the connection
  in a \<^verbatim>\<open>finally\<close> clause.  The statements are modelled by their meaning on the two
  tables of \<open>world\<close>: \<open>join_attendance\<close> is the inner join of line 194, the filters are
  the \<^verbatim>\<open>WHERE\<close> clauses, and \<^verbatim>\<open>ORDER BY a.date DESC, a.time DESC\<close> is a descending sort
  on the pair (date, time), strings compared lexicographically.  SQL leaves the
  order of rows with equal keys open; the model fixes one, and the lemmas about
  \<open>select_attendance\<close> speak of sortedness and of the multiset of rows only, so they
  hold of every admissible answer.

  Proved here: the read endpoints change neither table; \<^verbatim>\<open>get_attendance\<close> returns
  the joined rows of the class, sorted; the sort key on the stored strings orders
  entries as their clock readings (\<open>chrono\<close>) are ordered; \<^verbatim>\<open>clear_attendance\<close> removes the rows of
  the class and no other row, and keeps the ledger's invariant; every handler
  releases its connection on every path.
\<close>

section \<open>Definitions\<close>

record AttendanceRecord =
  ar_student_id :: int
  ar_name :: string
  ar_classroom :: string
  ar_date :: string
  ar_time :: string
  ar_status :: string

record attendance_view =
  v_name :: string
  v_classroom :: string
  v_date :: string
  v_time :: string
  v_status :: string

record student_view =
  sv_id :: int
  sv_name :: string
  sv_classroom :: string
  sv_face_embedding_path :: string

record status_message =
  sm_status :: string
  sm_message :: string

record health_status =
  h_status :: string
  h_service :: string

definition str_int :: "int \<Rightarrow> string" where
  "str_int i = (if i < 0 then ''-'' @ str_nat (nat (- i)) else str_nat (nat i))"

definition join_attendance ::
  "student_row list \<Rightarrow> attendance_row list \<Rightarrow> (attendance_row \<times> student_row) list" where
  "join_attendance ss as =
     concat (map (\<lambda>a. map (Pair a) (filter (\<lambda>s. a_student_id a = s_id s) ss)) as)"

definition attendance_view_of :: "attendance_row \<times> student_row \<Rightarrow> attendance_view" where
  "attendance_view_of p =
     (case p of (a, s) \<Rightarrow>
        \<lparr>v_name = s_name s, v_classroom = s_classroom s, v_date = a_date a, v_time = a_time a,
         v_status = a_status a\<rparr>)"

definition order_key :: "attendance_view \<Rightarrow> string \<times> string" where
  "order_key v = (v_date v, v_time v)"

definition select_attendance :: "world \<Rightarrow> int \<Rightarrow> attendance_view list" where
  "select_attendance w class_id =
     rev (sort_key order_key
       (map attendance_view_of
          (filter (\<lambda>p. a_class_id (fst p) = class_id)
             (join_attendance (students w) (attendance w)))))"

definition select_students :: "world \<Rightarrow> int \<Rightarrow> student_view list" where
  "select_students w class_id =
     map (\<lambda>s. \<lparr>sv_id = s_id s, sv_name = s_name s, sv_classroom = s_classroom s,
                sv_face_embedding_path = s_face_embedding_path s\<rparr>)
       (filter (\<lambda>s. s_class_id s = class_id) (students w))"

definition delete_attendance :: "int \<Rightarrow> world \<Rightarrow> world" where
  "delete_attendance class_id w =
     w\<lparr>attendance := filter (\<lambda>a. a_class_id a \<noteq> class_id) (attendance w)\<rparr>"

definition get_attendance :: "int \<Rightarrow> (attendance_view list, world) act" where
  "get_attendance class_id =
     bindE get_db_connection (\<lambda>conn.
       finallyE
         (bindE (db_call (\<lambda>w. (select_attendance w class_id, w))) (\<lambda>records.
            returnE records))
         conn_close)"

definition get_students :: "int \<Rightarrow> (student_view list, world) act" where
  "get_students class_id =
     bindE get_db_connection (\<lambda>conn.
       finallyE
         (bindE (db_call (\<lambda>w. (select_students w class_id, w))) (\<lambda>students.
            returnE students))
         conn_close)"

definition clear_attendance :: "int \<Rightarrow> (status_message, world) act" where
  "clear_attendance class_id =
     bindE get_db_connection (\<lambda>conn.
       finallyE
         (bindE (db_call (\<lambda>w. ((), delete_attendance class_id w))) (\<lambda>_.
            returnE \<lparr>sm_status = ''success'',
                     sm_message = ''Attendance cleared for class '' @ str_int class_id\<rparr>))
         conn_close)"

definition health_check :: "(health_status, world) act" where
  "health_check = returnE \<lparr>h_status = ''healthy'', h_service = ''face-recognition''\<rparr>"

definition chrono :: "datetime \<Rightarrow> (nat \<times> nat \<times> nat) \<times> (nat \<times> nat \<times> nat)" where
  "chrono t = ((dt_year t, dt_month t, dt_day t), (dt_hour t, dt_minute t, dt_second t))"

definition demo_register :: world where
  "demo_register =
     demo_world
       \<lparr>students :=
          [\<lparr>s_id = 7, s_name = ''Asha'', s_class_id = 3, s_classroom = ''10-B'',
            s_face_embedding_path = ''asha.npy''\<rparr>,
           \<lparr>s_id = 8, s_name = ''Ravi'', s_class_id = 3, s_classroom = ''10-B'',
            s_face_embedding_path = ''ravi.npy''\<rparr>,
           \<lparr>s_id = 9, s_name = ''Meera'', s_class_id = 4, s_classroom = ''9-A'',
            s_face_embedding_path = ''meera.npy''\<rparr>],
        attendance :=
          [present_row 1 7 3 ''2024-03-08'' ''09:00:00'',
           present_row 2 8 3 ''2024-03-08'' ''09:00:02'',
           present_row 3 9 4 ''2024-03-09'' ''08:00:00'',
           present_row 4 8 3 ''2024-03-09'' ''08:01:00''],
        attendance_seq := 5\<rparr>"

section \<open>One statement between connect and close\<close>

lemma open_conns_update_same [simp]: "w\<lparr>open_conns := open_conns w\<rparr> = w"
  by (cases w) simp

lemma faults_open_conns_commute:
  "w\<lparr>faults := f, open_conns := n\<rparr> = w\<lparr>open_conns := n, faults := f\<rparr>"
  by (cases w) simp

lemma connect_query_close:
  "bindE get_db_connection (\<lambda>conn. finallyE (bindE (db_call q) returnE) conn_close) w =
     (case faults w of
        Some e # fs \<Rightarrow> (Inl e, w\<lparr>faults := fs\<rparr>)
      | None # Some e # fs \<Rightarrow> (Inl e, w\<lparr>faults := fs\<rparr>)
      | _ \<Rightarrow> (case q (w\<lparr>open_conns := Suc (open_conns w), faults := tl (tl (faults w))\<rparr>) of
                (x, w') \<Rightarrow> (Inr x, conn_close w')))"
  by (auto simp: get_db_connection_def bindE_def finallyE_def db_call_def returnE_def
      conn_close_def faults_open_conns_commute split: list.splits option.splits prod.splits)


section \<open>The queries read only the two tables\<close>

lemma select_attendance_update [simp]:
  "select_attendance (w\<lparr>faults := f\<rparr>) c = select_attendance w c"
  "select_attendance (w\<lparr>open_conns := n\<rparr>) c = select_attendance w c"
  by (simp_all add: select_attendance_def)

lemma select_students_update [simp]:
  "select_students (w\<lparr>faults := f\<rparr>) c = select_students w c"
  "select_students (w\<lparr>open_conns := n\<rparr>) c = select_students w c"
  "select_students (w\<lparr>attendance := a\<rparr>) c = select_students w c"
  by (simp_all add: select_students_def)

lemma join_attendance_filter:
  "join_attendance ss (filter P as) = filter (\<lambda>p. P (fst p)) (join_attendance ss as)"
  by (induction as) (simp_all add: join_attendance_def filter_map o_def)

lemma join_attendance_append [simp]:
  "join_attendance ss (as @ bs) = join_attendance ss as @ join_attendance ss bs"
  by (simp add: join_attendance_def)

lemma select_attendance_sorted:
  "sorted_wrt (\<lambda>x y. order_key y \<le> order_key x) (select_attendance w c)"
proof -
  have "sorted (map order_key (rev (select_attendance w c)))"
    by (simp add: select_attendance_def)
  then have "sorted_wrt (\<lambda>x y. order_key x \<le> order_key y) (rev (select_attendance w c))"
    by (simp add: sorted_wrt_map)
  then show ?thesis by (simp add: sorted_wrt_rev)
qed

lemma mset_select_attendance:
  "mset (select_attendance w c) =
     mset (map attendance_view_of
       (filter (\<lambda>p. a_class_id (fst p) = c) (join_attendance (students w) (attendance w))))"
  by (simp add: select_attendance_def)

lemma select_attendance_delete_same [simp]:
  "select_attendance (delete_attendance c w) c = []"
  by (simp add: select_attendance_def delete_attendance_def join_attendance_filter)

lemma select_attendance_delete_other:
  "c' \<noteq> c \<Longrightarrow> select_attendance (delete_attendance c w) c' = select_attendance w c'"
proof -
  assume "c' \<noteq> c"
  then have "(\<lambda>p. a_class_id (fst p) \<noteq> c \<and> a_class_id (fst p) = c') =
      (\<lambda>p :: attendance_row \<times> student_row. a_class_id (fst p) = c')"
    by auto
  then show ?thesis
    by (simp add: select_attendance_def delete_attendance_def join_attendance_filter)
qed

section \<open>Outcomes of the handlers\<close>

lemma get_attendance_outcome:
  "get_attendance c w =
     (case faults w of
        Some e # fs \<Rightarrow> (Inl e, w\<lparr>faults := fs\<rparr>)
      | None # Some e # fs \<Rightarrow> (Inl e, w\<lparr>faults := fs\<rparr>)
      | _ \<Rightarrow> (Inr (select_attendance w c), w\<lparr>faults := tl (tl (faults w))\<rparr>))"
  unfolding get_attendance_def connect_query_close
  by (simp add: conn_close_def faults_open_conns_commute split: list.splits option.splits)

lemma get_students_outcome:
  "get_students c w =
     (case faults w of
        Some e # fs \<Rightarrow> (Inl e, w\<lparr>faults := fs\<rparr>)
      | None # Some e # fs \<Rightarrow> (Inl e, w\<lparr>faults := fs\<rparr>)
      | _ \<Rightarrow> (Inr (select_students w c), w\<lparr>faults := tl (tl (faults w))\<rparr>))"
  unfolding get_students_def connect_query_close
  by (simp add: conn_close_def faults_open_conns_commute split: list.splits option.splits)

lemma clear_attendance_outcome:
  "clear_attendance c w =
     (case faults w of
        Some e # fs \<Rightarrow> (Inl e, w\<lparr>faults := fs\<rparr>)
      | None # Some e # fs \<Rightarrow> (Inl e, w\<lparr>faults := fs\<rparr>)
      | _ \<Rightarrow> (Inr \<lparr>sm_status = ''success'',
                    sm_message = ''Attendance cleared for class '' @ str_int c\<rparr>,
              delete_attendance c (w\<lparr>faults := tl (tl (faults w))\<rparr>)))"
  by (auto simp: clear_attendance_def get_db_connection_def bindE_def finallyE_def db_call_def
      returnE_def conn_close_def delete_attendance_def faults_open_conns_commute
      split: list.splits option.splits prod.splits)


section \<open>The ledger's invariant\<close>

lemma delete_attendance_fields [simp]:
  "students (delete_attendance c w) = students w"
  "attendance (delete_attendance c w) = filter (\<lambda>a. a_class_id a \<noteq> c) (attendance w)"
  "attendance_seq (delete_attendance c w) = attendance_seq w"
  "open_conns (delete_attendance c w) = open_conns w"
  "faults (delete_attendance c w) = faults w"
  by (simp_all add: delete_attendance_def)

lemma invariant_faults_update [simp]:
  "wf_world (w\<lparr>faults := f\<rparr>) = wf_world w"
  "unique_per_day (w\<lparr>faults := f\<rparr>) = unique_per_day w"
  by (simp_all add: wf_world_def unique_per_day_def)

lemma delete_attendance_invariant:
  "wf_world w \<Longrightarrow> wf_world (delete_attendance c w)"
  "unique_per_day w \<Longrightarrow> unique_per_day (delete_attendance c w)"
  by (simp_all add: wf_world_def unique_per_day_def list_all_iff distinct_map_filter)

lemma preserves_get_attendance [preserves_intros]:
  "preserves (\<lambda>w. wf_world w \<and> unique_per_day w) (get_attendance c)"
  by (rule preservesI)
    (simp add: get_attendance_outcome split: list.splits option.splits)

lemma preserves_get_students [preserves_intros]:
  "preserves (\<lambda>w. wf_world w \<and> unique_per_day w) (get_students c)"
  by (rule preservesI)
    (simp add: get_students_outcome split: list.splits option.splits)

lemma preserves_clear_attendance [preserves_intros]:
  "preserves (\<lambda>w. wf_world w \<and> unique_per_day w) (clear_attendance c)"
  by (rule preservesI)
    (simp add: clear_attendance_outcome delete_attendance_invariant
      split: list.splits option.splits)

lemma preserves_health_check [preserves_intros]: "preserves I health_check"
  by (simp add: health_check_def preserves_returnE)

section \<open>A record just written is listed\<close>

lemma join_attendance_member:
  "(a, s) \<in> set (join_attendance ss as) \<longleftrightarrow> a \<in> set as \<and> s \<in> set ss \<and> a_student_id a = s_id s"
  by (auto simp: join_attendance_def)

lemma set_select_attendance:
  "set (select_attendance w c) =
     attendance_view_of ` {(a, s). a \<in> set (attendance w) \<and> s \<in> set (students w) \<and>
        a_student_id a = s_id s \<and> a_class_id a = c}"
  by (auto simp: select_attendance_def join_attendance_member intro!: image_eqI)

section \<open>A worked register\<close>

lemma demo_register_facts:
  "wf_world demo_register" "unique_per_day demo_register" "faults demo_register = []"
  "open_conns demo_register = 0"
  by (simp_all add: demo_register_def demo_world_def wf_world_def unique_per_day_def
      present_row_def att_key_def)

lemma demo_select_attendance:
  "select_attendance demo_register 3 =
     [\<lparr>v_name = ''Ravi'', v_classroom = ''10-B'', v_date = ''2024-03-09'', v_time = ''08:01:00'',
       v_status = ''Present''\<rparr>,
      \<lparr>v_name = ''Ravi'', v_classroom = ''10-B'', v_date = ''2024-03-08'', v_time = ''09:00:02'',
       v_status = ''Present''\<rparr>,
      \<lparr>v_name = ''Asha'', v_classroom = ''10-B'', v_date = ''2024-03-08'', v_time = ''09:00:00'',
       v_status = ''Present''\<rparr>]"
  by (simp add: select_attendance_def demo_register_def demo_world_def join_attendance_def
      present_row_def attendance_view_of_def order_key_def less_eq_prod_def less_char_def
      less_eq_char_def)


lemma demo_get_attendance:
  "get_attendance 3 demo_register = (Inr (select_attendance demo_register 3), demo_register)"
  by (simp add: get_attendance_outcome demo_register_facts)

section \<open>Properties\<close>

text \<open>
  C24: \<^verbatim>\<open>get_attendance\<close> is a read: a successful call leaves both tables and the
  connection count as they were, and returns the joined attendance rows of the class
  - each row of the class once for every student row with its student key - ordered
  by date and time, latest first.
\<close>

theorem get_attendance_sorted_join:
  assumes "get_attendance c w = (Inr vs, w')"
  shows "students w' = students w \<and> attendance w' = attendance w \<and>
         open_conns w' = open_conns w \<and>
         sorted_wrt (\<lambda>x y. order_key y \<le> order_key x) vs \<and>
         mset vs = mset (map attendance_view_of
           (filter (\<lambda>p. a_class_id (fst p) = c) (join_attendance (students w) (attendance w))))"
  using assms select_attendance_sorted [of w c] mset_select_attendance [of w c]
  by (auto simp: get_attendance_outcome split: list.splits option.splits)

theorem get_attendance_sorted_join_witness:
  "get_attendance 3 demo_register =
     (Inr [\<lparr>v_name = ''Ravi'', v_classroom = ''10-B'', v_date = ''2024-03-09'',
            v_time = ''08:01:00'', v_status = ''Present''\<rparr>,
           \<lparr>v_name = ''Ravi'', v_classroom = ''10-B'', v_date = ''2024-03-08'',
            v_time = ''09:00:02'', v_status = ''Present''\<rparr>,
           \<lparr>v_name = ''Asha'', v_classroom = ''10-B'', v_date = ''2024-03-08'',
            v_time = ''09:00:00'', v_status = ''Present''\<rparr>], demo_register) \<and>
   sorted_wrt (\<lambda>x y. order_key y \<le> order_key x) (select_attendance demo_register 3)"
  using get_attendance_sorted_join [OF demo_get_attendance] demo_get_attendance
  by (simp add: demo_select_attendance)

text \<open>
  C34: A successful \<^verbatim>\<open>clear_attendance\<close> deletes exactly the attendance rows of the
  class: the rows of other classes stay, in their order, the students table is not
  touched, the attendance list of the class is empty afterwards and the list of
  every other class is what it was.
\<close>

theorem clear_attendance_removes_class:
  assumes "clear_attendance c w = (Inr m, w')"
  shows "attendance w' = filter (\<lambda>a. a_class_id a \<noteq> c) (attendance w) \<and>
         students w' = students w \<and> select_attendance w' c = [] \<and>
         (\<forall>c'. c' \<noteq> c \<longrightarrow> select_attendance w' c' = select_attendance w c')"
  using assms
  by (auto simp: clear_attendance_outcome select_attendance_delete_other
      split: list.splits option.splits)

theorem clear_attendance_removes_class_witness:
  "clear_attendance 3 demo_register =
     (Inr \<lparr>sm_status = ''success'', sm_message = ''Attendance cleared for class 3''\<rparr>,
      demo_register\<lparr>attendance := [present_row 3 9 4 ''2024-03-09'' ''08:00:00'']\<rparr>) \<and>
   [present_row 3 9 4 ''2024-03-09'' ''08:00:00''] =
     filter (\<lambda>a. a_class_id a \<noteq> 3) (attendance demo_register)"
proof -
  have c: "clear_attendance 3 demo_register =
     (Inr \<lparr>sm_status = ''success'', sm_message = ''Attendance cleared for class 3''\<rparr>,
      demo_register\<lparr>attendance := [present_row 3 9 4 ''2024-03-09'' ''08:00:00'']\<rparr>)"
    by (simp add: clear_attendance_outcome demo_register_facts str_int_def str_nat.simps
        digit_char_def)
      (simp add: delete_attendance_def demo_register_def present_row_def)
  from clear_attendance_removes_class [OF c]
  have "[present_row 3 9 4 ''2024-03-09'' ''08:00:00''] =
     filter (\<lambda>a. a_class_id a \<noteq> 3) (attendance demo_register)"
    by simp
  with c show ?thesis by (rule conjI)
qed

text \<open>
  Clearing a class keeps the ledger's invariant under every pattern of storage
  failures: positive keys and pairwise distinct (student, date) pairs before the
  call hold after it.
\<close>

theorem clear_attendance_preserves_unique:
  assumes "wf_world w" and "unique_per_day w"
  shows "wf_world (snd (clear_attendance c w)) \<and> unique_per_day (snd (clear_attendance c w))"
  using preserves_clear_attendance [of c] assms by (simp add: preserves_def)

theorem clear_attendance_preserves_unique_witness:
  "wf_world demo_register \<and> unique_per_day demo_register \<and>
   wf_world (snd (clear_attendance 3 demo_register)) \<and>
   unique_per_day (snd (clear_attendance 3 demo_register))"
  using clear_attendance_preserves_unique [of demo_register 3]
  by (simp add: demo_register_facts)

text \<open>
  The three handlers that use the storage release their connection on every
  path: after \<^verbatim>\<open>get_attendance\<close>, \<^verbatim>\<open>get_students\<close> and \<^verbatim>\<open>clear_attendance\<close>, whether they
  return or raise, as many connections are open as before.
\<close>

theorem handlers_release_connection:
  "open_conns (snd (get_attendance c w)) = open_conns w \<and>
   open_conns (snd (get_students c w)) = open_conns w \<and>
   open_conns (snd (clear_attendance c w)) = open_conns w"
  by (simp add: get_attendance_outcome get_students_outcome clear_attendance_outcome
      split: list.splits option.splits)

text \<open>
  C35: A record that \<^verbatim>\<open>mark_attendance\<close> has just created is listed: with the storage
  up, after a call that returned True, \<^verbatim>\<open>get_attendance\<close> for the class returns a
  list that has an entry with the student's name, today's date and status Present.
\<close>

theorem marked_student_is_listed:
  assumes "faults w = []" and "mark_attendance name c w = (Inr True, w')"
  shows "\<exists>vs. get_attendance c w' = (Inr vs, w') \<and>
           (\<exists>v \<in> set vs. v_name v = name \<and> v_date v = strftime_date (now w) \<and>
              v_status v = ''Present'')"
proof -
  let ?sid = "select_student_id (students w) name c"
  from assms have t: "py_truthy ?sid"
    and w': "w' = insert_attendance (the ?sid) c (strftime_date (now w))
               (strftime_time (now (tick w))) ''Present'' (tick (tick w))"
    by (auto simp: mark_attendance_no_fault Let_def split: if_splits)
  from t obtain sid where sid: "?sid = Some sid" by (cases ?sid) (auto simp: py_truthy_def)
  from select_student_id_SomeD [OF sid] obtain s
    where s: "s \<in> set (students w)" "s_id s = sid" "s_name s = name" "s_class_id s = c"
    by blast
  let ?a = "\<lparr>a_id = attendance_seq w, a_student_id = sid, a_class_id = c,
             a_date = strftime_date (now w), a_time = strftime_time (now (tick w)),
             a_status = ''Present''\<rparr>"
  from w' sid s have "attendance_view_of (?a, s) \<in> set (select_attendance w' c)"
    unfolding set_select_attendance by (intro imageI) simp
  moreover from assms(1) w' have "get_attendance c w' = (Inr (select_attendance w' c), w')"
    by (simp add: get_attendance_outcome)
  ultimately show ?thesis using s(3)
    by (auto simp: attendance_view_of_def intro!: bexI)
qed

theorem marked_student_is_listed_witness:
  "faults demo_world = [] \<and>
   (\<exists>vs. get_attendance 3
           (demo_world\<lparr>attendance := [present_row 1 7 3 ''2024-03-09'' ''08:05:00''],
                       attendance_seq := 2\<rparr>) =
           (Inr vs, demo_world\<lparr>attendance := [present_row 1 7 3 ''2024-03-09'' ''08:05:00''],
                               attendance_seq := 2\<rparr>) \<and>
      (\<exists>v \<in> set vs. v_name v = ''Asha'' \<and> v_date v = ''2024-03-09'' \<and>
         v_status v = ''Present''))"
  using marked_student_is_listed [OF demo_world_facts(3) demo_mark]
  by (simp add: demo_world_facts)

text \<open>
  C40: The order of the attendance list is the order of time.  For two entries whose
  date and time strings are the \<^verbatim>\<open>%Y-%m-%d\<close> and \<^verbatim>\<open>%H:%M:%S\<close> renderings of valid clock
  readings, the key of \<^verbatim>\<open>ORDER BY a.date DESC, a.time DESC\<close> compares as the readings
  do: comparing the strings character by character is comparing year, month, day,
  hour, minute and second in this order.
\<close>

theorem order_key_chronological:
  assumes "valid_datetime a" and "valid_datetime b"
    and "v_date v = strftime_date a" and "v_time v = strftime_time a"
    and "v_date v' = strftime_date b" and "v_time v' = strftime_time b"
  shows "order_key v < order_key v' \<longleftrightarrow> chrono a < chrono b"
  using strftime_date_less_iff [OF assms(1,2)] strftime_time_less_iff [OF assms(1,2)]
    strftime_date_inj [OF assms(1,2)] assms(3-6)
  by (auto simp: order_key_def chrono_def less_prod_def le_less)

theorem order_key_chronological_witness:
  "order_key \<lparr>v_name = ''Asha'', v_classroom = ''10-B'', v_date = ''2024-03-09'',
      v_time = ''08:05:00'', v_status = ''Present''\<rparr>
     < order_key \<lparr>v_name = ''Ravi'', v_classroom = ''10-B'', v_date = ''2024-03-09'',
      v_time = ''10:00:00'', v_status = ''Present''\<rparr> \<and>
   chrono \<lparr>dt_year = 2024, dt_month = 3, dt_day = 9, dt_hour = 8, dt_minute = 5, dt_second = 0\<rparr>
     < chrono \<lparr>dt_year = 2024, dt_month = 3, dt_day = 9, dt_hour = 10, dt_minute = 0,
         dt_second = 0\<rparr>"
proof -
  let ?a = "\<lparr>dt_year = 2024, dt_month = 3, dt_day = 9, dt_hour = 8, dt_minute = 5, dt_second = 0\<rparr>"
  let ?b = "\<lparr>dt_year = 2024, dt_month = 3, dt_day = 9, dt_hour = 10, dt_minute = 0, dt_second = 0\<rparr>"
  have v: "valid_datetime ?a" "valid_datetime ?b" by (simp_all add: valid_datetime_def)
  have s: "strftime_date ?a = ''2024-03-09''" "strftime_time ?a = ''08:05:00''"
    "strftime_date ?b = ''2024-03-09''" "strftime_time ?b = ''10:00:00''"
    by (simp_all add: strftime_date_def strftime_time_def zfill_def str_nat.simps digit_char_def)
  have c: "chrono ?a < chrono ?b" by (simp add: chrono_def less_prod_def)
  from order_key_chronological [OF v, of
      "\<lparr>v_name = ''Asha'', v_classroom = ''10-B'', v_date = ''2024-03-09'',
        v_time = ''08:05:00'', v_status = ''Present''\<rparr>"
      "\<lparr>v_name = ''Ravi'', v_classroom = ''10-B'', v_date = ''2024-03-09'',
        v_time = ''10:00:00'', v_status = ''Present''\<rparr>"] s c
  show ?thesis by simp
qed

end
