(* ===== verification/Event_Loop.thy ===== *)
theory Event_Loop
  imports FR_Prelude
begin

text \<open>
  Coroutines on one event loop, for any kind of coroutine.

  The handlers of the service are \<^verbatim>\<open>async def\<close> functions run by one event loop
  (\<^verbatim>\<open>uvicorn.run\<close>, line 237): a coroutine runs without interruption from one
  \<^verbatim>\<open>await\<close> to the next, and while it is suspended any other coroutine may run.
  This theory holds what does not depend on the coroutine: a coroutine is a state
  \<open>'t\<close> with a step function \<open>'t \<Rightarrow> 'w \<Rightarrow> 't \<times> 'w\<close> on a shared world \<open>'w\<close> (one step is
  the code between two suspension points); a configuration is the list of the
  coroutines and the world; \<open>resume step i\<close> lets coroutine \<open>i\<close> take one step,
  \<open>run_loop\<close> follows a schedule (the list of the loop's choices), \<open>reachable\<close> is
  the reachability relation, \<open>steps\<close> runs one coroutine several times in a row,
  \<open>serial_schedule m k n\<close> is the schedule that gives \<open>m\<close> steps to each of the \<open>n\<close>
  coroutines from position \<open>k\<close> on, one coroutine after the other, and
  \<open>run_all\<close> runs a list of calls one after another, each to its end.

  The lemmas are the proof rules the theories \<open>Interleaving\<close>, \<open>Requests\<close> and
  \<open>Server\<close> instantiate: invariants of single steps are invariants of every reachable
  configuration (\<open>reachable_invariant\<close>); a relation on worlds that every step
  respects holds between the first and every reachable world (\<open>reachable_world\<close>);
  a measure that every step decreases bounds the number of steps a coroutine can
  take (\<open>run_loop_measure\<close>); a property of one coroutine that its own steps keep
  and that survives the changes other coroutines make to the world holds along
  every schedule (\<open>run_loop_tracked\<close>); a resource that coroutines acquire and release is
  accounted for by the coroutines that hold it (\<open>resume_accounting\<close>); claims that
  are pairwise disjoint stay so when a coroutine gives up part of its claim
  (\<open>disjoint_family_update\<close>); every step preserves the meaning of the rest of a
  coroutine, so enough steps compute it (\<open>steps_semantics\<close>, \<open>steps_result\<close>); a serial
  schedule computes what the calls compute one after another (\<open>run_serial\<close>).
\<close>

section \<open>Definitions\<close>

type_synonym ('t, 'w) step = "'t \<Rightarrow> 'w \<Rightarrow> 't \<times> 'w"

definition resume :: "('t, 'w) step \<Rightarrow> nat \<Rightarrow> 't list \<times> 'w \<Rightarrow> 't list \<times> 'w" where
  "resume step i c =
     (case c of (ts, w) \<Rightarrow>
        if i < length ts then (case step (ts ! i) w of (t', w') \<Rightarrow> (ts[i := t'], w'))
        else (ts, w))"

fun run_loop :: "('t, 'w) step \<Rightarrow> nat list \<Rightarrow> 't list \<times> 'w \<Rightarrow> 't list \<times> 'w" where
  "run_loop step [] c = c"
| "run_loop step (i # is) c = run_loop step is (resume step i c)"

inductive reachable :: "('t, 'w) step \<Rightarrow> 't list \<times> 'w \<Rightarrow> 't list \<times> 'w \<Rightarrow> bool"
  for step c where
  reachable_init: "reachable step c c"
| reachable_step: "reachable step c c' \<Longrightarrow> reachable step c (resume step i c')"

fun steps :: "('t, 'w) step \<Rightarrow> nat \<Rightarrow> 't \<Rightarrow> 'w \<Rightarrow> 't \<times> 'w" where
  "steps step 0 t w = (t, w)"
| "steps step (Suc k) t w = (case step t w of (t', w') \<Rightarrow> steps step k t' w')"

definition serial_schedule :: "nat \<Rightarrow> nat \<Rightarrow> nat \<Rightarrow> nat list" where
  "serial_schedule m k n = concat (map (replicate m) [k ..< k + n])"

fun run_all :: "('x \<Rightarrow> 'w \<Rightarrow> 'r \<times> 'w) \<Rightarrow> 'x list \<Rightarrow> 'w \<Rightarrow> 'r list \<times> 'w" where
  "run_all f [] w = ([], w)"
| "run_all f (x # xs) w =
     (case f x w of (r, w1) \<Rightarrow> case run_all f xs w1 of (rs, w2) \<Rightarrow> (r # rs, w2))"

definition count_where :: "('t \<Rightarrow> bool) \<Rightarrow> 't list \<Rightarrow> nat" where
  "count_where P ts = length (filter P ts)"

definition disjoint_family :: "('t \<Rightarrow> 'k set) \<Rightarrow> 't list \<Rightarrow> bool" where
  "disjoint_family keys ts \<longleftrightarrow>
     (\<forall>i < length ts. \<forall>k < length ts. i \<noteq> k \<longrightarrow> keys (ts ! i) \<inter> keys (ts ! k) = {})"

section \<open>Schedules\<close>

lemma resume_Pair:
  "resume step i (ts, w) =
     (if i < length ts then (ts[i := fst (step (ts ! i) w)], snd (step (ts ! i) w)) else (ts, w))"
  by (simp add: resume_def split: prod.splits)

lemma resume_cases [consumes 1, case_names idle step]:
  assumes "resume step i (ts, w) = c'"
    and "\<not> i < length ts \<Longrightarrow> c' = (ts, w) \<Longrightarrow> P"
    and "\<And>t' w'. i < length ts \<Longrightarrow> step (ts ! i) w = (t', w') \<Longrightarrow> c' = (ts[i := t'], w') \<Longrightarrow> P"
  shows P
  using assms by (cases "i < length ts"; cases "step (ts ! i) w") (auto simp: resume_Pair)

lemma resume_length [simp]: "length (fst (resume step i c)) = length (fst c)"
  by (cases c) (simp add: resume_Pair)

lemma resume_other:
  "j \<noteq> i \<Longrightarrow> fst (resume step i c) ! j = fst c ! j"
  by (cases c) (simp add: resume_Pair)

lemma run_loop_append [simp]:
  "run_loop step (is @ js) c = run_loop step js (run_loop step is c)"
  by (induction "is" arbitrary: c) simp_all

lemma run_loop_length [simp]: "length (fst (run_loop step is c)) = length (fst c)"
  by (induction "is" arbitrary: c) simp_all

lemma run_loop_replicate:
  "i < length ts \<Longrightarrow>
   run_loop step (replicate k i) (ts, w) =
     (ts[i := fst (steps step k (ts ! i) w)], snd (steps step k (ts ! i) w))"
  by (induction k arbitrary: ts w) (simp_all add: resume_Pair split: prod.splits)

lemma steps_add:
  "steps step (j + k) t w = (case steps step j t w of (t', w') \<Rightarrow> steps step k t' w')"
  by (induction j arbitrary: t w) (simp_all split: prod.splits)

lemma steps_fixed:
  "(\<And>w. step t w = (t, w)) \<Longrightarrow> steps step k t w = (t, w)"
  by (induction k) simp_all

section \<open>Reachability\<close>

lemma reachable_run_loop: "reachable step c (run_loop step is c)"
proof (induction "is" rule: rev_induct)
  case Nil
  show ?case by (simp add: reachable_init)
next
  case (snoc i "is")
  then show ?case by (simp add: reachable_step)
qed

lemma reachable_schedule: "reachable step c c' \<Longrightarrow> \<exists>is. c' = run_loop step is c"
proof (induction rule: reachable.induct)
  case reachable_init
  have "c = run_loop step [] c" by simp
  then show ?case ..
next
  case (reachable_step c' i)
  from reachable_step.IH obtain "is" where "c' = run_loop step is c" ..
  then have "resume step i c' = run_loop step (is @ [i]) c" by simp
  then show ?case ..
qed

lemma reachable_iff: "reachable step c c' \<longleftrightarrow> (\<exists>is. c' = run_loop step is c)"
  using reachable_schedule [of step c c'] reachable_run_loop [of step c] by auto

lemma reachable_invariant:
  assumes "reachable step c c'" and "I c" and "\<And>i c. I c \<Longrightarrow> I (resume step i c)"
  shows "I c'"
  using assms(1,2) by (induction rule: reachable.induct) (simp_all add: assms(3))

lemma run_loop_invariant:
  assumes "I c" and "\<And>i c. I c \<Longrightarrow> I (resume step i c)"
  shows "I (run_loop step is c)"
  using reachable_run_loop assms by (rule reachable_invariant)

lemma reachable_list_all:
  assumes "reachable step c c'" and "list_all P (fst c)"
    and "\<And>t w t' w'. P t \<Longrightarrow> step t w = (t', w') \<Longrightarrow> P t'"
  shows "list_all P (fst c')"
  using assms(1,2)
proof (rule reachable_invariant)
  fix i and c :: "'a list \<times> 'b"
  assume P: "list_all P (fst c)"
  obtain ts w where c: "c = (ts, w)" by (cases c)
  from c [symmetric] have "resume step i (ts, w) = resume step i c" by simp
  then show "list_all P (fst (resume step i c))"
  proof (cases rule: resume_cases)
    case idle
    with P c show ?thesis by simp
  next
    case (step t' w')
    from P c step(1) have "P (ts ! i)" by (simp add: list_all_length)
    from assms(3) [OF this step(2)] P c step(3) show ?thesis
      by (auto simp: list_all_iff dest!: subsetD [OF set_update_subset_insert])
  qed
qed

lemma run_loop_tracked:
  assumes own: "\<And>t w t' w'. G w \<Longrightarrow> P w t \<Longrightarrow> step t w = (t', w') \<Longrightarrow> P w' t'"
    and world: "\<And>t w t' w'. G w \<Longrightarrow> step t w = (t', w') \<Longrightarrow> G w' \<and> R w w'"
    and mono: "\<And>w w' t. P w t \<Longrightarrow> R w w' \<Longrightarrow> P w' t"
    and inv: "G (snd c)" "j < length (fst c)" "P (snd c) (fst c ! j)"
  shows "G (snd (run_loop step is c)) \<and> P (snd (run_loop step is c)) (fst (run_loop step is c) ! j)"
proof -
  let ?I = "\<lambda>c. G (snd c) \<and> j < length (fst c) \<and> P (snd c) (fst c ! j)"
  have "?I (resume step i c)" if I: "?I c" for i c
  proof -
    obtain ts w where c: "c = (ts, w)" by (cases c)
    from c [symmetric] have "resume step i (ts, w) = resume step i c" by simp
    then show ?thesis
    proof (cases rule: resume_cases)
      case idle
      with I c show ?thesis by simp
    next
      case (step t' w')
      from I c world [OF _ step(2)] have w': "G w'" "R w w'" by simp_all
      have "P w' (ts[i := t'] ! j)"
      proof (cases "i = j")
        case True
        with own [OF _ _ step(2)] I c show ?thesis by simp
      next
        case False
        with mono [OF _ w'(2)] I c show ?thesis by simp
      qed
      with w' I c step(3) show ?thesis by simp
    qed
  qed
  with inv have "?I (run_loop step is c)" by (intro run_loop_invariant [where I = ?I]) simp_all
  then show ?thesis by simp
qed

lemma reachable_length: "reachable step c c' \<Longrightarrow> length (fst c') = length (fst c)"
  by (induction rule: reachable.induct) simp_all

lemma resume_world:
  assumes "\<And>t w t' w'. step t w = (t', w') \<Longrightarrow> R w w'" and "\<And>w. R w w"
  shows "R (snd c) (snd (resume step i c))"
proof (cases c)
  case (Pair ts w)
  obtain t' w' where "step (ts ! i) w = (t', w')" by (cases "step (ts ! i) w")
  with assms Pair show ?thesis by (auto simp: resume_Pair)
qed

lemma reachable_world:
  assumes "reachable step c c'"
    and "\<And>t w t' w'. step t w = (t', w') \<Longrightarrow> R w w'"
    and "\<And>w. R w w" and "\<And>a b c. R a b \<Longrightarrow> R b c \<Longrightarrow> R a c"
  shows "R (snd c) (snd c')"
  using assms(1)
proof (induction rule: reachable.induct)
  case reachable_init
  show ?case by (rule assms(3))
next
  case (reachable_step c' i)
  from reachable_step.IH resume_world [of step R c' i, OF assms(2,3)] show ?case
    by (rule assms(4))
qed

section \<open>Progress\<close>

lemma resume_measure:
  fixes m :: "'t \<Rightarrow> nat"
  assumes "\<And>t w. m (fst (step t w)) \<le> m t - 1" and "j < length (fst c)"
  shows "m (fst (resume step i c) ! j) \<le> m (fst c ! j) - (if i = j then 1 else 0)"
  using assms(2) assms(1) [of "fst c ! i" "snd c"]
  by (cases c) (auto simp: resume_Pair nth_list_update)

lemma run_loop_measure:
  fixes m :: "'t \<Rightarrow> nat"
  assumes "\<And>t w. m (fst (step t w)) \<le> m t - 1" and "j < length (fst c)"
  shows "m (fst (run_loop step is c) ! j) \<le> m (fst c ! j) - count_list is j"
  using assms(2)
proof (induction "is" arbitrary: c)
  case Nil
  then show ?case by simp
next
  case (Cons i "is")
  from Cons.prems have "j < length (fst (resume step i c))" by simp
  from Cons.IH [OF this] resume_measure [of m step j c i, OF assms(1) Cons.prems] show ?case
    by (auto split: if_splits)
qed

lemma steps_measure:
  fixes m :: "'t \<Rightarrow> nat"
  assumes "\<And>t w. m (fst (step t w)) \<le> m t - 1"
  shows "m (fst (steps step k t w)) \<le> m t - k"
proof (induction k arbitrary: t w)
  case 0
  show ?case by simp
next
  case (Suc k)
  from Suc.IH [of "fst (step t w)" "snd (step t w)"] assms [of t w] show ?case
    by (simp add: case_prod_beta)
qed

lemma steps_absorb:
  fixes m :: "'t \<Rightarrow> nat"
  assumes "\<And>t w. m (fst (step t w)) \<le> m t - 1" and "\<And>t w. m t = 0 \<Longrightarrow> step t w = (t, w)"
  shows "m t \<le> k \<Longrightarrow> steps step (Suc k) t w = steps step k t w"
proof (induction k arbitrary: t w)
  case 0
  then show ?case by (simp add: assms(2))
next
  case (Suc k)
  from Suc.prems assms(1) [of t w] have "m (fst (step t w)) \<le> k" by simp
  from Suc.IH [OF this, of "snd (step t w)"] show ?case by (simp add: case_prod_beta)
qed

lemma steps_enough:
  fixes m :: "'t \<Rightarrow> nat"
  assumes "\<And>t w. m (fst (step t w)) \<le> m t - 1" and "\<And>t w. m t = 0 \<Longrightarrow> step t w = (t, w)"
    and "m t \<le> k"
  shows "steps step k t w = steps step (m t) t w"
  using assms(3)
proof (induction k)
  case 0
  then show ?case by simp
next
  case (Suc k)
  show ?case
  proof (cases "m t = Suc k")
    case True
    then show ?thesis by simp
  next
    case False
    with Suc.prems have le: "m t \<le> k" by simp
    from steps_absorb [of m step, OF assms(1,2) le] Suc.IH [OF le] show ?thesis by simp
  qed
qed

section \<open>The meaning of the rest of a coroutine\<close>

lemma steps_semantics:
  assumes "\<And>t w. sem (fst (step t w)) (snd (step t w)) = sem t w"
  shows "sem (fst (steps step k t w)) (snd (steps step k t w)) = sem t w"
proof (induction k arbitrary: t w)
  case 0
  show ?case by simp
next
  case (Suc k)
  from Suc.IH [of "fst (step t w)" "snd (step t w)"] assms [of t w] show ?case
    by (simp add: case_prod_beta)
qed

section \<open>A resource that coroutines hold\<close>

lemma steps_result:
  fixes m :: "'t \<Rightarrow> nat"
  assumes dec: "\<And>t w. m (fst (step t w)) \<le> m t - 1"
    and sem: "\<And>t w. rest (fst (step t w)) (snd (step t w)) = rest t w"
    and fin: "\<And>t. m t = 0 \<Longrightarrow> \<exists>r. t = stop r \<and> (\<forall>w. rest t w = (r, w))"
    and k: "m t \<le> k"
  shows "steps step k t w = (stop (fst (rest t w)), snd (rest t w))"
proof -
  let ?t = "fst (steps step k t w)" and ?w = "snd (steps step k t w)"
  from steps_measure [of m step k t w, OF dec] k have "m ?t = 0" by simp
  from fin [OF this] obtain r where r: "?t = stop r" "rest ?t ?w = (r, ?w)" by blast
  moreover have "rest ?t ?w = rest t w" by (rule steps_semantics) (rule sem)
  ultimately show ?thesis by (simp add: prod_eq_iff)
qed

lemma count_where_update:
  "i < length ts \<Longrightarrow>
   count_where P (ts[i := t']) + (if P (ts ! i) then 1 else 0) =
     count_where P ts + (if P t' then 1 else 0)"
proof (induction ts arbitrary: i)
  case Nil
  then show ?case by simp
next
  case (Cons t ts)
  then show ?case by (cases i) (auto simp: count_where_def)
qed

lemma count_where_pos: "i < length ts \<Longrightarrow> P (ts ! i) \<Longrightarrow> 0 < count_where P ts"
  using nth_mem [of i ts] by (auto simp: count_where_def filter_empty_conv)

lemma count_where_0: "list_all (\<lambda>t. \<not> P t) ts \<Longrightarrow> count_where P ts = 0"
  by (induction ts) (auto simp: count_where_def)

lemma resume_accounting:
  fixes n :: "'w \<Rightarrow> nat"
  assumes step: "\<And>t w t' w'. step t w = (t', w') \<Longrightarrow> (P t \<Longrightarrow> 0 < n w) \<Longrightarrow>
      n w' + (if P t then 1 else 0) = n w + (if P t' then 1 else 0)"
    and inv: "n (snd c) = k + count_where P (fst c)"
  shows "n (snd (resume step i c)) = k + count_where P (fst (resume step i c))"
proof (cases c)
  case (Pair ts w)
  from \<open>c = (ts, w)\<close> [symmetric] have "resume step i (ts, w) = resume step i c" by simp
  then show ?thesis
  proof (cases rule: resume_cases)
    case idle
    with inv Pair show ?thesis by simp
  next
    case (step t' w')
    from inv Pair have o: "n w = k + count_where P ts" by simp
    with count_where_pos [OF step(1), of P] have "P (ts ! i) \<Longrightarrow> 0 < n w" by simp
    from assms(1) [OF step(2) this] count_where_update [OF step(1), of P t'] o
    have "n w' = k + count_where P (ts[i := t'])" by (auto split: if_splits)
    with step(3) show ?thesis by simp
  qed
qed

section \<open>Coroutines with disjoint claims\<close>

lemma disjoint_familyD:
  "disjoint_family keys ts \<Longrightarrow> i < length ts \<Longrightarrow> k < length ts \<Longrightarrow> i \<noteq> k \<Longrightarrow>
   x \<in> keys (ts ! i) \<Longrightarrow> x \<notin> keys (ts ! k)"
  by (auto simp: disjoint_family_def)

lemma disjoint_family_update:
  assumes "disjoint_family keys ts" and "i < length ts" and "keys t' \<subseteq> keys (ts ! i)"
  shows "disjoint_family keys (ts[i := t'])"
  unfolding disjoint_family_def
proof (intro allI impI)
  fix a b
  assume ab: "a < length (ts[i := t'])" "b < length (ts[i := t'])" "a \<noteq> b"
  from assms(1) have d: "a < length ts \<Longrightarrow> b < length ts \<Longrightarrow> a \<noteq> b \<Longrightarrow>
      keys (ts ! a) \<inter> keys (ts ! b) = {}" for a b
    by (simp add: disjoint_family_def)
  from ab assms(2,3) d [of a b] d [of i b] d [of a i]
  show "keys (ts[i := t'] ! a) \<inter> keys (ts[i := t'] ! b) = {}"
    by (auto simp: nth_list_update split: if_splits)
qed

lemma disjoint_family_map:
  "disjoint_family keys (map f xs) = disjoint_family (\<lambda>x. keys (f x)) xs"
  by (simp add: disjoint_family_def)

lemma disjoint_family_mono:
  "disjoint_family keys ts \<Longrightarrow> (\<And>t. keys' t \<subseteq> keys t) \<Longrightarrow> disjoint_family keys' ts"
  unfolding disjoint_family_def by blast

section \<open>Serial schedules\<close>

lemma serial_schedule_0 [simp]: "serial_schedule m k 0 = []"
  by (simp add: serial_schedule_def)

lemma serial_schedule_Suc:
  "serial_schedule m k (Suc n) = replicate m k @ serial_schedule m (Suc k) n"
  by (simp add: serial_schedule_def upt_conv_Cons del: upt_Suc replicate.simps)

lemma count_list_rounds [simp]:
  "count_list (concat (replicate n xs)) x = n * count_list xs x"
  by (induction n) simp_all

lemma run_serial:
  assumes "\<And>x w. x \<in> set xs \<Longrightarrow> steps step m (start x) w = (stop (fst (f x w)), snd (f x w))"
  shows "run_loop step (serial_schedule m (length pre) (length xs)) (pre @ map start xs, w) =
           (pre @ map stop (fst (run_all f xs w)), snd (run_all f xs w))"
  using assms
proof (induction xs arbitrary: pre w)
  case Nil
  show ?case by simp
next
  case (Cons x xs)
  have "run_loop step (replicate m (length pre)) (pre @ start x # map start xs, w) =
      ((pre @ [stop (fst (f x w))]) @ map start xs, snd (f x w))"
    by (simp add: run_loop_replicate Cons.prems del: replicate.simps)
  moreover have "run_loop step (serial_schedule m (length (pre @ [stop (fst (f x w))])) (length xs))
      ((pre @ [stop (fst (f x w))]) @ map start xs, snd (f x w)) =
    ((pre @ [stop (fst (f x w))]) @ map stop (fst (run_all f xs (snd (f x w)))),
     snd (run_all f xs (snd (f x w))))"
    by (rule Cons.IH) (simp add: Cons.prems)
  ultimately show ?case
    by (simp add: serial_schedule_Suc case_prod_beta del: replicate.simps)
qed

lemma run_all_invariant:
  assumes "\<And>x. preserves I (f x)" and "I w"
  shows "I (snd (run_all f xs w))"
  using assms(2)
proof (induction xs arbitrary: w)
  case Nil
  then show ?case by simp
next
  case (Cons x xs)
  obtain r w1 where r: "f x w = (r, w1)" by (cases "f x w")
  from preservesD [OF assms(1) Cons.prems r] have "I w1" .
  from Cons.IH [OF this] r show ?case by (simp add: case_prod_beta)
qed

lemma length_run_all [simp]: "length (fst (run_all f xs w)) = length xs"
  by (induction xs arbitrary: w) (simp_all add: case_prod_beta)

end
