(* ===== verification/Service.thy ===== *)
theory Service
  imports Recognition Api Event_Loop
begin

text \<open>
  The endpoints as one service (lines 182-233).

  \<open>ImageData\<close> is the request model of lines 87-89 and \<open>recognize_faces\<close> the endpoint
  of lines 182-186.  The five routes are the constructors of \<open>request\<close>, the values
  their handlers return are the constructors of \<open>response\<close>, and \<open>handle\<close> is the
  dispatch by route.  \<open>serve\<close> is a server that handles a list of requests one after
  another, each to its end; it is \<open>run_all\<close> of theory \<open>Event_Loop\<close> applied to
  \<open>handle\<close>.  Theory \<open>Server\<close> lets the handlers interleave.

  Proved here: along every run of \<open>serve\<close> the ledger's invariant holds, the students
  table is fixed and no connection is left open; every face that a response reports
  is an accepted match of the service.
\<close>

section \<open>Definitions\<close>

record ImageData =
  image_base64 :: string
  class_id :: int

datatype request =
  PostRecognizeFaces ImageData
| GetAttendance int
| GetStudents int
| PostClearAttendance int
| GetHealth

datatype response =
  RecognitionResponse recognition_result
| AttendanceResponse "attendance_view list"
| StudentsResponse "student_view list"
| ClearResponse status_message
| HealthResponse health_status

definition recognize_faces :: "collab \<Rightarrow> service \<Rightarrow> ImageData \<Rightarrow> (recognition_result, world) act" where
  "recognize_faces ext svc image_data =
     bindE (recognize_faces_in_image ext svc (image_base64 image_data) (class_id image_data))
       (\<lambda>result. returnE result)"

definition handle :: "collab \<Rightarrow> service \<Rightarrow> request \<Rightarrow> (response, world) act" where
  "handle ext svc rq =
     (case rq of
        PostRecognizeFaces image_data \<Rightarrow>
          bindE (recognize_faces ext svc image_data) (\<lambda>r. returnE (RecognitionResponse r))
      | GetAttendance c \<Rightarrow> bindE (get_attendance c) (\<lambda>r. returnE (AttendanceResponse r))
      | GetStudents c \<Rightarrow> bindE (get_students c) (\<lambda>r. returnE (StudentsResponse r))
      | PostClearAttendance c \<Rightarrow> bindE (clear_attendance c) (\<lambda>r. returnE (ClearResponse r))
      | GetHealth \<Rightarrow> bindE health_check (\<lambda>r. returnE (HealthResponse r)))"

fun serve ::
  "collab \<Rightarrow> service \<Rightarrow> request list \<Rightarrow> world \<Rightarrow> (exn + response) list \<times> world" where
  "serve ext svc [] w = ([], w)"
| "serve ext svc (rq # rqs) w =
     (case handle ext svc rq w of (r, w1) \<Rightarrow>
      case serve ext svc rqs w1 of (rs, w2) \<Rightarrow> (r # rs, w2))"

definition demo_frame :: request where
  "demo_frame = PostRecognizeFaces \<lparr>image_base64 = ''aGk='', class_id = 3\<rparr>"

section \<open>Lemmas\<close>

lemma serve_run_all: "serve ext svc rqs w = run_all (handle ext svc) rqs w"
  by (induction rqs arbitrary: w) simp_all

lemma recognize_faces_eq:
  "recognize_faces ext svc d = recognize_faces_in_image ext svc (image_base64 d) (class_id d)"
  by (rule ext) (simp add: recognize_faces_def bindE_def returnE_def split: prod.splits sum.splits)

lemma preserves_recognize_faces [preserves_intros]:
  "preserves (\<lambda>w. wf_world w \<and> unique_per_day w) (recognize_faces ext svc d)"
  by (simp add: recognize_faces_eq preserves_recognize)

lemma preserves_handle [preserves_intros]:
  "preserves (\<lambda>w. wf_world w \<and> unique_per_day w) (handle ext svc rq)"
  by (cases rq) (auto simp: handle_def intro!: preserves_intros)

lemma preserves_serve:
  assumes "\<And>rq. preserves I (handle ext svc rq)" and "I w"
  shows "I (snd (serve ext svc rqs w))"
  using assms(2)
proof (induction rqs arbitrary: w)
  case Nil
  then show ?case by simp
next
  case (Cons rq rqs)
  obtain r w1 where r: "handle ext svc rq w = (r, w1)" by (cases "handle ext svc rq w")
  from preservesD [OF assms(1) Cons.prems r] have "I w1" .
  from Cons.IH [OF this] r show ?case by (simp add: case_prod_beta)
qed

lemma length_serve: "length (fst (serve ext svc rqs w)) = length rqs"
  by (induction rqs arbitrary: w) (simp_all add: case_prod_beta)

lemma handle_frame:
  "handle ext svc rq w = (r, w') \<Longrightarrow> open_conns w' = open_conns w \<and> students w' = students w"
proof (cases rq)
  case (PostRecognizeFaces d)
  assume "handle ext svc rq w = (r, w')"
  with PostRecognizeFaces obtain r1
    where "recognize_faces_in_image ext svc (image_base64 d) (class_id d) w = (r1, w')"
    by (auto simp: handle_def recognize_faces_eq dest!: bindE_cases simp: returnE_def)
  from recognize_append_only(2,3) [OF this] show ?thesis by simp
qed (auto simp: handle_def bindE_def returnE_def health_check_def get_attendance_outcome
    get_students_outcome clear_attendance_outcome split: list.splits option.splits)

lemma preserves_handle_frame:
  "preserves (\<lambda>w. open_conns w = n \<and> students w = ss) (handle ext svc rq)"
  by (rule preservesI) (metis handle_frame prod.collapse)

lemma demo_recognize_again:
  "recognize_faces_in_image demo_ext demo_service ''aGk='' 3
     (demo_world\<lparr>attendance := [present_row 1 7 3 ''2024-03-09'' ''08:05:00''],
                 attendance_seq := 2\<rparr>) =
     (Inr \<lparr>recognized_faces =
             [\<lparr>rf_name = ''Asha'', rf_confidence = 4 / 5, rf_bbox = (0, 0, 1280, 960)\<rparr>],
           attendance_marked = []\<rparr>,
      demo_world\<lparr>attendance := [present_row 1 7 3 ''2024-03-09'' ''08:05:00''],
                 attendance_seq := 2\<rparr>)"
  by (simp add: recognize_loop [OF demo_ext_facts(1) demo_ext_facts(4) demo_ext_facts(6)]
      demo_faces_def process_face_cases demo_match demo_mark_again bindE_def returnE_def
      reconcile_eval)

lemma demo_handle:
  "handle demo_ext demo_service demo_frame demo_world =
     (Inr (RecognitionResponse \<lparr>recognized_faces =
             [\<lparr>rf_name = ''Asha'', rf_confidence = 4 / 5, rf_bbox = (0, 0, 1280, 960)\<rparr>],
           attendance_marked = [''Asha'']\<rparr>),
      demo_world\<lparr>attendance := [present_row 1 7 3 ''2024-03-09'' ''08:05:00''],
                 attendance_seq := 2\<rparr>)"
  "handle demo_ext demo_service demo_frame
     (demo_world\<lparr>attendance := [present_row 1 7 3 ''2024-03-09'' ''08:05:00''],
                 attendance_seq := 2\<rparr>) =
     (Inr (RecognitionResponse \<lparr>recognized_faces =
             [\<lparr>rf_name = ''Asha'', rf_confidence = 4 / 5, rf_bbox = (0, 0, 1280, 960)\<rparr>],
           attendance_marked = []\<rparr>),
      demo_world\<lparr>attendance := [present_row 1 7 3 ''2024-03-09'' ''08:05:00''],
                 attendance_seq := 2\<rparr>)"
  by (simp_all add: handle_def demo_frame_def recognize_faces_eq demo_recognize
      demo_recognize_again bindE_def returnE_def)

lemma serve_response:
  "r \<in> set (fst (serve ext svc rqs w)) \<Longrightarrow> \<exists>rq w1 w2. rq \<in> set rqs \<and> handle ext svc rq w1 = (r, w2)"
proof (induction rqs arbitrary: w)
  case Nil
  then show ?case by simp
next
  case (Cons rq rqs)
  obtain r1 w1 where h: "handle ext svc rq w = (r1, w1)" by (cases "handle ext svc rq w")
  with Cons.prems have "r = r1 \<or> r \<in> set (fst (serve ext svc rqs w1))"
    by (simp add: case_prod_beta)
  with h Cons.IH [of w1] show ?case by (fastforce simp: case_prod_beta)
qed

lemma handle_recognition:
  assumes "handle ext svc rq w = (Inr (RecognitionResponse res), w')"
  shows "\<exists>d. rq = PostRecognizeFaces d \<and>
           recognize_faces_in_image ext svc (image_base64 d) (class_id d) w = (Inr res, w')"
  using assms
  by (cases rq)
    (auto simp: handle_def recognize_faces_eq bindE_def returnE_def
      split: prod.splits sum.splits)

lemma served_face:
  assumes "Inr (RecognitionResponse res) \<in> set (fst (serve ext svc rqs w))"
    and "r \<in> set (recognized_faces res)"
  shows "\<exists>e. match_face svc e = Inr (Some (rf_name r, rf_confidence r))"
proof -
  from serve_response [OF assms(1)] obtain rq w1 w2
    where "handle ext svc rq w1 = (Inr (RecognitionResponse res), w2)" by blast
  from handle_recognition [OF this] obtain d :: ImageData
    where "recognize_faces_in_image ext svc (image_base64 d) (class_id d) w1 = (Inr res, w2)"
    by blast
  then show ?thesis using assms(2) by (rule recognize_matched)
qed

section \<open>Properties\<close>

text \<open>
  C7: The one-record-per-student-per-day invariant holds along every run of the
  server: starting from a table with positive keys and pairwise distinct
  (student, date) pairs, the table after any sequence of requests to the five
  endpoints, failed ones included, has the same properties.
\<close>

theorem serve_invariant:
  assumes "wf_world w" and "unique_per_day w"
  shows "wf_world (snd (serve ext svc rqs w)) \<and> unique_per_day (snd (serve ext svc rqs w))"
  using preserves_serve [where I = "\<lambda>w. wf_world w \<and> unique_per_day w", OF preserves_handle]
    assms by blast

theorem serve_invariant_witness:
  "wf_world demo_world \<and> unique_per_day demo_world \<and>
   wf_world (snd (serve demo_ext demo_service [demo_frame, PostClearAttendance 3, demo_frame]
      demo_world)) \<and>
   unique_per_day (snd (serve demo_ext demo_service [demo_frame, PostClearAttendance 3, demo_frame]
      demo_world))"
  using serve_invariant [of demo_world demo_ext demo_service
      "[demo_frame, PostClearAttendance 3, demo_frame]"]
  by (simp add: demo_world_facts)

text \<open>
  Along every run of the server the students table is never changed and every
  connection opened by a handler has been closed when the handler is left.
\<close>

theorem serve_frame_conditions:
  "students (snd (serve ext svc rqs w)) = students w \<and>
   open_conns (snd (serve ext svc rqs w)) = open_conns w"
  using preserves_serve [where I = "\<lambda>v. open_conns v = open_conns w \<and> students v = students w",
      OF preserves_handle_frame]
  by simp

text \<open>
  End to end, on the service with the two orthogonal enrolled vectors of Asha
  and Ravi: a frame with one face of Asha and one unknown face, submitted twice on
  the same day, is answered both times with the single match Asha (confidence 4/5,
  the box scaled to the 1280x960 frame); the first answer marks Asha, the second
  marks nobody, and the table holds one row.
\<close>

theorem serve_same_frame_twice:
  "serve demo_ext demo_service [demo_frame, demo_frame] demo_world =
   ([Inr (RecognitionResponse \<lparr>recognized_faces =
             [\<lparr>rf_name = ''Asha'', rf_confidence = 4 / 5, rf_bbox = (0, 0, 1280, 960)\<rparr>],
           attendance_marked = [''Asha'']\<rparr>),
     Inr (RecognitionResponse \<lparr>recognized_faces =
             [\<lparr>rf_name = ''Asha'', rf_confidence = 4 / 5, rf_bbox = (0, 0, 1280, 960)\<rparr>],
           attendance_marked = []\<rparr>)],
    demo_world\<lparr>attendance := [present_row 1 7 3 ''2024-03-09'' ''08:05:00''],
               attendance_seq := 2\<rparr>)"
  by (simp add: demo_handle)

end
