(* ===== verification/Interleaving.thy ===== *)
theory Interleaving
  imports Ledger Event_Loop
begin

text \<open>
  Concurrent calls of \<^verbatim>\<open>mark_attendance\<close> (lines 96-124).

  The handlers are coroutines on one event loop: a call runs without interruption
  from one \<^verbatim>\<open>await\<close> to the next, and between two of its \<^verbatim>\<open>await\<close>s any other call may
  run.  \<^verbatim>\<open>mark_attendance\<close> has five suspension points - the connect of line 97, the two
  queries of lines 100 and 110, the insert of line 117 and the close of line 124.  A
  \<open>task\<close> is a call between two of them, with the local variables that are live
  there; \<open>task_step\<close> performs the storage call the task is waiting for and runs the
  code up to the next suspension point.  A configuration is a list of tasks and the
  shared \<open>world\<close>; \<open>sched_step i\<close> lets task \<open>i\<close> make its step, \<open>run_schedule\<close> follows a
  list of such choices, and \<open>reach\<close> is the reachability relation of the system.

  Proved here: a task scheduled five times in a row does what \<open>mark_attendance\<close> of
  theory \<open>Ledger\<close> does, under every script of storage faults (so the results about
  sequential requests apply to serial schedules); along every interleaving rows are
  only appended, the students table is fixed, and the number of open connections
  is the number of tasks between connect and close; there is an interleaving of
  two calls for the same student in which both insert - the check of line 110 and
  the insert of line 117 are separate steps; and calls that resolve to pairwise
  different students (\<open>distinct_keys\<close>) keep the one-record-per-day invariant under
  every interleaving (the invariant \<open>race_free\<close>: a call about to insert has no
  record for its student and day, \<open>pending_fresh\<close>); on a steady day a call for a
  student of the class that has been resumed five times has returned and the
  student has a record for today, whatever ran in between (the invariant
  \<open>live_inv\<close>: the call is \<open>on_track\<close>, and the fewer steps it has left the closer it
  is to the record).  The scheduler and its proof rules are those of theory
  \<open>Event_Loop\<close>; \<open>sched_step\<close>, \<open>run_schedule\<close>, \<open>reach\<close>, \<open>task_steps\<close>, \<open>mark_all\<close>,
  \<open>serial\<close> and \<open>held\<close> abbreviate its constants at \<open>task_step\<close>.
\<close>

section \<open>Definitions\<close>

datatype task =
    Start string int
  | Connected string int
  | HaveStudent int int string
  | Inserting int int string string
  | Closing "exn + bool"
  | Done "exn + bool"

definition task_step :: "task \<Rightarrow> world \<Rightarrow> task \<times> world" where
  "task_step t w =
     (case t of
        Start name class_id \<Rightarrow>
          (case get_db_connection w of
             (Inl e, w') \<Rightarrow> (Done (Inl e), w')
           | (Inr conn, w') \<Rightarrow> (Connected name class_id, w'))
      | Connected name class_id \<Rightarrow>
          (case db_call (\<lambda>w. (select_student_id (students w) name class_id, w)) w of
             (Inl e, w') \<Rightarrow> (Closing (Inl e), w')
           | (Inr student_id, w') \<Rightarrow>
               if \<not> py_truthy student_id then (Closing (Inr False), w')
               else (HaveStudent (the student_id) class_id (strftime_date (now w')), tick w'))
      | HaveStudent student_id class_id today \<Rightarrow>
          (case db_call (\<lambda>w. (select_attendance_id (attendance w) student_id today, w)) w of
             (Inl e, w') \<Rightarrow> (Closing (Inl e), w')
           | (Inr existing, w') \<Rightarrow>
               if \<not> py_truthy existing
               then (Inserting student_id class_id today (strftime_time (now w')), tick w')
               else (Closing (Inr False), w'))
      | Inserting student_id class_id today now' \<Rightarrow>
          (case db_call (\<lambda>w. ((), insert_attendance student_id class_id today now' ''Present'' w)) w of
             (Inl e, w') \<Rightarrow> (Closing (Inl e), w')
           | (Inr u, w') \<Rightarrow> (Closing (Inr True), w'))
      | Closing r \<Rightarrow> (Done r, conn_close w)
      | Done r \<Rightarrow> (Done r, w))"

type_synonym config = "task list \<times> world"

abbreviation sched_step :: "nat \<Rightarrow> config \<Rightarrow> config" where
  "sched_step \<equiv> resume task_step"

abbreviation run_schedule :: "nat list \<Rightarrow> config \<Rightarrow> config" where
  "run_schedule \<equiv> run_loop task_step"

abbreviation reach :: "config \<Rightarrow> config \<Rightarrow> bool" where
  "reach \<equiv> reachable task_step"

abbreviation task_steps :: "nat \<Rightarrow> task \<Rightarrow> world \<Rightarrow> task \<times> world" where
  "task_steps \<equiv> steps task_step"

abbreviation mark_all :: "(string \<times> int) list \<Rightarrow> world \<Rightarrow> (exn + bool) list \<times> world" where
  "mark_all \<equiv> run_all (\<lambda>nc. mark_attendance (fst nc) (snd nc))"

abbreviation serial :: "nat \<Rightarrow> nat \<Rightarrow> nat list" where
  "serial \<equiv> serial_schedule 5"

definition holding :: "task \<Rightarrow> bool" where
  "holding t = (case t of Start n c \<Rightarrow> False | Done r \<Rightarrow> False | _ \<Rightarrow> True)"

abbreviation held :: "task list \<Rightarrow> nat" where
  "held \<equiv> count_where holding"

definition is_done :: "task \<Rightarrow> bool" where
  "is_done t = (case t of Done r \<Rightarrow> True | _ \<Rightarrow> False)"

fun remaining :: "task \<Rightarrow> nat" where
  "remaining (Start n c) = 5"
| "remaining (Connected n c) = 4"
| "remaining (HaveStudent s c d) = 3"
| "remaining (Inserting s c d t) = 2"
| "remaining (Closing r) = 1"
| "remaining (Done r) = 0"

definition task_result :: "task \<Rightarrow> exn + bool" where
  "task_result t = (case t of Done r \<Rightarrow> r | _ \<Rightarrow> Inr False)"

definition task_rest :: "task \<Rightarrow> (bool, world) act" where
  "task_rest t w = (task_result (fst (task_steps 5 t w)), snd (task_steps 5 t w))"

definition conn_inv :: "nat \<Rightarrow> config \<Rightarrow> bool" where
  "conn_inv n c \<longleftrightarrow> open_conns (snd c) = n + held (fst c)"

definition grows_from :: "world \<Rightarrow> 'a \<times> world \<Rightarrow> bool" where
  "grows_from w c \<longleftrightarrow>
     students (snd c) = students w \<and>
     (\<exists>rows. attendance (snd c) = attendance w @ rows \<and>
        list_all (\<lambda>r. a_status r = ''Present'') rows)"

definition task_key :: "student_row list \<Rightarrow> task \<Rightarrow> int option" where
  "task_key tbl t =
     (case t of
        Start name class_id \<Rightarrow> select_student_id tbl name class_id
      | Connected name class_id \<Rightarrow> select_student_id tbl name class_id
      | HaveStudent student_id class_id today \<Rightarrow> Some student_id
      | Inserting student_id class_id today now' \<Rightarrow> Some student_id
      | Closing r \<Rightarrow> None
      | Done r \<Rightarrow> None)"

definition distinct_keys :: "student_row list \<Rightarrow> task list \<Rightarrow> bool" where
  "distinct_keys tbl ts \<longleftrightarrow>
     (\<forall>i < length ts. \<forall>j < length ts. i \<noteq> j \<longrightarrow> task_key tbl (ts ! i) \<noteq> None \<longrightarrow>
        task_key tbl (ts ! i) \<noteq> task_key tbl (ts ! j))"

definition pending_fresh :: "config \<Rightarrow> bool" where
  "pending_fresh c \<longleftrightarrow>
     (\<forall>student_id class_id today now'.
        Inserting student_id class_id today now' \<in> set (fst c) \<longrightarrow>
        (student_id, today) \<notin> ledger_of (snd c))"

definition race_free :: "student_row list \<Rightarrow> config \<Rightarrow> bool" where
  "race_free tbl c \<longleftrightarrow>
     wf_world (snd c) \<and> unique_per_day (snd c) \<and> students (snd c) = tbl \<and>
     distinct_keys tbl (fst c) \<and> pending_fresh c"

definition on_track :: "int \<Rightarrow> string \<Rightarrow> world \<Rightarrow> task \<Rightarrow> bool" where
  "on_track s d w t =
     (case t of
        Start name class_id \<Rightarrow> select_student_id (students w) name class_id = Some s
      | Connected name class_id \<Rightarrow> select_student_id (students w) name class_id = Some s
      | HaveStudent student_id class_id today \<Rightarrow> student_id = s \<and> today = d
      | Inserting student_id class_id today now' \<Rightarrow> student_id = s \<and> today = d
      | Closing r \<Rightarrow> \<not> isl r \<and> (s, d) \<in> ledger_of w
      | Done r \<Rightarrow> \<not> isl r \<and> (s, d) \<in> ledger_of w)"

definition live_inv :: "int \<Rightarrow> string \<Rightarrow> nat \<Rightarrow> config \<Rightarrow> bool" where
  "live_inv s d j c \<longleftrightarrow>
     steady (snd c) \<and> strftime_date (now (snd c)) = d \<and> j < length (fst c) \<and>
     on_track s d (snd c) (fst c ! j)"

definition race_schedule :: "nat list" where
  "race_schedule = [0, 1, 0, 1, 0, 1, 0, 1, 0, 1]"

definition two_calls :: "task list" where
  "two_calls = [Start ''Asha'' 3, Start ''Asha'' 3]"

section \<open>One task on its own\<close>

lemmas task_step_unfold = task_step_def get_db_connection_def db_call_def conn_close_def

lemma task_steps_mark_attendance:
  "task_steps 5 (Start name cid) w =
     (Done (fst (mark_attendance name cid w)), snd (mark_attendance name cid w))"
  by (auto simp: eval_nat_numeral task_step_def mark_attendance_unfold datetime_now_def conn_close_def returnE_def Let_def
      split: list.splits option.splits if_splits prod.splits sum.splits)

lemma task_step_Done [simp]: "task_step (Done r) w = (Done r, w)"
  by (simp add: task_step_def)

lemma task_steps_Done [simp]: "task_steps k (Done r) w = (Done r, w)"
  by (induction k) simp_all

section \<open>What every step keeps\<close>

lemma task_step_frame:
  assumes "task_step t w = (t', w')"
  shows "students w' = students w"
    and "\<exists>rows. attendance w' = attendance w @ rows \<and>
           list_all (\<lambda>r. a_status r = ''Present'') rows \<and> length rows \<le> 1"
    and "remaining t' \<le> remaining t - 1"
  using assms
  by (auto simp: task_step_unfold
      insert_attendance_def split: task.splits list.splits option.splits if_splits prod.splits)

lemma task_step_conns:
  assumes "task_step t w = (t', w')" and "holding t \<Longrightarrow> 0 < open_conns w"
  shows "open_conns w' + (if holding t then 1 else 0) =
         open_conns w + (if holding t' then 1 else 0)"
  using assms
  by (auto simp: task_step_unfold holding_def
      insert_attendance_def split: task.splits list.splits option.splits if_splits prod.splits)

lemma sched_step_conn_inv: "conn_inv n c \<Longrightarrow> conn_inv n (sched_step i c)"
  unfolding conn_inv_def by (rule resume_accounting) (rule task_step_conns)

lemma sched_step_grows: "grows_from w0 c \<Longrightarrow> grows_from w0 (sched_step i c)"
proof (cases c)
  case (Pair ts w)
  assume g: "grows_from w0 c"
  show ?thesis
  proof (cases "i < length ts")
    case False
    with Pair g show ?thesis by (simp add: resume_def)
  next
    case True
    obtain t' w' where st: "task_step (ts ! i) w = (t', w')" by (cases "task_step (ts ! i) w")
    from task_step_frame(1,2) [OF st] g Pair have "grows_from w0 (ts[i := t'], w')"
      by (auto simp: grows_from_def)
    with Pair True st show ?thesis by (simp add: resume_def)
  qed
qed

lemma reach_invariants:
  assumes "reach c c'"
  shows "length (fst c') = length (fst c)"
    and "conn_inv n c \<Longrightarrow> conn_inv n c'"
    and "grows_from w0 c \<Longrightarrow> grows_from w0 c'"
  using assms
  by (induction rule: reachable.induct) (simp_all add: sched_step_conn_inv sched_step_grows)

lemma held_all_done: "list_all is_done ts \<Longrightarrow> held ts = 0"
  by (induction ts) (auto simp: count_where_def is_done_def holding_def split: task.splits)

lemma held_all_start: "held (map (\<lambda>nc. Start (fst nc) (snd nc)) ncs) = 0"
  by (induction ncs) (auto simp: count_where_def holding_def)

section \<open>Progress\<close>

lemma run_schedule_remaining:
  "j < length (fst c) \<Longrightarrow>
   remaining (fst (run_schedule is c) ! j) \<le> remaining (fst c ! j) - count_list is j"
  by (rule run_loop_measure) (rule task_step_frame(3), rule surjective_pairing)

lemma remaining_0_iff: "remaining t = 0 \<longleftrightarrow> is_done t"
  by (cases t) (simp_all add: is_done_def)

lemma remaining_le_5: "remaining t \<le> 5"
  by (cases t) simp_all


lemma remaining_step: "remaining (fst (task_step t w)) \<le> remaining t - 1"
  by (rule task_step_frame(3)) (rule surjective_pairing)

lemma task_step_stop: "remaining t = 0 \<Longrightarrow> task_step t w = (t, w)"
  by (cases t) simp_all

lemma task_steps_enough: "remaining t \<le> k \<Longrightarrow> task_steps k t w = task_steps (remaining t) t w"
  using remaining_step task_step_stop by (rule steps_enough)

lemma task_steps_is_done: "remaining t \<le> k \<Longrightarrow> is_done (fst (task_steps k t w))"
  using steps_measure [of remaining task_step k t w, OF remaining_step]
  by (simp add: remaining_0_iff [symmetric])

section \<open>The rest of a call\<close>

lemma task_rest_Done [simp]: "task_rest (Done r) w = (r, w)"
  by (simp add: task_rest_def task_result_def)

lemma task_rest_Start: "task_rest (Start name cid) = mark_attendance name cid"
  by (rule ext) (simp add: task_rest_def task_steps_mark_attendance task_result_def)

lemma task_rest_step: "task_rest (fst (task_step t w)) (snd (task_step t w)) = task_rest t w"
proof -
  let ?t = "fst (task_step t w)" and ?w = "snd (task_step t w)"
  from remaining_step [of t w] remaining_le_5 [of t] have "remaining ?t \<le> 4" by simp
  from steps_absorb [of remaining task_step, OF remaining_step task_step_stop this, of ?w]
  have "task_steps 5 ?t ?w = task_steps 4 ?t ?w" by (simp add: eval_nat_numeral)
  also have "\<dots> = task_steps 5 t w" by (simp add: eval_nat_numeral case_prod_beta)
  finally show ?thesis by (simp add: task_rest_def)
qed

section \<open>Serial schedules\<close>

lemma run_serial_marks:
  "run_schedule (serial (length pre) (length ncs))
     (pre @ map (\<lambda>nc. Start (fst nc) (snd nc)) ncs, w) =
   (pre @ map Done (fst (mark_all ncs w)), snd (mark_all ncs w))"
  by (rule run_serial) (simp add: task_steps_mark_attendance)

lemma mark_all_invariant:
  "wf_world w \<and> unique_per_day w \<Longrightarrow>
   wf_world (snd (mark_all ncs w)) \<and> unique_per_day (snd (mark_all ncs w))"
  by (rule run_all_invariant) (rule preserves_mark_attendance)

section \<open>Two calls for one student\<close>

lemma race_run:
  "run_schedule race_schedule (two_calls, demo_world) =
     ([Done (Inr True), Done (Inr True)],
      demo_world\<lparr>attendance := [present_row 1 7 3 ''2024-03-09'' ''08:05:00'',
                                 present_row 2 7 3 ''2024-03-09'' ''08:05:00''],
                 attendance_seq := 3\<rparr>)"
  by (simp add: race_schedule_def two_calls_def resume_def task_step_unfold insert_attendance_def demo_world_def
      select_student_id_def select_attendance_id_def py_truthy_def tick_def
      strftime_date_eval strftime_time_eval present_row_def)


section \<open>Calls for different students\<close>

lemma task_step_key:
  assumes "task_step t w = (t', w')"
  shows "task_key (students w) t' = None \<or> task_key (students w) t' = task_key (students w) t"
  using assms
  by (auto simp: task_step_def task_key_def get_db_connection_def db_call_def py_truthy_def
      split: task.splits list.splits option.splits if_splits prod.splits)

lemma task_step_ledger:
  assumes "task_step t w = (t', w')" and "wf_world w"
  shows "wf_world w'"
    and "(attendance w' = attendance w \<and> (\<forall>s c d n. t' = Inserting s c d n \<longrightarrow>
            (s, d) \<notin> ledger_of w \<and> t = HaveStudent s c d)) \<or>
         (\<exists>s c d n. t = Inserting s c d n \<and> t' = Closing (Inr True) \<and>
            attendance w' = attendance w @ [present_row (attendance_seq w) s c d n])"
proof -
  from assms(2) have pos: "list_all (\<lambda>r. 0 < a_id r) (attendance w)" by (simp add: wf_world_def)
  from assms show "wf_world w'"
    by (auto simp: task_step_unfold
        insert_attendance_def wf_world_def tick_def
        split: task.splits list.splits option.splits if_splits prod.splits)
  from assms(1) py_truthy_select_attendance_id [OF pos]
  show "(attendance w' = attendance w \<and> (\<forall>s c d n. t' = Inserting s c d n \<longrightarrow>
            (s, d) \<notin> ledger_of w \<and> t = HaveStudent s c d)) \<or>
         (\<exists>s c d n. t = Inserting s c d n \<and> t' = Closing (Inr True) \<and>
            attendance w' = attendance w @ [present_row (attendance_seq w) s c d n])"
    by (auto simp: task_step_unfold
        insert_attendance_def present_row_def ledger_of_def
        split: task.splits list.splits option.splits if_splits prod.splits)
qed

lemma distinct_keys_update:
  assumes "distinct_keys tbl ts" and "i < length ts"
    and "task_key tbl t' = None \<or> task_key tbl t' = task_key tbl (ts ! i)"
  shows "distinct_keys tbl (ts[i := t'])"
  unfolding distinct_keys_def
proof (intro allI impI)
  fix j k
  assume jk: "j < length (ts[i := t'])" "k < length (ts[i := t'])" "j \<noteq> k"
    and some: "task_key tbl (ts[i := t'] ! j) \<noteq> None"
  from assms(1) jk have d: "task_key tbl (ts ! a) \<noteq> None \<Longrightarrow> a \<noteq> b \<Longrightarrow> a < length ts \<Longrightarrow>
      b < length ts \<Longrightarrow> task_key tbl (ts ! a) \<noteq> task_key tbl (ts ! b)" for a b
    by (simp add: distinct_keys_def)
  from jk some assms(2,3) d [of j k] d [of i k] d [of j i] d [of k j] d [of k i]
  show "task_key tbl (ts[i := t'] ! j) \<noteq> task_key tbl (ts[i := t'] ! k)"
    by (auto simp: nth_list_update split: if_splits)
qed

lemma distinct_keysD:
  "distinct_keys tbl ts \<Longrightarrow> i < length ts \<Longrightarrow> j < length ts \<Longrightarrow> i \<noteq> j \<Longrightarrow>
   task_key tbl (ts ! i) = Some s \<Longrightarrow> task_key tbl (ts ! j) \<noteq> Some s"
  unfolding distinct_keys_def by (metis option.distinct(1))

lemma pending_freshD:
  "pending_fresh (ts, w) \<Longrightarrow> Inserting s c d n \<in> set ts \<Longrightarrow> (s, d) \<notin> ledger_of w"
  unfolding pending_fresh_def by auto

lemma pending_freshI:
  "(\<And>s c d n. Inserting s c d n \<in> set ts \<Longrightarrow> (s, d) \<notin> ledger_of w) \<Longrightarrow> pending_fresh (ts, w)"
  unfolding pending_fresh_def by auto

lemma pending_fresh_same_table:
  assumes "pending_fresh (ts, w)" and "attendance w' = attendance w"
    and "\<forall>s c d n. t' = Inserting s c d n \<longrightarrow> (s, d) \<notin> ledger_of w \<and> ts ! i = HaveStudent s c d"
  shows "pending_fresh (ts[i := t'], w')"
proof (rule pending_freshI)
  fix s c d n
  assume "Inserting s c d n \<in> set (ts[i := t'])"
  with set_update_subset_insert [of ts i t']
  have "Inserting s c d n = t' \<or> Inserting s c d n \<in> set ts" by auto
  moreover from assms(2) have "ledger_of w' = ledger_of w" by (simp add: ledger_of_def)
  ultimately show "(s, d) \<notin> ledger_of w'"
    using assms(3) pending_freshD [OF assms(1)] by metis
qed

lemma pending_fresh_shrink:
  assumes "pending_fresh (ts, w)" and "ledger_of w' \<subseteq> ledger_of w"
    and "\<forall>s c d n. t' \<noteq> Inserting s c d n"
  shows "pending_fresh (ts[i := t'], w')"
proof (rule pending_freshI)
  fix s c d n
  assume "Inserting s c d n \<in> set (ts[i := t'])"
  with set_update_subset_insert [of ts i t'] assms(3) have "Inserting s c d n \<in> set ts" by auto
  with assms(1) have "(s, d) \<notin> ledger_of w" by (rule pending_freshD)
  with assms(2) show "(s, d) \<notin> ledger_of w'" by auto
qed

lemma pending_fresh_insert:
  assumes pf: "pending_fresh (ts, w)" and dk: "distinct_keys tbl ts" and i: "i < length ts"
    and ins: "ts ! i = Inserting s c d n"
    and app: "attendance w' = attendance w @ [present_row k s c d n]"
    and u: "unique_per_day w"
  shows "unique_per_day w' \<and> pending_fresh (ts[i := Closing r], w')"
proof
  from nth_mem [OF i] ins have "Inserting s c d n \<in> set ts" by simp
  with pf have "(s, d) \<notin> ledger_of w" by (rule pending_freshD)
  with u app show "unique_per_day w'" by (simp add: unique_per_day_def ledger_of_def)
  show "pending_fresh (ts[i := Closing r], w')"
  proof (rule pending_freshI)
    fix s2 c2 d2 n2
    assume "Inserting s2 c2 d2 n2 \<in> set (ts[i := Closing r])"
    then obtain j where j: "j < length ts" "ts[i := Closing r] ! j = Inserting s2 c2 d2 n2"
      by (auto simp: in_set_conv_nth)
    with i have ji: "j \<noteq> i" "ts ! j = Inserting s2 c2 d2 n2"
      by (auto simp: nth_list_update split: if_splits)
    from ins have "task_key tbl (ts ! i) = Some s" by (simp add: task_key_def)
    from distinct_keysD [OF dk i j(1) ji(1) [symmetric] this] ji(2) have "s2 \<noteq> s"
      by (simp add: task_key_def)
    moreover from ji(2) nth_mem [OF j(1)] have "Inserting s2 c2 d2 n2 \<in> set ts" by simp
    with pf have "(s2, d2) \<notin> ledger_of w" by (rule pending_freshD)
    ultimately show "(s2, d2) \<notin> ledger_of w'" using app by (simp add: ledger_of_def)
  qed
qed

lemma ledger_step_fresh:
  assumes pf: "pending_fresh (ts, w)" and dk: "distinct_keys tbl ts" and i: "i < length ts"
    and u: "unique_per_day w"
    and step: "(attendance w' = attendance w \<and> (\<forall>s c d n. t' = Inserting s c d n \<longrightarrow>
            (s, d) \<notin> ledger_of w \<and> ts ! i = HaveStudent s c d)) \<or>
         (\<exists>s c d n. ts ! i = Inserting s c d n \<and> t' = Closing (Inr True) \<and>
            attendance w' = attendance w @ [present_row (attendance_seq w) s c d n])"
  shows "unique_per_day w' \<and> pending_fresh (ts[i := t'], w')"
  using pending_fresh_same_table [OF pf, of w' t' i]
    pending_fresh_insert [OF pf dk i _ _ u, of _ _ _ _ w'] u step
  by (auto simp: unique_per_day_def)

lemma ledger_step_filter:
  assumes pf: "pending_fresh (ts, w)" and u: "unique_per_day w"
    and del: "attendance w' = filter P (attendance w)"
    and t': "\<forall>s c d n. t' \<noteq> Inserting s c d n"
  shows "unique_per_day w' \<and> pending_fresh (ts[i := t'], w')"
proof
  from u del show "unique_per_day w'" by (simp add: unique_per_day_def distinct_map_filter)
  from del have "ledger_of w' \<subseteq> ledger_of w" by (auto simp: ledger_of_def)
  with pf show "pending_fresh (ts[i := t'], w')" using t' by (rule pending_fresh_shrink)
qed

lemma distinct_keys_family:
  assumes d: "disjoint_family keys xs"
    and sub: "\<And>x. set_option (task_key tbl (tsk x)) \<subseteq> keys x"
  shows "distinct_keys tbl (map tsk xs)"
  unfolding distinct_keys_def
proof (intro allI impI)
  fix a b
  assume ab: "a < length (map tsk xs)" "b < length (map tsk xs)" "a \<noteq> b"
    and some: "task_key tbl (map tsk xs ! a) \<noteq> None"
  then obtain s where s: "task_key tbl (tsk (xs ! a)) = Some s" by auto
  with sub [of "xs ! a"] have "s \<in> keys (xs ! a)" by simp
  with d ab have "s \<notin> keys (xs ! b)" by (auto dest: disjoint_familyD)
  with sub [of "xs ! b"] have "task_key tbl (tsk (xs ! b)) \<noteq> Some s" by auto
  with s ab show "task_key tbl (map tsk xs ! a) \<noteq> task_key tbl (map tsk xs ! b)" by simp
qed

lemma sched_step_race_free:
  assumes "race_free tbl c"
  shows "race_free tbl (sched_step i c)"
proof (cases c)
  case (Pair ts w)
  with assms have wf: "wf_world w" and u: "unique_per_day w" and st: "students w = tbl"
    and dk: "distinct_keys tbl ts" and pf: "pending_fresh (ts, w)"
    by (simp_all add: race_free_def)
  show ?thesis
  proof (cases "i < length ts")
    case False
    with Pair assms show ?thesis by (simp add: resume_def)
  next
    case True
    obtain t' w' where step: "task_step (ts ! i) w = (t', w')" by (cases "task_step (ts ! i) w")
    from task_step_key [OF step] st have "distinct_keys tbl (ts[i := t'])"
      by (intro distinct_keys_update [OF dk True]) simp
    moreover from task_step_frame(1) [OF step] st have "students w' = tbl" by simp
    moreover note task_step_ledger(1) [OF step wf]
    moreover from task_step_ledger(2) [OF step wf]
    have "unique_per_day w' \<and> pending_fresh (ts[i := t'], w')"
      by (rule ledger_step_fresh [OF pf dk True u])
    ultimately show ?thesis using Pair True step by (simp add: resume_def race_free_def)
  qed
qed

lemma reach_race_free: "reach c c' \<Longrightarrow> race_free tbl c \<Longrightarrow> race_free tbl c'"
  by (induction rule: reachable.induct) (simp_all add: sched_step_race_free)

lemma pending_fresh_start: "pending_fresh (map (\<lambda>nc. Start (fst nc) (snd nc)) ncs, w)"
  by (auto simp: pending_fresh_def)

section \<open>Fair schedules on a steady day\<close>

lemma steady_update [simp]:
  "steady (w\<lparr>open_conns := n\<rparr>) = steady w"
  by (simp add: steady_def wf_world_def same_day_def)

lemma ledger_of_open_conns [simp]: "ledger_of (w\<lparr>open_conns := n\<rparr>) = ledger_of w"
  by (simp add: ledger_of_def)

lemma task_step_steady:
  assumes "steady w" and "task_step t w = (t', w')"
  shows "steady w'" and "strftime_date (now w') = strftime_date (now w)"
    and "ledger_of w \<subseteq> ledger_of w'"
proof -
  from assms(1) have nf: "faults w = []" by (simp add: steady_def)
  note tk = steady_tick [OF assms(1)]
  have ins: "steady (insert_attendance s c d n st w)" for s c d n st
    using assms(1) by (simp add: steady_def wf_world_def)
  from assms nf tk ins
  have "steady w' \<and> strftime_date (now w') = strftime_date (now w) \<and> ledger_of w \<subseteq> ledger_of w'"
    by (auto simp: task_step_def get_db_connection_def conn_close_def db_call_ok
        split: task.splits if_splits)
  then show "steady w'" and "strftime_date (now w') = strftime_date (now w)"
    and "ledger_of w \<subseteq> ledger_of w'"
    by simp_all
qed

lemma task_step_on_track:
  assumes "steady w" and "s \<noteq> 0" and "on_track s (strftime_date (now w)) w t"
    and "task_step t w = (t', w')"
  shows "on_track s (strftime_date (now w)) w' t'"
proof -
  from assms(1) have nf: "faults w = []"
    and pos: "list_all (\<lambda>r. 0 < a_id r) (attendance w)"
    by (simp_all add: steady_def wf_world_def)
  from assms(2-4) nf py_truthy_select_attendance_id [OF pos] show ?thesis
    by (auto simp: on_track_def task_step_def get_db_connection_def conn_close_def db_call_ok
        py_truthy_def ledger_of_def att_key_def split: task.splits if_splits)
qed

lemma on_track_mono:
  "on_track s d w t \<Longrightarrow> students w' = students w \<Longrightarrow> ledger_of w \<subseteq> ledger_of w' \<Longrightarrow>
   on_track s d w' t"
  by (auto simp: on_track_def split: task.splits)

lemma run_schedule_live_inv:
  assumes "live_inv s d j c" and "s \<noteq> 0"
  shows "live_inv s d j (run_schedule is c)"
proof -
  let ?G = "\<lambda>w. steady w \<and> strftime_date (now w) = d"
  let ?R = "\<lambda>w w'. students w' = students w \<and> ledger_of w \<subseteq> ledger_of w'"
  have "?G (snd (run_schedule is c)) \<and> on_track s d (snd (run_schedule is c)) (fst (run_schedule is c) ! j)"
  proof (rule run_loop_tracked [where R = ?R])
    show "on_track s d w' t'" if "?G w" "on_track s d w t" "task_step t w = (t', w')" for t w t' w'
      using task_step_on_track [of w s t t' w'] that assms(2) by auto
    show "?G w' \<and> ?R w w'" if "?G w" "task_step t w = (t', w')" for t w t' w'
      using task_step_steady [of w t t' w'] task_step_frame(1) [OF that(2)] that by simp
  qed (use assms(1) in \<open>auto simp: live_inv_def intro: on_track_mono\<close>)
  with assms(1) show ?thesis by (simp add: live_inv_def)
qed

lemma not_isl_iff: "\<not> isl r \<longleftrightarrow> (\<exists>b. r = Inr b)"
  by (cases r) simp_all

lemma on_track_done:
  "on_track s d w t \<Longrightarrow> is_done t \<Longrightarrow> (\<exists>b. t = Done (Inr b)) \<and> (s, d) \<in> ledger_of w"
  by (cases t) (simp_all add: on_track_def is_done_def not_isl_iff)

section \<open>Properties\<close>

text \<open>
  C8: The small-step model agrees with \<^verbatim>\<open>mark_attendance\<close>.  A call that is scheduled
  five times in a row, from its start and with nothing running in between, ends in
  the result and in the world that \<^verbatim>\<open>mark_attendance\<close> yields, under every script of
  storage faults.
\<close>

theorem task_refines_mark_attendance:
  "task_steps 5 (Start name cid) w = (Done r, w') \<longleftrightarrow> mark_attendance name cid w = (r, w')"
  by (auto simp: task_steps_mark_attendance)


text \<open>
  A serial schedule - every call scheduled five times before the next one
  starts - computes what the calls of \<^verbatim>\<open>mark_attendance\<close> compute one after another:
  the same results in the same order and the same final world.
\<close>

theorem serial_schedule_refines_mark_all:
  "run_schedule (serial 0 (length ncs)) (map (\<lambda>nc. Start (fst nc) (snd nc)) ncs, w) =
     (map Done (fst (mark_all ncs w)), snd (mark_all ncs w))"
  using run_serial_marks [of "[]" ncs w] by simp

text \<open>
  Under a serial schedule the one-record-per-student-per-day invariant is kept:
  it is the interleaving, not the calls, that produces duplicates.
\<close>

theorem serial_schedule_keeps_unique:
  assumes "wf_world w" and "unique_per_day w"
  shows "unique_per_day
    (snd (run_schedule (serial 0 (length ncs)) (map (\<lambda>nc. Start (fst nc) (snd nc)) ncs, w)))"
  using assms mark_all_invariant [of w ncs] run_serial_marks [of "[]" ncs w] by simp

theorem serial_schedule_keeps_unique_witness:
  "wf_world demo_world \<and> unique_per_day demo_world \<and>
   unique_per_day (snd (run_schedule (serial 0 2) (two_calls, demo_world)))"
  using serial_schedule_keeps_unique [of demo_world "[(''Asha'', 3), (''Asha'', 3)]"]
  by (simp add: demo_world_facts two_calls_def numeral_2_eq_2)

text \<open>
  Along every interleaving of calls of \<^verbatim>\<open>mark_attendance\<close>, the students table
  stays as it is, attendance rows are only appended and are Present rows, and the
  number of open connections exceeds the initial number by the number of calls that
  are between their connect and their close; when all calls have finished, every
  connection has been closed.
\<close>

theorem interleaving_invariants:
  assumes "reach (map (\<lambda>nc. Start (fst nc) (snd nc)) ncs, w) (ts, w')"
  shows "length ts = length ncs \<and> students w' = students w \<and>
         (\<exists>rows. attendance w' = attendance w @ rows \<and>
            list_all (\<lambda>r. a_status r = ''Present'') rows) \<and>
         open_conns w' = open_conns w + held ts \<and>
         (list_all is_done ts \<longrightarrow> open_conns w' = open_conns w)"
proof -
  let ?c = "(map (\<lambda>nc. Start (fst nc) (snd nc)) ncs, w)"
  note inv = reach_invariants [OF assms]
  have "conn_inv (open_conns w) ?c" by (simp add: conn_inv_def held_all_start)
  then have "conn_inv (open_conns w) (ts, w')" by (rule inv(2))
  moreover have "grows_from w ?c" by (simp add: grows_from_def)
  then have "grows_from w (ts, w')" by (rule inv(3))
  ultimately show ?thesis using inv(1)
    by (auto simp: conn_inv_def grows_from_def held_all_done)
qed

theorem interleaving_invariants_witness:
  "reach (two_calls, demo_world) (run_schedule race_schedule (two_calls, demo_world)) \<and>
   open_conns (snd (run_schedule race_schedule (two_calls, demo_world))) = open_conns demo_world \<and>
   students (snd (run_schedule race_schedule (two_calls, demo_world))) = students demo_world"
proof -
  have r: "reach (map (\<lambda>nc. Start (fst nc) (snd nc)) [(''Asha'', 3), (''Asha'', 3)], demo_world)
      ([Done (Inr True), Done (Inr True)],
       demo_world\<lparr>attendance := [present_row 1 7 3 ''2024-03-09'' ''08:05:00'',
                                 present_row 2 7 3 ''2024-03-09'' ''08:05:00''],
                 attendance_seq := 3\<rparr>)"
    using reachable_run_loop [of task_step "(two_calls, demo_world)" race_schedule]
    by (simp add: race_run) (simp add: two_calls_def)
  from interleaving_invariants [OF r] r show ?thesis
    by (simp add: race_run) (simp add: two_calls_def)
qed

text \<open>
  Every call finishes.  Whatever the other calls do and whatever the storage
  answers, a call that has been scheduled five times is done.
\<close>

theorem task_finishes_in_five_steps:
  assumes "j < length ts" and "5 \<le> count_list is j"
  shows "is_done (fst (run_schedule is (ts, w)) ! j)"
proof -
  from run_schedule_remaining [of j "(ts, w)" "is"] assms remaining_le_5 [of "ts ! j"]
  have "remaining (fst (run_schedule is (ts, w)) ! j) = 0" by simp
  then show ?thesis by (simp add: remaining_0_iff)
qed

theorem task_finishes_in_five_steps_witness:
  "(1::nat) < length two_calls \<and> 5 \<le> count_list race_schedule 1 \<and>
   is_done (fst (run_schedule race_schedule (two_calls, demo_world)) ! 1)"
  using task_finishes_in_five_steps [of 1 two_calls race_schedule demo_world]
  by (simp add: two_calls_def race_schedule_def)

text \<open>
  C13: The race needs two calls for the same student.  When no two of the calls
  resolve to the same student key, the one-record-per-student-per-day invariant
  holds in every configuration that any interleaving of the calls can reach.
\<close>

theorem distinct_students_never_race:
  assumes "wf_world w" and "unique_per_day w"
    and "distinct_keys (students w) (map (\<lambda>nc. Start (fst nc) (snd nc)) ncs)"
    and "reach (map (\<lambda>nc. Start (fst nc) (snd nc)) ncs, w) (ts, w')"
  shows "unique_per_day w' \<and> wf_world w'"
proof -
  from assms(1-3) have "race_free (students w) (map (\<lambda>nc. Start (fst nc) (snd nc)) ncs, w)"
    by (simp add: race_free_def pending_fresh_start)
  from reach_race_free [OF assms(4) this] show ?thesis by (simp add: race_free_def)
qed

theorem distinct_students_never_race_witness:
  "wf_world demo_world \<and> unique_per_day demo_world \<and>
   distinct_keys (students demo_world) [Start ''Asha'' 3, Start ''Ravi'' 3] \<and>
   reach ([Start ''Asha'' 3, Start ''Ravi'' 3], demo_world)
     (run_schedule race_schedule ([Start ''Asha'' 3, Start ''Ravi'' 3], demo_world)) \<and>
   unique_per_day
     (snd (run_schedule race_schedule ([Start ''Asha'' 3, Start ''Ravi'' 3], demo_world)))"
proof -
  have d: "distinct_keys (students demo_world)
      (map (\<lambda>nc. Start (fst nc) (snd nc)) [(''Asha'', 3), (''Ravi'', 3)])"
    by (auto simp: distinct_keys_def task_key_def demo_world_facts nth_Cons split: nat.splits)
  have r: "reach (map (\<lambda>nc. Start (fst nc) (snd nc)) [(''Asha'', 3), (''Ravi'', 3)], demo_world)
      (fst (run_schedule race_schedule ([Start ''Asha'' 3, Start ''Ravi'' 3], demo_world)),
       snd (run_schedule race_schedule ([Start ''Asha'' 3, Start ''Ravi'' 3], demo_world)))"
    using reachable_run_loop [of task_step "([Start ''Asha'' 3, Start ''Ravi'' 3], demo_world)" race_schedule]
    by simp
  from distinct_students_never_race [OF demo_world_facts(1,2) d r] d r show ?thesis
    by (simp add: demo_world_facts)
qed

text \<open>
  C15: Every recognised student is eventually recorded.  On a steady day - the
  storage up, the clock staying on one day - and under any interleaving with any
  other calls, a call for a student of the class (with a key other than 0) that has
  been scheduled five times has returned without an exception, and the table holds
  a record for that student and today: its own, or one that another call wrote
  first.
\<close>

theorem fair_schedule_marks_student:
  assumes "steady w" and "j < length ncs"
    and "select_student_id (students w) (fst (ncs ! j)) (snd (ncs ! j)) = Some s" and "s \<noteq> 0"
    and "5 \<le> count_list is j"
  shows "(\<exists>b. fst (run_schedule is (map (\<lambda>nc. Start (fst nc) (snd nc)) ncs, w)) ! j = Done (Inr b)) \<and>
         (s, strftime_date (now w)) \<in>
           ledger_of (snd (run_schedule is (map (\<lambda>nc. Start (fst nc) (snd nc)) ncs, w)))"
proof -
  let ?c = "(map (\<lambda>nc. Start (fst nc) (snd nc)) ncs, w)"
  let ?d = "strftime_date (now w)"
  from assms(1-3) have "live_inv s ?d j ?c" by (simp add: live_inv_def on_track_def)
  then have "live_inv s ?d j (run_schedule is ?c)" using assms(4) by (rule run_schedule_live_inv)
  then have "on_track s ?d (snd (run_schedule is ?c)) (fst (run_schedule is ?c) ! j)"
    by (simp add: live_inv_def)
  moreover from run_schedule_remaining [of j ?c "is"] assms(2,5) remaining_le_5 [of "fst ?c ! j"]
  have "is_done (fst (run_schedule is ?c) ! j)" by (simp add: remaining_0_iff [symmetric])
  ultimately show ?thesis by (rule on_track_done)
qed

theorem fair_schedule_marks_student_witness:
  "steady demo_world \<and> (1::nat) < length [(''Asha'', 3::int), (''Asha'', 3)] \<and>
   select_student_id (students demo_world) ''Asha'' 3 = Some 7 \<and>
   5 \<le> count_list race_schedule 1 \<and>
   (7, ''2024-03-09'') \<in> ledger_of (snd (run_schedule race_schedule (two_calls, demo_world)))"
  using fair_schedule_marks_student [of demo_world 1 "[(''Asha'', 3), (''Asha'', 3)]" 7 race_schedule]
  by (simp add: demo_world_steady demo_world_facts race_schedule_def two_calls_def)

end
