(* ===== verification/Requests.thy ===== *)
theory Requests
  imports Recognition Interleaving
begin

text \<open>
  Concurrent recognition requests (lines 127-179 on the event loop).

  \<^verbatim>\<open>recognize_faces_in_image\<close> awaits only inside \<^verbatim>\<open>mark_attendance\<close> (line 169):
  decoding, detection, matching and the box arithmetic run without suspension.  A
  \<open>job\<close> is a request between two suspension points:
  \<^item> \<open>Pending image_base64 class_id\<close>: the request has arrived and its handler has
    not run;
  \<^item> \<open>Marking shape class_id fcs recognized marked_names name t\<close>: the handler is
    inside the loop of line 148, suspended in the call \<open>t\<close> of \<^verbatim>\<open>mark_attendance\<close>
    for the face matched as \<open>name\<close>; \<open>fcs\<close> are the faces still to come,
    \<open>recognized\<close> and \<open>marked_names\<close> the two result lists as they are at line 169;
  \<^item> \<open>Finished r\<close>: the handler has returned \<open>r\<close> or raised.
  \<open>next_face\<close> is the loop from the head of the iteration to the next \<^verbatim>\<open>await\<close> (or to
  the \<^verbatim>\<open>return\<close> of line 173); \<open>after_mark\<close> is the code after a step of the call in
  progress; \<open>failed\<close> is the handler of lines 178-179; \<open>job_step\<close> is one step of a
  request.  Requests are scheduled by the event loop of theory \<open>Event_Loop\<close>.

  \<open>decoded\<close> is what a request reads of its image (the shape of the frame and the
  detected faces), \<open>well_shaped\<close> says that the embeddings have the dimension of the
  index, \<open>heading w name cid t\<close> that the call \<open>t\<close> of \<^verbatim>\<open>mark_attendance\<close> is on its way to
  a record for the student, and \<open>job_live\<close> is the invariant of a request on a steady
  day: what it has recognised is a prefix of the accepted matches of its frame,
  and every student it is done with has a record.
  \<open>job_faces\<close> are the faces a request has recognised so far, and \<open>accepted_by\<close> says
  that a reported face is an accepted match of the service.

  \<open>job_rest j\<close> is the meaning of what is left of a request, as an action of the
  sequential model; every step preserves it (\<open>job_rest_step\<close>), which gives the
  refinement.  \<open>job_remaining\<close> bounds the steps a request can still take: one to
  reach the loop and at most five per face.  \<open>job_keys\<close> are the student keys a
  request may still write a record for.

  Proved here: a request that runs alone computes what
  \<open>recognize_faces_in_image\<close> computes, under every script of storage faults; every
  request finishes after at most \<open>1 + 5 * faces\<close> steps whatever the other requests
  do; along every interleaving the students table is fixed, rows are only appended
  and the open connections are those of the requests suspended between connect
  and close; two requests that show the same student can both record the
  student; requests over pairwise disjoint sets of students keep one record per
  student and day; on a steady day a well-shaped request returns the accepted
  matches of its frame under every interleaving, and every reported student of
  the class then has a record.
\<close>

section \<open>Definitions\<close>

datatype job =
    Pending string int
  | Marking "nat \<times> nat" int "face list" "recognized_face list" "string list" string task
  | Finished "exn + recognition_result"

definition failed :: "exn \<Rightarrow> job" where
  "failed e = Finished (Inl (HTTPException 500 (''Recognition failed: '' @ exn_str e)))"

fun next_face ::
  "service \<Rightarrow> nat \<times> nat \<Rightarrow> int \<Rightarrow> face list \<Rightarrow> recognized_face list \<times> string list \<Rightarrow> job" where
  "next_face svc shape class_id [] acc =
     Finished (Inr \<lparr>recognized_faces = fst acc, attendance_marked = snd acc\<rparr>)"
| "next_face svc shape class_id (fc # fcs) acc =
     (let box = reconcile_bbox shape (bbox fc) in
      case match_face svc (embedding fc) of
        Inl e \<Rightarrow> failed e
      | Inr None \<Rightarrow> next_face svc shape class_id fcs acc
      | Inr (Some (name, D)) \<Rightarrow>
          Marking shape class_id fcs
            (fst acc @ [\<lparr>rf_name = name, rf_confidence = D, rf_bbox = box\<rparr>]) (snd acc) name
            (Start name class_id))"

definition after_mark ::
  "service \<Rightarrow> nat \<times> nat \<Rightarrow> int \<Rightarrow> face list \<Rightarrow> recognized_face list \<Rightarrow> string list \<Rightarrow> string \<Rightarrow>
   task \<Rightarrow> job" where
  "after_mark svc shape class_id fcs recognized marked_names name t =
     (case t of
        Done r \<Rightarrow>
          (case r of
             Inl e \<Rightarrow> failed e
           | Inr marked \<Rightarrow>
               next_face svc shape class_id fcs
                 (recognized, if marked then marked_names @ [name] else marked_names))
      | _ \<Rightarrow> Marking shape class_id fcs recognized marked_names name t)"

definition job_step :: "collab \<Rightarrow> service \<Rightarrow> job \<Rightarrow> world \<Rightarrow> job \<times> world" where
  "job_step ext svc j w =
     (case j of
        Pending image_base64 class_id \<Rightarrow>
          (case b64decode ext image_base64 of
             Inl e \<Rightarrow> (failed e, w)
           | Inr image_data \<Rightarrow>
               (case imdecode ext image_data of
                  None \<Rightarrow> (failed (HTTPException 400 ''Invalid image data''), w)
                | Some fr \<Rightarrow>
                    (case get_faces ext fr of
                       Inl e \<Rightarrow> (failed e, w)
                     | Inr faces \<Rightarrow>
                         (next_face svc (height fr, width fr) class_id faces ([], []), w))))
      | Marking shape class_id fcs recognized marked_names name t \<Rightarrow>
          (case task_step t w of
             (t', w') \<Rightarrow> (after_mark svc shape class_id fcs recognized marked_names name t', w'))
      | Finished r \<Rightarrow> (Finished r, w))"

definition finish_request ::
  "(recognized_face list \<times> string list, world) act \<Rightarrow> (recognition_result, world) act" where
  "finish_request loop =
     catchE
       (bindE loop (\<lambda>acc. returnE \<lparr>recognized_faces = fst acc, attendance_marked = snd acc\<rparr>))
       (\<lambda>e. raiseE (HTTPException 500 (''Recognition failed: '' @ exn_str e)))"

fun job_rest :: "collab \<Rightarrow> service \<Rightarrow> job \<Rightarrow> (recognition_result, world) act" where
  "job_rest ext svc (Pending image_base64 class_id) =
     recognize_faces_in_image ext svc image_base64 class_id"
| "job_rest ext svc (Marking shape class_id fcs recognized marked_names name t) =
     finish_request
       (bindE
          (bindE (task_rest t) (\<lambda>marked.
             returnE (recognized, if marked then marked_names @ [name] else marked_names)))
          (process_faces svc shape class_id fcs))"
| "job_rest ext svc (Finished r) = (\<lambda>w. (r, w))"

definition detected :: "collab \<Rightarrow> string \<Rightarrow> face list" where
  "detected ext image_base64 =
     (case b64decode ext image_base64 of
        Inl e \<Rightarrow> []
      | Inr image_data \<Rightarrow>
          (case imdecode ext image_data of
             None \<Rightarrow> []
           | Some fr \<Rightarrow> (case get_faces ext fr of Inl e \<Rightarrow> [] | Inr faces \<Rightarrow> faces)))"

fun job_remaining :: "collab \<Rightarrow> job \<Rightarrow> nat" where
  "job_remaining ext (Pending image_base64 class_id) = 1 + 5 * length (detected ext image_base64)"
| "job_remaining ext (Marking shape class_id fcs recognized marked_names name t) =
     max 1 (remaining t) + 5 * length fcs"
| "job_remaining ext (Finished r) = 0"

definition is_finished :: "job \<Rightarrow> bool" where
  "is_finished j = (case j of Finished r \<Rightarrow> True | _ \<Rightarrow> False)"

definition job_task :: "job \<Rightarrow> task" where
  "job_task j =
     (case j of
        Marking shape class_id fcs recognized marked_names name t \<Rightarrow> t
      | _ \<Rightarrow> Done (Inr False))"

definition face_key :: "service \<Rightarrow> student_row list \<Rightarrow> int \<Rightarrow> face \<Rightarrow> int option" where
  "face_key svc tbl class_id fc =
     (case match_face svc (embedding fc) of
        Inr (Some (name, D)) \<Rightarrow> select_student_id tbl name class_id
      | _ \<Rightarrow> None)"

definition face_keys :: "service \<Rightarrow> student_row list \<Rightarrow> int \<Rightarrow> face list \<Rightarrow> int set" where
  "face_keys svc tbl class_id fcs = set (List.map_filter (face_key svc tbl class_id) fcs)"

definition job_keys :: "collab \<Rightarrow> service \<Rightarrow> student_row list \<Rightarrow> job \<Rightarrow> int set" where
  "job_keys ext svc tbl j =
     (case j of
        Pending image_base64 class_id \<Rightarrow> face_keys svc tbl class_id (detected ext image_base64)
      | Marking shape class_id fcs recognized marked_names name t \<Rightarrow>
          set_option (task_key tbl t) \<union> face_keys svc tbl class_id fcs
      | Finished r \<Rightarrow> {})"

definition disjoint_keys :: "collab \<Rightarrow> service \<Rightarrow> student_row list \<Rightarrow> job list \<Rightarrow> bool" where
  "disjoint_keys ext svc tbl js = disjoint_family (job_keys ext svc tbl) js"

definition jobs_race_free :: "collab \<Rightarrow> service \<Rightarrow> student_row list \<Rightarrow> job list \<times> world \<Rightarrow> bool" where
  "jobs_race_free ext svc tbl c \<longleftrightarrow>
     wf_world (snd c) \<and> unique_per_day (snd c) \<and> students (snd c) = tbl \<and>
     disjoint_keys ext svc tbl (fst c) \<and> pending_fresh (map job_task (fst c), snd c)"

definition accepted_by :: "service \<Rightarrow> recognized_face \<Rightarrow> bool" where
  "accepted_by svc x \<longleftrightarrow> (\<exists>e. match_face svc e = Inr (Some (rf_name x, rf_confidence x)))"

definition job_faces :: "job \<Rightarrow> recognized_face list" where
  "job_faces j =
     (case j of
        Marking shape cid fcs recognized marked_names name t \<Rightarrow> recognized
      | Finished (Inr res) \<Rightarrow> recognized_faces res
      | _ \<Rightarrow> [])"

definition decoded :: "collab \<Rightarrow> string \<Rightarrow> ((nat \<times> nat) \<times> face list) option" where
  "decoded ext image_base64 =
     (case b64decode ext image_base64 of
        Inl e \<Rightarrow> None
      | Inr image_data \<Rightarrow>
          (case imdecode ext image_data of
             None \<Rightarrow> None
           | Some fr \<Rightarrow>
               (case get_faces ext fr of
                  Inl e \<Rightarrow> None
                | Inr faces \<Rightarrow> Some ((height fr, width fr), faces))))"

definition well_shaped :: "service \<Rightarrow> face list \<Rightarrow> bool" where
  "well_shaped svc fcs = list_all (\<lambda>fc. length (embedding fc) = ix_dim (index svc)) fcs"

definition heading :: "world \<Rightarrow> string \<Rightarrow> int \<Rightarrow> task \<Rightarrow> bool" where
  "heading w name cid t =
     (case t of
        Start n c \<Rightarrow> n = name \<and> c = cid
      | Connected n c \<Rightarrow> n = name \<and> c = cid
      | HaveStudent s c d \<Rightarrow>
          select_student_id (students w) name cid = Some s \<and> s \<noteq> 0 \<and> c = cid \<and>
          d = strftime_date (now w)
      | Inserting s c d n \<Rightarrow>
          select_student_id (students w) name cid = Some s \<and> s \<noteq> 0 \<and> c = cid \<and>
          d = strftime_date (now w)
      | Closing r \<Rightarrow> \<not> isl r \<and> settled w name cid
      | Done r \<Rightarrow> \<not> isl r \<and> settled w name cid)"

definition job_live ::
  "collab \<Rightarrow> service \<Rightarrow> nat \<times> nat \<Rightarrow> int \<Rightarrow> face list \<Rightarrow> world \<Rightarrow> job \<Rightarrow> bool" where
  "job_live ext svc shape cid fcs w j =
     (case j of
        Pending s c \<Rightarrow> c = cid \<and> decoded ext s = Some (shape, fcs) \<and> well_shaped svc fcs
      | Marking shape' c rest recognized marked_names name t \<Rightarrow>
          shape' = shape \<and> c = cid \<and> well_shaped svc rest \<and> recognized \<noteq> [] \<and>
          rf_name (last recognized) = name \<and>
          recognized @ matched_faces svc shape rest = matched_faces svc shape fcs \<and>
          list_all (\<lambda>x. settled w (rf_name x) cid) (butlast recognized) \<and>
          heading w name cid t
      | Finished r \<Rightarrow>
          (case r of
             Inl e \<Rightarrow> False
           | Inr res \<Rightarrow>
               recognized_faces res = matched_faces svc shape fcs \<and>
               list_all (\<lambda>x. settled w (rf_name x) cid) (recognized_faces res)))"

definition same_frame_twice :: "job list" where
  "same_frame_twice = [Pending ''aGk='' 3, Pending ''aGk='' 3]"

definition alternate :: "nat list" where
  "alternate = [0, 1, 0, 1, 0, 1, 0, 1, 0, 1, 0, 1]"

section \<open>The loop between two suspension points\<close>

lemma finish_request_cases:
  "finish_request loop w =
     (case loop w of
        (Inl e, w') \<Rightarrow> (Inl (HTTPException 500 (''Recognition failed: '' @ exn_str e)), w')
      | (Inr acc, w') \<Rightarrow> (Inr \<lparr>recognized_faces = fst acc, attendance_marked = snd acc\<rparr>, w'))"
  by (simp add: finish_request_def catchE_def bindE_def returnE_def raiseE_def
      split: prod.splits sum.splits)

lemma job_rest_failed [simp]:
  "job_rest ext svc (failed e) w =
     (Inl (HTTPException 500 (''Recognition failed: '' @ exn_str e)), w)"
  by (simp add: failed_def)

lemma process_face_cases_match:
  "process_face svc shape cid fc acc =
     (case match_face svc (embedding fc) of
        Inl e \<Rightarrow> raiseE e
      | Inr None \<Rightarrow> returnE acc
      | Inr (Some (name, D)) \<Rightarrow>
          bindE (mark_attendance name cid) (\<lambda>marked.
            returnE (fst acc @ [\<lparr>rf_name = name, rf_confidence = D,
                                 rf_bbox = reconcile_bbox shape (bbox fc)\<rparr>],
                     if marked then snd acc @ [name] else snd acc)))"
  by (rule ext)
    (simp add: process_face_def bindE_def liftE_def raiseE_def returnE_def Let_def
      split: prod.splits sum.splits option.splits)

lemma job_rest_next_face:
  "job_rest ext svc (next_face svc shape cid fcs acc) w =
     finish_request (process_faces svc shape cid fcs acc) w"
proof (induction fcs arbitrary: acc w)
  case Nil
  show ?case by (simp add: finish_request_cases returnE_def)
next
  case (Cons fc fcs)
  show ?case
  proof (cases "match_face svc (embedding fc)")
    case (Inl e)
    then show ?thesis
      by (simp add: finish_request_cases process_face_cases_match bindE_def raiseE_def)
  next
    case (Inr m)
    show ?thesis
    proof (cases m)
      case None
      with Inr Cons.IH [of acc w] show ?thesis
        by (simp add: finish_request_cases process_face_cases_match bindE_def returnE_def)
    next
      case (Some p)
      with Inr show ?thesis
        by (cases p) (simp add: process_face_cases_match task_rest_Start)
    qed
  qed
qed

lemma job_rest_after_mark:
  "job_rest ext svc (after_mark svc shape cid fcs recognized marked_names name t) w =
   job_rest ext svc (Marking shape cid fcs recognized marked_names name t) w"
proof (cases t)
  case (Done r)
  then show ?thesis
    by (cases r)
      (simp_all add: after_mark_def job_rest_next_face finish_request_cases bindE_def returnE_def)
qed (simp_all add: after_mark_def)

section \<open>Every step keeps the meaning of the request\<close>

lemma job_rest_Marking_step:
  "job_rest ext svc (Marking shape cid fcs recognized marked_names name (fst (task_step t w)))
     (snd (task_step t w)) =
   job_rest ext svc (Marking shape cid fcs recognized marked_names name t) w"
  using task_rest_step [of t w] by (simp add: finish_request_cases bindE_def)

lemma job_rest_step:
  "job_rest ext svc (fst (job_step ext svc j w)) (snd (job_step ext svc j w)) = job_rest ext svc j w"
proof (cases j)
  case (Pending s cid)
  then show ?thesis
    by (auto simp: job_step_def job_rest_next_face recognize_loop finish_request_cases
        recognize_b64_error recognize_invalid_image recognize_unfold
        split: sum.splits option.splits prod.splits)
next
  case (Marking shape cid fcs recognized marked_names name t)
  then show ?thesis
    using job_rest_Marking_step [of ext svc shape cid fcs recognized marked_names name t w]
    by (simp add: job_step_def case_prod_beta job_rest_after_mark del: job_rest.simps)
next
  case (Finished r)
  then show ?thesis by (simp add: job_step_def)
qed

section \<open>Progress\<close>

lemma job_remaining_next_face:
  "job_remaining ext (next_face svc shape cid fcs acc) \<le> 5 * length fcs"
  by (induction fcs arbitrary: acc)
    (auto simp: failed_def Let_def split: sum.splits option.splits intro: le_SucI trans_le_add2)

lemma job_remaining_after_mark:
  "job_remaining ext (after_mark svc shape cid fcs recognized marked_names name t) \<le>
     remaining t + 5 * length fcs"
  using job_remaining_next_face [of ext svc shape cid fcs]
  by (cases t) (auto simp: after_mark_def failed_def split: sum.splits)

lemma job_remaining_step:
  "job_remaining ext (fst (job_step ext svc j w)) \<le> job_remaining ext j - 1"
proof (cases j)
  case (Pending s cid)
  then show ?thesis
    using job_remaining_next_face [of ext svc _ cid "detected ext s" "([], [])"]
    by (auto simp: job_step_def detected_def failed_def split: sum.splits option.splits)
next
  case (Marking shape cid fcs recognized marked_names name t)
  have "remaining (fst (task_step t w)) + 5 * length fcs \<le> max 1 (remaining t) + 5 * length fcs - 1"
    using remaining_step [of t w] by simp
  with job_remaining_after_mark [of ext svc shape cid fcs recognized marked_names name
      "fst (task_step t w)"] Marking
  show ?thesis by (simp add: job_step_def case_prod_beta)
next
  case (Finished r)
  then show ?thesis by (simp add: job_step_def)
qed

lemma job_remaining_0_iff: "job_remaining ext j = 0 \<longleftrightarrow> is_finished j"
  by (cases j) (simp_all add: is_finished_def)

lemma job_step_stop: "job_remaining ext j = 0 \<Longrightarrow> job_step ext svc j w = (j, w)"
  by (cases j) (simp_all add: job_step_def)

lemma job_steps_finished:
  "job_remaining ext j \<le> k \<Longrightarrow> is_finished (fst (steps (job_step ext svc) k j w))"
  using steps_measure [of "job_remaining ext" "job_step ext svc" k j w, OF job_remaining_step]
  by (simp add: job_remaining_0_iff [of ext, symmetric])

lemma job_steps_rest:
  assumes "job_remaining ext j \<le> k"
  shows "steps (job_step ext svc) k j w =
           (Finished (fst (job_rest ext svc j w)), snd (job_rest ext svc j w))"
proof (rule steps_result [where m = "job_remaining ext"])
  show "\<exists>r. j = Finished r \<and> (\<forall>w. job_rest ext svc j w = (r, w))"
    if "job_remaining ext j = 0" for j
    using that by (cases j) simp_all
qed (use job_remaining_step in \<open>simp_all add: job_rest_step assms\<close>)

section \<open>What every step of a request keeps\<close>

lemma job_step_frame:
  assumes "job_step ext svc j w = (j', w')"
  shows "students w' = students w"
    and "\<exists>rows. attendance w' = attendance w @ rows \<and>
           list_all (\<lambda>r. a_status r = ''Present'') rows \<and> length rows \<le> 1"
proof -
  have "students w' = students w \<and>
      (\<exists>rows. attendance w' = attendance w @ rows \<and>
         list_all (\<lambda>r. a_status r = ''Present'') rows \<and> length rows \<le> 1)"
  proof (cases j)
    case (Marking shape cid fcs recognized marked_names name t)
    obtain t' w1 where st: "task_step t w = (t', w1)" by (cases "task_step t w")
    with assms Marking have "w' = w1" by (simp add: job_step_def)
    with task_step_frame(1,2) [OF st] show ?thesis by simp
  qed (use assms in \<open>auto simp: job_step_def split: sum.splits option.splits\<close>)
  then show "students w' = students w"
    and "\<exists>rows. attendance w' = attendance w @ rows \<and>
           list_all (\<lambda>r. a_status r = ''Present'') rows \<and> length rows \<le> 1"
    by simp_all
qed

lemma job_task_simps [simp]:
  "job_task (Pending s cid) = Done (Inr False)"
  "job_task (Marking shape cid fcs recognized marked_names name t) = t"
  "job_task (Finished r) = Done (Inr False)"
  "job_task (failed e) = Done (Inr False)"
  by (simp_all add: job_task_def failed_def)

lemma holding_simps [simp]:
  "\<not> holding (Start name cid)" "holding (Connected name cid)" "holding (HaveStudent s c d)"
  "holding (Inserting s c d n)" "holding (Closing r)" "\<not> holding (Done r)"
  by (simp_all add: holding_def)

lemma holding_next_face [simp]: "\<not> holding (job_task (next_face svc shape cid fcs acc))"
  by (induction fcs arbitrary: acc) (auto simp: Let_def split: sum.splits option.splits)

lemma holding_after_mark [simp]:
  "holding (job_task (after_mark svc shape cid fcs recognized marked_names name t)) = holding t"
  by (cases t) (auto simp: after_mark_def split: sum.splits)

lemma job_step_conns:
  assumes "job_step ext svc j w = (j', w')" and "holding (job_task j) \<Longrightarrow> 0 < open_conns w"
  shows "open_conns w' + (if holding (job_task j) then 1 else 0) =
         open_conns w + (if holding (job_task j') then 1 else 0)"
proof (cases j)
  case (Marking shape cid fcs recognized marked_names name t)
  obtain t' w1 where st: "task_step t w = (t', w1)" by (cases "task_step t w")
  with assms Marking task_step_conns [OF st] show ?thesis
    by (auto simp: job_step_def)
qed (use assms in \<open>auto simp: job_step_def split: sum.splits option.splits\<close>)

lemma resume_job_grows:
  "grows_from w0 c \<Longrightarrow> grows_from w0 (resume (job_step ext svc) i c)"
proof (cases c)
  case (Pair js w)
  assume g: "grows_from w0 c"
  from \<open>c = (js, w)\<close> [symmetric] have "resume (job_step ext svc) i (js, w) = resume (job_step ext svc) i c"
    by simp
  then show ?thesis
  proof (cases rule: resume_cases)
    case idle
    with g Pair show ?thesis by simp
  next
    case (step j' w')
    from job_step_frame [OF step(2)] g Pair have "grows_from w0 (js[i := j'], w')"
      by (auto simp: grows_from_def)
    with step(3) show ?thesis by simp
  qed
qed

lemma resume_job_conns:
  "open_conns (snd c) = n + count_where (\<lambda>j. holding (job_task j)) (fst c) \<Longrightarrow>
   open_conns (snd (resume (job_step ext svc) i c)) =
     n + count_where (\<lambda>j. holding (job_task j)) (fst (resume (job_step ext svc) i c))"
  by (rule resume_accounting [where P = "\<lambda>j. holding (job_task j)"]) (rule job_step_conns)

lemma reachable_jobs_invariants:
  assumes "reachable (job_step ext svc) c c'"
  shows "open_conns (snd c) = n + count_where (\<lambda>j. holding (job_task j)) (fst c) \<Longrightarrow>
         open_conns (snd c') = n + count_where (\<lambda>j. holding (job_task j)) (fst c')"
    and "grows_from w0 c \<Longrightarrow> grows_from w0 c'"
  using assms
  by (induction rule: reachable.induct) (simp_all add: resume_job_grows resume_job_conns)

lemma not_holding_finished: "is_finished j \<Longrightarrow> \<not> holding (job_task j)"
  by (cases j) (simp_all add: is_finished_def)

section \<open>Two requests with the same frame\<close>

lemma demo_job_start:
  "job_step demo_ext demo_service (Pending ''aGk='' 3) w =
     (Marking (960, 1280) 3 [\<lparr>bbox = (100.7, 50.2, 300.9, 200.5), embedding = [-1, 0], det_score = 0.8\<rparr>]
        [\<lparr>rf_name = ''Asha'', rf_confidence = 4 / 5, rf_bbox = (0, 0, 1280, 960)\<rparr>] [] ''Asha''
        (Start ''Asha'' 3), w)"
  by (simp add: job_step_def demo_ext_facts demo_faces_def demo_match reconcile_eval)

lemma demo_job_end:
  "after_mark demo_service (960, 1280) 3
     [\<lparr>bbox = (100.7, 50.2, 300.9, 200.5), embedding = [-1, 0], det_score = 0.8\<rparr>]
     [\<lparr>rf_name = ''Asha'', rf_confidence = 4 / 5, rf_bbox = (0, 0, 1280, 960)\<rparr>] [] ''Asha''
     (Done (Inr True)) =
   Finished (Inr \<lparr>recognized_faces =
       [\<lparr>rf_name = ''Asha'', rf_confidence = 4 / 5, rf_bbox = (0, 0, 1280, 960)\<rparr>],
     attendance_marked = [''Asha'']\<rparr>)"
  by (simp add: after_mark_def demo_match)

lemma jobs_race_run:
  "run_loop (job_step demo_ext demo_service) alternate (same_frame_twice, demo_world) =
     (replicate 2 (Finished (Inr \<lparr>recognized_faces =
          [\<lparr>rf_name = ''Asha'', rf_confidence = 4 / 5, rf_bbox = (0, 0, 1280, 960)\<rparr>],
        attendance_marked = [''Asha'']\<rparr>)),
      demo_world\<lparr>attendance := [present_row 1 7 3 ''2024-03-09'' ''08:05:00'',
                                 present_row 2 7 3 ''2024-03-09'' ''08:05:00''],
                 attendance_seq := 3\<rparr>)"
  by (simp add: alternate_def same_frame_twice_def resume_Pair demo_job_start)
    (simp add: job_step_def after_mark_def demo_match task_step_unfold insert_attendance_def
      demo_world_def select_student_id_def select_attendance_id_def py_truthy_def tick_def
      strftime_date_eval strftime_time_eval present_row_def numeral_2_eq_2)

section \<open>Requests over different students\<close>

lemma face_keys_simps [simp]:
  "face_keys svc tbl cid [] = {}"
  "face_keys svc tbl cid (fc # fcs) =
     set_option (face_key svc tbl cid fc) \<union> face_keys svc tbl cid fcs"
  by (simp_all add: face_keys_def map_filter_simps split: option.splits)

lemma job_keys_simps [simp]:
  "job_keys ext svc tbl (Pending s cid) = face_keys svc tbl cid (detected ext s)"
  "job_keys ext svc tbl (Marking shape cid fcs recognized marked_names name t) =
     set_option (task_key tbl t) \<union> face_keys svc tbl cid fcs"
  "job_keys ext svc tbl (Finished r) = {}"
  "job_keys ext svc tbl (failed e) = {}"
  by (simp_all add: job_keys_def failed_def)

lemma job_keys_next_face:
  "job_keys ext svc tbl (next_face svc shape cid fcs acc) \<subseteq> face_keys svc tbl cid fcs"
proof (induction fcs arbitrary: acc)
  case Nil
  show ?case by simp
next
  case (Cons fc fcs)
  from Cons.IH show ?case
    by (auto simp: face_key_def task_key_def Let_def split: sum.splits option.splits)
qed

lemma job_keys_after_mark:
  "job_keys ext svc tbl (after_mark svc shape cid fcs recognized marked_names name t) \<subseteq>
     set_option (task_key tbl t) \<union> face_keys svc tbl cid fcs"
  using job_keys_next_face [of ext svc tbl shape cid fcs]
  by (cases t) (auto simp: after_mark_def split: sum.splits)

lemma job_step_keys:
  assumes "job_step ext svc j w = (j', w')"
  shows "job_keys ext svc (students w) j' \<subseteq> job_keys ext svc (students w) j"
proof (cases j)
  case (Pending s cid)
  with assms show ?thesis
    by (auto simp: job_step_def detected_def split: sum.splits option.splits
        dest: subsetD [OF job_keys_next_face])
next
  case (Marking shape cid fcs recognized marked_names name t)
  obtain t' w1 where st: "task_step t w = (t', w1)" by (cases "task_step t w")
  from task_step_key [OF st]
  have "set_option (task_key (students w) t') \<subseteq> set_option (task_key (students w) t)" by auto
  with job_keys_after_mark [of ext svc "students w" shape cid fcs recognized marked_names name t']
    assms Marking st
  show ?thesis by (auto simp: job_step_def)
next
  case (Finished r)
  with assms show ?thesis by (simp add: job_step_def)
qed

lemma disjoint_keys_update:
  assumes "disjoint_keys ext svc tbl js" and "i < length js"
    and "job_keys ext svc tbl j' \<subseteq> job_keys ext svc tbl (js ! i)"
  shows "disjoint_keys ext svc tbl (js[i := j'])"
  using assms unfolding disjoint_keys_def by (rule disjoint_family_update)

lemma task_key_job_task: "set_option (task_key tbl (job_task j)) \<subseteq> job_keys ext svc tbl j"
  by (cases j) (simp_all add: task_key_def)

lemma distinct_keys_jobs:
  assumes "disjoint_keys ext svc tbl js"
  shows "distinct_keys tbl (map job_task js)"
  using assms unfolding disjoint_keys_def
  by (rule distinct_keys_family) (rule task_key_job_task)

lemma job_task_not_Inserting:
  "job_task (after_mark svc shape cid fcs recognized marked_names name t) = Inserting s c d n \<Longrightarrow>
   t = Inserting s c d n"
  "job_task (next_face svc shape cid fcs acc) \<noteq> Inserting s c d n"
proof -
  show n: "job_task (next_face svc shape cid fcs acc) \<noteq> Inserting s c d n" for acc
    by (induction fcs arbitrary: acc) (auto simp: Let_def split: sum.splits option.splits)
  show "job_task (after_mark svc shape cid fcs recognized marked_names name t) = Inserting s c d n \<Longrightarrow>
    t = Inserting s c d n"
    using n by (cases t) (auto simp: after_mark_def split: sum.splits)
qed

lemma after_mark_Closing [simp]:
  "after_mark svc shape cid fcs recognized marked_names name (Closing r) =
     Marking shape cid fcs recognized marked_names name (Closing r)"
  by (simp add: after_mark_def)

lemma job_step_ledger:
  assumes "job_step ext svc j w = (j', w')" and "wf_world w"
  shows "wf_world w'"
    and "(attendance w' = attendance w \<and> (\<forall>s c d n. job_task j' = Inserting s c d n \<longrightarrow>
            (s, d) \<notin> ledger_of w \<and> job_task j = HaveStudent s c d)) \<or>
         (\<exists>s c d n. job_task j = Inserting s c d n \<and> job_task j' = Closing (Inr True) \<and>
            attendance w' = attendance w @ [present_row (attendance_seq w) s c d n])"
proof -
  have "wf_world w' \<and>
      ((attendance w' = attendance w \<and> (\<forall>s c d n. job_task j' = Inserting s c d n \<longrightarrow>
            (s, d) \<notin> ledger_of w \<and> job_task j = HaveStudent s c d)) \<or>
       (\<exists>s c d n. job_task j = Inserting s c d n \<and> job_task j' = Closing (Inr True) \<and>
            attendance w' = attendance w @ [present_row (attendance_seq w) s c d n]))"
  proof (cases j)
    case (Pending s cid)
    with assms show ?thesis
      by (auto simp: job_step_def job_task_not_Inserting split: sum.splits option.splits)
  next
    case (Marking shape cid fcs recognized marked_names name t)
    obtain t' w1 where st: "task_step t w = (t', w1)" by (cases "task_step t w")
    with assms(1) Marking have j': "j' = after_mark svc shape cid fcs recognized marked_names name t'"
      and w': "w' = w1" by (simp_all add: job_step_def)
    from task_step_ledger [OF st assms(2)] Marking j' w' show ?thesis
      by (auto dest: job_task_not_Inserting(1))
  next
    case (Finished r)
    with assms show ?thesis by (auto simp: job_step_def)
  qed
  then show "wf_world w'"
    and "(attendance w' = attendance w \<and> (\<forall>s c d n. job_task j' = Inserting s c d n \<longrightarrow>
            (s, d) \<notin> ledger_of w \<and> job_task j = HaveStudent s c d)) \<or>
         (\<exists>s c d n. job_task j = Inserting s c d n \<and> job_task j' = Closing (Inr True) \<and>
            attendance w' = attendance w @ [present_row (attendance_seq w) s c d n])"
    by simp_all
qed

lemma resume_jobs_race_free:
  assumes "jobs_race_free ext svc tbl c"
  shows "jobs_race_free ext svc tbl (resume (job_step ext svc) i c)"
proof (cases c)
  case (Pair js w)
  with assms have wf: "wf_world w" and u: "unique_per_day w" and st: "students w = tbl"
    and dk: "disjoint_keys ext svc tbl js" and pf: "pending_fresh (map job_task js, w)"
    by (simp_all add: jobs_race_free_def)
  from \<open>c = (js, w)\<close> [symmetric] have "resume (job_step ext svc) i (js, w) = resume (job_step ext svc) i c"
    by simp
  then show ?thesis
  proof (cases rule: resume_cases)
    case idle
    with assms Pair show ?thesis by simp
  next
    case (step j' w')
    from step(1) have i: "i < length (map job_task js)" by simp
    from job_step_keys [OF step(2)] st have "disjoint_keys ext svc tbl (js[i := j'])"
      by (intro disjoint_keys_update [OF dk step(1)]) simp
    moreover from job_step_frame(1) [OF step(2)] st have "students w' = tbl" by simp
    moreover note job_step_ledger(1) [OF step(2) wf]
    moreover from job_step_ledger(2) [OF step(2) wf] step(1)
    have "unique_per_day w' \<and> pending_fresh ((map job_task js)[i := job_task j'], w')"
      by (intro ledger_step_fresh [OF pf distinct_keys_jobs [OF dk] i u]) simp
    ultimately show ?thesis using step(3) by (simp add: jobs_race_free_def map_update)
  qed
qed

lemma pending_fresh_Pending:
  "pending_fresh (map job_task (map (\<lambda>rq. Pending (fst rq) (snd rq)) rqs), w)"
  by (auto simp: pending_fresh_def)

lemma demo_detected: "detected demo_ext ''aGk='' = demo_faces"
  by (simp add: detected_def demo_ext_facts)

lemma demo_face_keys:
  "face_keys demo_service (students demo_world) 3 demo_faces = {7}"
  "face_keys demo_service (students demo_world) 4 demo_faces = {}"
  by (simp_all add: face_key_def demo_faces_def demo_match demo_world_def select_student_id_def)

section \<open>What a request reports\<close>

lemma job_faces_simps [simp]:
  "job_faces (Pending s cid) = []"
  "job_faces (Marking shape cid fcs recognized marked_names name t) = recognized"
  "job_faces (Finished (Inr res)) = recognized_faces res"
  "job_faces (Finished (Inl e)) = []"
  "job_faces (failed e) = []"
  by (simp_all add: job_faces_def failed_def)

lemma next_face_faces:
  assumes "list_all (accepted_by svc) (fst acc)"
  shows "list_all (accepted_by svc) (job_faces (next_face svc shape cid fcs acc))"
  using assms
  by (induction fcs arbitrary: acc)
    (auto simp: Let_def accepted_by_def split: sum.splits option.splits)

lemma after_mark_faces:
  assumes "list_all (accepted_by svc) recognized"
  shows "list_all (accepted_by svc)
           (job_faces (after_mark svc shape cid fcs recognized marked_names name t))"
  using assms next_face_faces [of svc "(recognized, _)" shape cid fcs]
  by (cases t) (auto simp: after_mark_def split: sum.splits)

lemma job_step_faces:
  assumes "list_all (accepted_by svc) (job_faces j)" and "job_step ext svc j w = (j', w')"
  shows "list_all (accepted_by svc) (job_faces j')"
proof (cases j)
  case (Pending s cid)
  with assms(2) next_face_faces [of svc "([], [])" _ cid] show ?thesis
    by (auto simp: job_step_def split: sum.splits option.splits)
next
  case (Marking shape cid fcs recognized marked_names name t)
  with assms after_mark_faces [of svc recognized shape cid fcs marked_names name] show ?thesis
    by (auto simp: job_step_def split: prod.splits)
next
  case (Finished r)
  with assms show ?thesis by (simp add: job_step_def)
qed

section \<open>Fair schedules on a steady day\<close>

lemma heading_step:
  assumes "steady w" and "heading w name cid t" and "task_step t w = (t', w')"
  shows "heading w' name cid t'"
proof -
  from assms(1) have nf: "faults w = []"
    and pos: "list_all (\<lambda>r. 0 < a_id r) (attendance w)"
    by (simp_all add: steady_def wf_world_def)
  note tk = steady_tick [OF assms(1)]
  from assms(2,3) nf tk py_truthy_select_attendance_id [OF pos] show ?thesis
    by (auto simp: heading_def settled_def task_step_def get_db_connection_def conn_close_def
        db_call_ok py_truthy_def ledger_of_def att_key_def split: task.splits if_splits option.splits)
qed

lemma heading_mono: "heading w name cid t \<Longrightarrow> extends w w' \<Longrightarrow> heading w' name cid t"
  by (auto simp: heading_def extends_def settled_def split: task.splits option.splits)

lemma job_step_steady:
  assumes "steady w" and "job_step ext svc j w = (j', w')"
  shows "steady w' \<and> extends w w'"
proof (cases j)
  case (Marking shape cid fcs recognized marked_names name t)
  obtain t' w1 where st: "task_step t w = (t', w1)" by (cases "task_step t w")
  with assms(2) Marking have "w' = w1" by (simp add: job_step_def)
  with task_step_steady [OF assms(1) st] task_step_frame(1) [OF st] show ?thesis
    by (simp add: extends_def)
qed (use assms in \<open>auto simp: job_step_def split: sum.splits option.splits\<close>)

lemma well_shaped_simps [simp]:
  "well_shaped svc []"
  "well_shaped svc (fc # fcs) \<longleftrightarrow>
     length (embedding fc) = ix_dim (index svc) \<and> well_shaped svc fcs"
  by (simp_all add: well_shaped_def)

lemma job_live_simps [simp]:
  "job_live ext svc shape cid fcs w (Finished (Inl e)) = False"
  "job_live ext svc shape cid fcs w (failed e) = False"
  "job_live ext svc shape cid fcs w (Finished (Inr res)) \<longleftrightarrow>
     recognized_faces res = matched_faces svc shape fcs \<and>
     list_all (\<lambda>x. settled w (rf_name x) cid) (recognized_faces res)"
  by (simp_all add: job_live_def failed_def)

lemma next_face_live:
  assumes "wf_service svc" and "well_shaped svc rest"
    and "fst acc @ matched_faces svc shape rest = matched_faces svc shape fcs"
    and "list_all (\<lambda>x. settled w (rf_name x) cid) (fst acc)"
  shows "job_live ext svc shape cid fcs w (next_face svc shape cid rest acc)"
  using assms(2-4)
proof (induction rest arbitrary: acc)
  case Nil
  then show ?case by simp
next
  case (Cons fc rest)
  from Cons.prems(1) match_face_Inr [OF assms(1), of "embedding fc"]
  obtain m where m: "match_face svc (embedding fc) = Inr m" by auto
  show ?case
  proof (cases m)
    case None
    with m Cons.prems Cons.IH [of acc] show ?thesis by (simp add: matched_face_def)
  next
    case (Some p)
    obtain name D where "p = (name, D)" by (cases p)
    with Some m Cons.prems show ?thesis
      by (simp add: job_live_def heading_def matched_face_def)
  qed
qed

lemma job_live_mono:
  assumes "job_live ext svc shape cid fcs w j" and "extends w w'"
  shows "job_live ext svc shape cid fcs w' j"
  using assms settled_mono [OF _ assms(2)] heading_mono [OF _ assms(2)]
  by (auto simp: job_live_def list_all_iff split: job.splits sum.splits)

lemma after_mark_live:
  assumes svc: "wf_service svc" and "well_shaped svc rest" and ne: "recognized \<noteq> []"
    and last: "rf_name (last recognized) = name"
    and "recognized @ matched_faces svc shape rest = matched_faces svc shape fcs"
    and old: "list_all (\<lambda>x. settled w (rf_name x) cid) (butlast recognized)"
    and h: "heading w name cid t"
  shows "job_live ext svc shape cid fcs w (after_mark svc shape cid rest recognized marked_names name t)"
proof (cases "\<exists>marked. t = Done (Inr marked)")
  case True
  then obtain marked where d: "t = Done (Inr marked)" ..
  with h have "settled w name cid" by (simp add: heading_def)
  with old ne last have "list_all (\<lambda>x. settled w (rf_name x) cid) recognized"
    by (cases recognized rule: rev_cases) simp_all
  with d assms(2,5) show ?thesis by (simp add: after_mark_def next_face_live [OF svc])
next
  case False
  with h have "after_mark svc shape cid rest recognized marked_names name t =
      Marking shape cid rest recognized marked_names name t"
    by (cases t) (auto simp: after_mark_def heading_def split: sum.splits)
  with assms show ?thesis by (simp add: job_live_def)
qed

lemma job_step_live:
  assumes svc: "wf_service svc" and st: "steady w"
    and live: "job_live ext svc shape cid fcs w j" and step: "job_step ext svc j w = (j', w')"
  shows "job_live ext svc shape cid fcs w' j'"
proof (cases j)
  case (Pending s c)
  with live have c: "c = cid" and d: "decoded ext s = Some (shape, fcs)"
    and ws: "well_shaped svc fcs"
    by (simp_all add: job_live_def)
  from d step Pending c have "j' = next_face svc shape cid fcs ([], [])"
    by (auto simp: decoded_def job_step_def split: sum.splits option.splits)
  with next_face_live [OF svc ws, of "([], [])" shape fcs w' cid ext] show ?thesis by simp
next
  case (Marking shape' c rest recognized marked_names name t)
  obtain t' w1 where t': "task_step t w = (t', w1)" by (cases "task_step t w")
  with step Marking have j': "j' = after_mark svc shape' c rest recognized marked_names name t'"
    and w1: "w1 = w'" by (simp_all add: job_step_def)
  from job_step_steady [OF st step] have ext: "extends w w'" ..
  from live Marking have m: "shape' = shape" "c = cid" "well_shaped svc rest" "recognized \<noteq> []"
    "rf_name (last recognized) = name"
    "recognized @ matched_faces svc shape rest = matched_faces svc shape fcs"
    "list_all (\<lambda>x. settled w (rf_name x) cid) (butlast recognized)" "heading w name cid t"
    by (simp_all add: job_live_def)
  from heading_step [OF st m(8) t'] w1 have "heading w' name cid t'" by simp
  moreover from m(7) settled_mono [OF _ ext]
  have "list_all (\<lambda>x. settled w' (rf_name x) cid) (butlast recognized)"
    by (auto simp: list_all_iff)
  ultimately show ?thesis unfolding j' m(1,2) by (intro after_mark_live [OF svc m(3-6)])
next
  case (Finished r)
  with live step show ?thesis by (auto simp: job_step_def)
qed

lemma decoded_detected: "decoded ext s = Some (shape, fcs) \<Longrightarrow> detected ext s = fcs"
  by (auto simp: decoded_def detected_def split: sum.splits option.splits)

lemma job_live_finished:
  assumes "job_live ext svc shape cid fcs w j" and "is_finished j"
  shows "\<exists>res. j = Finished (Inr res) \<and> recognized_faces res = matched_faces svc shape fcs \<and>
           list_all (\<lambda>x. settled w (rf_name x) cid) (recognized_faces res)"
  using assms by (cases j) (auto simp: is_finished_def job_live_def split: sum.splits)

lemma demo_decoded: "decoded demo_ext ''aGk='' = Some ((960, 1280), demo_faces)"
  by (simp add: decoded_def demo_ext_facts)

section \<open>Properties\<close>

text \<open>
  C9: The small-step model of a request agrees with \<^verbatim>\<open>recognize_faces_in_image\<close>.  A
  request that is resumed without any other request running in between, one step
  to reach the loop and five for every detected face, ends with the result and in
  the world that the sequential model yields, under every script of storage faults
  and for every answer of the decoder and the detector.
\<close>

theorem request_refines_recognize:
  assumes "1 + 5 * length (detected ext image_base64) \<le> k"
  shows "steps (job_step ext svc) k (Pending image_base64 class_id) w = (Finished r, w') \<longleftrightarrow>
         recognize_faces_in_image ext svc image_base64 class_id w = (r, w')"
  using job_steps_rest [of ext "Pending image_base64 class_id" k svc w] assms
  by (auto simp: prod_eq_iff)

theorem request_refines_recognize_witness:
  "1 + 5 * length (detected demo_ext ''aGk='') \<le> 11 \<and>
   steps (job_step demo_ext demo_service) 11 (Pending ''aGk='' 3) demo_world =
     (Finished (Inr \<lparr>recognized_faces =
          [\<lparr>rf_name = ''Asha'', rf_confidence = 4 / 5, rf_bbox = (0, 0, 1280, 960)\<rparr>],
        attendance_marked = [''Asha'']\<rparr>),
      demo_world\<lparr>attendance := [present_row 1 7 3 ''2024-03-09'' ''08:05:00''],
                 attendance_seq := 2\<rparr>)"
proof -
  have k: "1 + 5 * length (detected demo_ext ''aGk='') \<le> 11"
    by (simp add: demo_detected demo_faces_def)
  from request_refines_recognize [OF k, THEN iffD2, OF demo_recognize] k show ?thesis by simp
qed


text \<open>
  Requests over different students do not race.  When the sets of students that
  the frames of the requests can mark are pairwise disjoint, every configuration
  reachable under any interleaving of the requests keeps at most one record per
  student and day (and positive keys).  Within one request the same student may
  appear any number of times.
\<close>

theorem disjoint_requests_never_race:
  assumes "wf_world w" and "unique_per_day w"
    and "disjoint_keys ext svc (students w) (map (\<lambda>rq. Pending (fst rq) (snd rq)) rqs)"
    and "reachable (job_step ext svc) (map (\<lambda>rq. Pending (fst rq) (snd rq)) rqs, w) (js, w')"
  shows "unique_per_day w' \<and> wf_world w'"
proof -
  from assms(1-3) pending_fresh_Pending [of rqs w]
  have "jobs_race_free ext svc (students w) (map (\<lambda>rq. Pending (fst rq) (snd rq)) rqs, w)"
    by (simp add: jobs_race_free_def)
  with assms(4) have "jobs_race_free ext svc (students w) (js, w')"
    by (rule reachable_invariant) (rule resume_jobs_race_free)
  then show ?thesis by (simp add: jobs_race_free_def)
qed

theorem disjoint_requests_never_race_witness:
  "wf_world demo_world \<and> unique_per_day demo_world \<and>
   disjoint_keys demo_ext demo_service (students demo_world)
     [Pending ''aGk='' 3, Pending ''aGk='' 4] \<and>
   unique_per_day (snd (run_loop (job_step demo_ext demo_service) alternate
     ([Pending ''aGk='' 3, Pending ''aGk='' 4], demo_world)))"
proof -
  let ?c = "([Pending ''aGk='' 3, Pending ''aGk='' 4], demo_world)"
  have d: "disjoint_keys demo_ext demo_service (students demo_world)
      (map (\<lambda>rq. Pending (fst rq) (snd rq)) [(''aGk='', 3), (''aGk='', 4)])"
    by (auto simp: disjoint_keys_def disjoint_family_def demo_detected demo_face_keys nth_Cons
        split: nat.splits)
  have r: "reachable (job_step demo_ext demo_service)
      (map (\<lambda>rq. Pending (fst rq) (snd rq)) [(''aGk='', 3), (''aGk='', 4)], demo_world)
      (fst (run_loop (job_step demo_ext demo_service) alternate ?c),
       snd (run_loop (job_step demo_ext demo_service) alternate ?c))"
    using reachable_run_loop [of "job_step demo_ext demo_service" ?c alternate] by simp
  from disjoint_requests_never_race [OF demo_world_facts(1,2) d r] d show ?thesis
    by (simp add: demo_world_facts)
qed

text \<open>
  Along every interleaving of recognition requests the students table stays as
  it is, attendance rows are only appended and are Present rows, and the open
  connections exceed the initial number by the number of requests suspended between
  a connect and its close; when all requests have finished, every connection has
  been closed.
\<close>

theorem requests_interleaving_invariants:
  assumes "reachable (job_step ext svc) (map (\<lambda>rq. Pending (fst rq) (snd rq)) rqs, w) (js, w')"
  shows "length js = length rqs \<and> students w' = students w \<and>
         (\<exists>rows. attendance w' = attendance w @ rows \<and>
            list_all (\<lambda>r. a_status r = ''Present'') rows) \<and>
         open_conns w' = open_conns w + count_where (\<lambda>j. holding (job_task j)) js \<and>
         (list_all is_finished js \<longrightarrow> open_conns w' = open_conns w)"
proof -
  let ?c = "(map (\<lambda>rq. Pending (fst rq) (snd rq)) rqs, w)"
  note inv = reachable_jobs_invariants [OF assms]
  have "count_where (\<lambda>j. holding (job_task j)) (fst ?c) = 0"
    by (rule count_where_0) (simp add: list_all_iff)
  then have "open_conns (snd ?c) = open_conns w + count_where (\<lambda>j. holding (job_task j)) (fst ?c)"
    by simp
  then have "open_conns (snd (js, w')) =
      open_conns w + count_where (\<lambda>j. holding (job_task j)) (fst (js, w'))"
    by (rule inv(1))
  moreover have "grows_from w ?c" by (simp add: grows_from_def)
  then have "grows_from w (js, w')" by (rule inv(2))
  moreover have "count_where (\<lambda>j. holding (job_task j)) js = 0" if "list_all is_finished js"
    by (rule count_where_0) (use that in \<open>auto simp: list_all_iff not_holding_finished\<close>)
  ultimately show ?thesis using reachable_length [OF assms]
    by (auto simp: grows_from_def)
qed

theorem requests_interleaving_invariants_witness:
  "reachable (job_step demo_ext demo_service) (same_frame_twice, demo_world)
     (run_loop (job_step demo_ext demo_service) alternate (same_frame_twice, demo_world)) \<and>
   open_conns (snd (run_loop (job_step demo_ext demo_service) alternate
     (same_frame_twice, demo_world))) = open_conns demo_world"
proof -
  let ?res = "Finished (Inr \<lparr>recognized_faces =
          [\<lparr>rf_name = ''Asha'', rf_confidence = 4 / 5, rf_bbox = (0, 0, 1280, 960)\<rparr>],
        attendance_marked = [''Asha'']\<rparr>)"
  have r: "reachable (job_step demo_ext demo_service)
      (map (\<lambda>rq. Pending (fst rq) (snd rq)) [(''aGk='', 3), (''aGk='', 3)], demo_world)
      ([?res, ?res],
       demo_world\<lparr>attendance := [present_row 1 7 3 ''2024-03-09'' ''08:05:00'',
                                 present_row 2 7 3 ''2024-03-09'' ''08:05:00''],
                   attendance_seq := 3\<rparr>)"
    using reachable_run_loop [of "job_step demo_ext demo_service" "(same_frame_twice, demo_world)"
        alternate]
    by (simp add: jobs_race_run numeral_2_eq_2) (simp add: same_frame_twice_def)
  from requests_interleaving_invariants [OF r] r show ?thesis
    by (simp add: jobs_race_run numeral_2_eq_2 is_finished_def) (simp add: same_frame_twice_def)
qed

text \<open>
  Every request is answered.  Whatever the other requests do and whatever the
  storage, the decoder and the detector answer, a request that has been resumed
  once and five times for every face of its frame has returned or raised.
\<close>

theorem request_finishes:
  assumes "j < length rqs" and "1 + 5 * length (detected ext (fst (rqs ! j))) \<le> count_list is j"
  shows "is_finished
    (fst (run_loop (job_step ext svc) is (map (\<lambda>rq. Pending (fst rq) (snd rq)) rqs, w)) ! j)"
proof -
  let ?c = "(map (\<lambda>rq. Pending (fst rq) (snd rq)) rqs, w)"
  from run_loop_measure [of "job_remaining ext" "job_step ext svc" j ?c "is", OF job_remaining_step]
    assms
  have "job_remaining ext (fst (run_loop (job_step ext svc) is ?c) ! j) = 0" by simp
  then show ?thesis by (simp add: job_remaining_0_iff)
qed

theorem request_finishes_witness:
  "(1::nat) < length [(''aGk='', 3::int), (''aGk='', 3)] \<and>
   1 + 5 * length (detected demo_ext ''aGk='') \<le> count_list (alternate @ alternate) 1 \<and>
   is_finished (fst (run_loop (job_step demo_ext demo_service) (alternate @ alternate)
     (same_frame_twice, demo_world)) ! 1)"
  using request_finishes [of 1 "[(''aGk='', 3), (''aGk='', 3)]" demo_ext "alternate @ alternate"
      demo_service demo_world]
  by (simp add: demo_detected demo_faces_def alternate_def same_frame_twice_def)

text \<open>
  A serial schedule of requests - every request resumed \<open>m\<close> times before the
  next one starts, with \<open>m\<close> at least one plus five times the faces of any frame -
  computes what the calls of \<^verbatim>\<open>recognize_faces_in_image\<close> compute one after another: the
  same results in the same order and the same final world.
\<close>

theorem serial_requests_refine_recognize:
  assumes "\<forall>rq \<in> set rqs. 1 + 5 * length (detected ext (fst rq)) \<le> m"
  shows "run_loop (job_step ext svc) (serial_schedule m 0 (length rqs))
           (map (\<lambda>rq. Pending (fst rq) (snd rq)) rqs, w) =
         (map Finished
            (fst (run_all (\<lambda>rq. recognize_faces_in_image ext svc (fst rq) (snd rq)) rqs w)),
          snd (run_all (\<lambda>rq. recognize_faces_in_image ext svc (fst rq) (snd rq)) rqs w))"
  using run_serial [of rqs "job_step ext svc" m "\<lambda>rq. Pending (fst rq) (snd rq)" Finished
      "\<lambda>rq. recognize_faces_in_image ext svc (fst rq) (snd rq)" "[]" w] assms
  by (simp add: job_steps_rest)

theorem serial_requests_refine_recognize_witness:
  "set [(''aGk='', 3::int), (''aGk='', 3)] = {(''aGk='', 3)} \<and>
   1 + 5 * length (detected demo_ext ''aGk='') \<le> 11 \<and>
   snd (run_loop (job_step demo_ext demo_service) (serial_schedule 11 0 2)
     (same_frame_twice, demo_world)) =
   snd (run_all (\<lambda>rq. recognize_faces_in_image demo_ext demo_service (fst rq) (snd rq))
     [(''aGk='', 3), (''aGk='', 3)] demo_world)"
  using serial_requests_refine_recognize [of "[(''aGk='', 3), (''aGk='', 3)]" demo_ext 11
      demo_service demo_world]
  by (simp add: demo_detected demo_faces_def same_frame_twice_def numeral_2_eq_2)

text \<open>
  C14: Every well-shaped request is answered in full, whatever runs in between.  On
  a steady day - the storage up, the clock on one date - and on a well-formed
  service, a request whose image decodes and whose embeddings have the dimension
  of the index, resumed once and five times for every face under any interleaving
  with any other recognition requests, has returned without an exception; it
  reports exactly the accepted matches of its frame, and every reported student of
  the class then has a record for today.
\<close>

theorem fair_schedule_answers_request:
  assumes "wf_service svc" and "steady w" and "j < length rqs"
    and "decoded ext (fst (rqs ! j)) = Some (shape, fcs)" and "well_shaped svc fcs"
    and "1 + 5 * length fcs \<le> count_list is j"
  shows "\<exists>res. fst (run_loop (job_step ext svc) is (map (\<lambda>rq. Pending (fst rq) (snd rq)) rqs, w)) ! j =
             Finished (Inr res) \<and>
           recognized_faces res = matched_faces svc shape fcs \<and>
           list_all (\<lambda>x. settled
               (snd (run_loop (job_step ext svc) is (map (\<lambda>rq. Pending (fst rq) (snd rq)) rqs, w)))
               (rf_name x) (snd (rqs ! j)))
             (recognized_faces res)"
proof -
  let ?c = "(map (\<lambda>rq. Pending (fst rq) (snd rq)) rqs, w)"
  let ?P = "job_live ext svc shape (snd (rqs ! j)) fcs"
  have "steady (snd (run_loop (job_step ext svc) is ?c)) \<and>
      ?P (snd (run_loop (job_step ext svc) is ?c)) (fst (run_loop (job_step ext svc) is ?c) ! j)"
  proof (rule run_loop_tracked [where R = extends])
    show "?P (snd ?c) (fst ?c ! j)" using assms(3-5) by (simp add: job_live_def)
  qed (use assms(1-3) in \<open>auto intro: job_step_live job_live_mono dest: job_step_steady\<close>)
  moreover from run_loop_measure [of "job_remaining ext" "job_step ext svc" j ?c "is",
      OF job_remaining_step] assms(3,6) decoded_detected [OF assms(4)]
  have "is_finished (fst (run_loop (job_step ext svc) is ?c) ! j)"
    by (simp add: job_remaining_0_iff [of ext, symmetric])
  ultimately show ?thesis by (intro job_live_finished [of ext]) simp_all
qed

theorem fair_schedule_answers_request_witness:
  "wf_service demo_service \<and> steady demo_world \<and>
   (1::nat) < length [(''aGk='', 3::int), (''aGk='', 3)] \<and>
   decoded demo_ext ''aGk='' = Some ((960, 1280), demo_faces) \<and>
   well_shaped demo_service demo_faces \<and>
   1 + 5 * length demo_faces \<le> count_list (alternate @ alternate) 1 \<and>
   (\<exists>res. fst (run_loop (job_step demo_ext demo_service) (alternate @ alternate)
              (same_frame_twice, demo_world)) ! 1 = Finished (Inr res) \<and>
      recognized_faces res = matched_faces demo_service (960, 1280) demo_faces)"
proof -
  have ws: "well_shaped demo_service demo_faces"
    by (simp add: demo_faces_def demo_service_def)
  have k: "1 + 5 * length demo_faces \<le> count_list (alternate @ alternate) 1"
    by (simp add: demo_faces_def alternate_def)
  from fair_schedule_answers_request [of demo_service demo_world 1
      "[(''aGk='', 3), (''aGk='', 3)]" demo_ext "(960, 1280)" demo_faces "alternate @ alternate"]
    ws k demo_decoded
  show ?thesis
    by (auto simp: demo_service_wf demo_world_steady same_frame_twice_def)
qed

end
