(* ===== verification/Server.thy ===== *)
theory Server
  imports Service Requests
begin

text \<open>
  The five endpoints on one event loop (lines 182-233 under \<^verbatim>\<open>uvicorn.run\<close>).

  A \<open>call\<close> is a request between two suspension points of its handler:
  \<^item> \<open>Arrived rq\<close>: the request has arrived and its handler has not run;
  \<^item> \<open>Recognizing j\<close>: \<^verbatim>\<open>recognize_faces\<close> is suspended inside the job \<open>j\<close> of theory
    \<open>Requests\<close>;
  \<^item> \<open>Querying q\<close>: \<^verbatim>\<open>get_attendance\<close>, \<^verbatim>\<open>get_students\<close> or \<^verbatim>\<open>clear_attendance\<close> has
    its connection and awaits its one SQL statement \<open>q\<close> (lines 193, 210, 225);
  \<^item> \<open>Releasing r\<close>: the statement has returned or raised, and the \<^verbatim>\<open>finally\<close> clause
    awaits \<^verbatim>\<open>conn.close()\<close> (lines 203, 218, 228); \<open>r\<close> is what the handler then
    returns or raises;
  \<^item> \<open>Answered r\<close>: the handler is left.
  \<open>statement\<close> is the SQL statement of a handler with the value the handler builds
  from its result; \<open>connect\<close> is the first step of these three handlers (lines 191,
  208, 223: no connection, no \<^verbatim>\<open>finally\<close>); \<open>recognizing\<close> wraps a job, turning a finished one into the
  answer; \<open>call_step\<close> is one step of a call - \<^verbatim>\<open>health_check\<close> has no \<^verbatim>\<open>await\<close> and
  is answered in its first step.  The calls are scheduled by the event loop of
  theory \<open>Event_Loop\<close>.

  \<open>call_rest\<close> is the meaning of what is left of a call as an action of the
  sequential model, \<open>call_remaining\<close> a bound on its remaining steps, \<open>call_task\<close>
  the call of \<^verbatim>\<open>mark_attendance\<close> it is suspended in, \<open>call_keys\<close> the students it
  may still write a record for, and \<open>call_faces\<close> the faces it has recognised so far or
  reports in its answer.

  Proved here: a call that runs alone computes what \<open>handle\<close> computes, so the
  server \<open>serve\<close> of theory \<open>Service\<close> is the serial schedule of this one; under every
  interleaving the students table is fixed, the open connections are those of the
  calls between connect and close, and every call is answered after a bounded
  number of steps; when the recognition requests are about pairwise disjoint
  students, every interleaving of requests to the five endpoints keeps one record
  per student and day (a \<^verbatim>\<open>DELETE\<close> only removes rows, so it cannot make a pending insert
  a duplicate); every face a response reports is an accepted match of the service.
  The fixtures \<open>demo_calls\<close> and \<open>round_robin\<close> are three calls and a
  schedule that resumes them in turn.
\<close>

section \<open>Definitions\<close>

datatype query = SelectAttendance int | SelectStudents int | DeleteAttendance int

datatype call =
    Arrived request
  | Recognizing job
  | Querying query
  | Releasing "exn + response"
  | Answered "exn + response"

definition statement :: "query \<Rightarrow> world \<Rightarrow> response \<times> world" where
  "statement q w =
     (case q of
        SelectAttendance class_id' \<Rightarrow> (AttendanceResponse (select_attendance w class_id'), w)
      | SelectStudents class_id' \<Rightarrow> (StudentsResponse (select_students w class_id'), w)
      | DeleteAttendance class_id' \<Rightarrow>
          (ClearResponse \<lparr>sm_status = ''success'',
             sm_message = ''Attendance cleared for class '' @ str_int class_id'\<rparr>,
           delete_attendance class_id' w))"

definition recognizing :: "job \<Rightarrow> call" where
  "recognizing j =
     (case j of
        Finished r \<Rightarrow>
          Answered (case r of Inl e \<Rightarrow> Inl e | Inr result \<Rightarrow> Inr (RecognitionResponse result))
      | _ \<Rightarrow> Recognizing j)"

definition connect :: "query \<Rightarrow> world \<Rightarrow> call \<times> world" where
  "connect q w =
     (case get_db_connection w of
        (Inl e, w') \<Rightarrow> (Answered (Inl e), w')
      | (Inr conn, w') \<Rightarrow> (Querying q, w'))"

definition call_step :: "collab \<Rightarrow> service \<Rightarrow> call \<Rightarrow> world \<Rightarrow> call \<times> world" where
  "call_step ext svc c w =
     (case c of
        Arrived rq \<Rightarrow>
          (case rq of
             PostRecognizeFaces image_data \<Rightarrow>
               (case job_step ext svc (Pending (image_base64 image_data) (class_id image_data)) w of
                  (j, w') \<Rightarrow> (recognizing j, w'))
           | GetAttendance class_id' \<Rightarrow> connect (SelectAttendance class_id') w
           | GetStudents class_id' \<Rightarrow> connect (SelectStudents class_id') w
           | PostClearAttendance class_id' \<Rightarrow> connect (DeleteAttendance class_id') w
           | GetHealth \<Rightarrow>
               (Answered (Inr (HealthResponse
                  \<lparr>h_status = ''healthy'', h_service = ''face-recognition''\<rparr>)), w))
      | Recognizing j \<Rightarrow> (case job_step ext svc j w of (j', w') \<Rightarrow> (recognizing j', w'))
      | Querying q \<Rightarrow>
          (case db_call (statement q) w of
             (Inl e, w') \<Rightarrow> (Releasing (Inl e), w')
           | (Inr r, w') \<Rightarrow> (Releasing (Inr r), w'))
      | Releasing r \<Rightarrow> (Answered r, conn_close w)
      | Answered r \<Rightarrow> (Answered r, w))"

fun call_rest :: "collab \<Rightarrow> service \<Rightarrow> call \<Rightarrow> (response, world) act" where
  "call_rest ext svc (Arrived rq) = handle ext svc rq"
| "call_rest ext svc (Recognizing j) =
     bindE (job_rest ext svc j) (\<lambda>r. returnE (RecognitionResponse r))"
| "call_rest ext svc (Querying q) = finallyE (db_call (statement q)) conn_close"
| "call_rest ext svc (Releasing r) = (\<lambda>w. (r, conn_close w))"
| "call_rest ext svc (Answered r) = (\<lambda>w. (r, w))"

fun call_remaining :: "collab \<Rightarrow> call \<Rightarrow> nat" where
  "call_remaining ext (Arrived rq) =
     (case rq of
        PostRecognizeFaces image_data \<Rightarrow> 1 + 5 * length (detected ext (image_base64 image_data))
      | GetHealth \<Rightarrow> 1
      | _ \<Rightarrow> 3)"
| "call_remaining ext (Recognizing j) = max 1 (job_remaining ext j)"
| "call_remaining ext (Querying q) = 2"
| "call_remaining ext (Releasing r) = 1"
| "call_remaining ext (Answered r) = 0"

definition is_answered :: "call \<Rightarrow> bool" where
  "is_answered c = (case c of Answered r \<Rightarrow> True | _ \<Rightarrow> False)"

definition connected :: "call \<Rightarrow> bool" where
  "connected c =
     (case c of
        Recognizing j \<Rightarrow> holding (job_task j)
      | Querying q \<Rightarrow> True
      | Releasing r \<Rightarrow> True
      | _ \<Rightarrow> False)"

definition call_task :: "call \<Rightarrow> task" where
  "call_task c = (case c of Recognizing j \<Rightarrow> job_task j | _ \<Rightarrow> Done (Inr False))"

definition call_keys :: "collab \<Rightarrow> service \<Rightarrow> student_row list \<Rightarrow> call \<Rightarrow> int set" where
  "call_keys ext svc tbl c =
     (case c of
        Arrived rq \<Rightarrow>
          (case rq of
             PostRecognizeFaces image_data \<Rightarrow>
               face_keys svc tbl (class_id image_data) (detected ext (image_base64 image_data))
           | _ \<Rightarrow> {})
      | Recognizing j \<Rightarrow> job_keys ext svc tbl j
      | _ \<Rightarrow> {})"

definition server_race_free ::
  "collab \<Rightarrow> service \<Rightarrow> student_row list \<Rightarrow> call list \<times> world \<Rightarrow> bool" where
  "server_race_free ext svc tbl c \<longleftrightarrow>
     wf_world (snd c) \<and> unique_per_day (snd c) \<and> students (snd c) = tbl \<and>
     disjoint_family (call_keys ext svc tbl) (fst c) \<and> pending_fresh (map call_task (fst c), snd c)"

definition response_faces :: "exn + response \<Rightarrow> recognized_face list" where
  "response_faces r =
     (case r of Inr (RecognitionResponse res) \<Rightarrow> recognized_faces res | _ \<Rightarrow> [])"

definition call_faces :: "call \<Rightarrow> recognized_face list" where
  "call_faces c =
     (case c of
        Recognizing j \<Rightarrow> job_faces j
      | Releasing r \<Rightarrow> response_faces r
      | Answered r \<Rightarrow> response_faces r
      | _ \<Rightarrow> [])"

definition demo_calls :: "request list" where
  "demo_calls = [demo_frame, PostClearAttendance 3, GetAttendance 3]"

definition round_robin :: "nat list" where
  "round_robin = concat (replicate 11 [0, 1, 2])"

section \<open>Every step keeps the meaning of the call\<close>

lemma recognizing_simps [simp]:
  "recognizing (Pending s cid) = Recognizing (Pending s cid)"
  "recognizing (Marking shape cid fcs recognized marked_names name t) =
     Recognizing (Marking shape cid fcs recognized marked_names name t)"
  "recognizing (Finished (Inl e)) = Answered (Inl e)"
  "recognizing (Finished (Inr res)) = Answered (Inr (RecognitionResponse res))"
  by (simp_all add: recognizing_def)

lemma call_rest_recognizing:
  "call_rest ext svc (recognizing j) w = call_rest ext svc (Recognizing j) w"
proof (cases j)
  case (Finished r)
  then show ?thesis by (cases r) (simp_all add: bindE_def returnE_def)
qed simp_all

lemma handle_recognize:
  "handle ext svc (PostRecognizeFaces d) =
     call_rest ext svc (Recognizing (Pending (image_base64 d) (class_id d)))"
  by (rule ext) (simp add: handle_def recognize_faces_eq)

lemma call_rest_job_step:
  "call_rest ext svc (Recognizing (fst (job_step ext svc j w))) (snd (job_step ext svc j w)) =
   call_rest ext svc (Recognizing j) w"
  using job_rest_step [of ext svc j w] by (simp add: bindE_def)

lemma handle_query:
  "handle ext svc (GetAttendance c) =
     bindE get_db_connection (\<lambda>conn. call_rest ext svc (Querying (SelectAttendance c)))"
  "handle ext svc (GetStudents c) =
     bindE get_db_connection (\<lambda>conn. call_rest ext svc (Querying (SelectStudents c)))"
  "handle ext svc (PostClearAttendance c) =
     bindE get_db_connection (\<lambda>conn. call_rest ext svc (Querying (DeleteAttendance c)))"
  by (auto simp: handle_def get_attendance_def get_students_def clear_attendance_def statement_def
      bindE_def finallyE_def returnE_def db_call_def fun_eq_iff
      split: prod.splits sum.splits list.splits option.splits)

lemma call_rest_step:
  "call_rest ext svc (fst (call_step ext svc c w)) (snd (call_step ext svc c w)) = call_rest ext svc c w"
proof (cases c)
  case (Arrived rq)
  show ?thesis
  proof (cases rq)
    case (PostRecognizeFaces d)
    with Arrived call_rest_job_step [of ext svc "Pending (image_base64 d) (class_id d)" w]
    show ?thesis
      by (simp add: call_step_def connect_def case_prod_beta call_rest_recognizing handle_recognize
          del: call_rest.simps(2))
  next
    case GetHealth
    with Arrived show ?thesis
      by (simp add: call_step_def connect_def handle_def health_check_def bindE_def returnE_def)
  qed (use Arrived in \<open>simp_all add: call_step_def connect_def handle_query bindE_def
          split: prod.splits sum.splits del: call_rest.simps(3)\<close>)
next
  case (Recognizing j)
  with call_rest_job_step [of ext svc j w] show ?thesis
    by (simp add: call_step_def connect_def case_prod_beta call_rest_recognizing del: call_rest.simps(2))
next
  case (Querying q)
  then show ?thesis
    by (simp add: call_step_def connect_def finallyE_def split: prod.splits sum.splits)
qed (simp_all add: call_step_def connect_def)

section \<open>Progress\<close>

lemma call_remaining_recognizing [simp]:
  "call_remaining ext (recognizing j) = job_remaining ext j"
proof (cases j)
  case (Finished r)
  then show ?thesis by (cases r) simp_all
qed simp_all

lemma call_remaining_step:
  "call_remaining ext (fst (call_step ext svc c w)) \<le> call_remaining ext c - 1"
proof (cases c)
  case (Arrived rq)
  show ?thesis
  proof (cases rq)
    case (PostRecognizeFaces d)
    with Arrived job_remaining_step [of ext svc "Pending (image_base64 d) (class_id d)" w]
    show ?thesis by (simp add: call_step_def connect_def case_prod_beta)
  qed (use Arrived in \<open>simp_all add: call_step_def connect_def split: prod.splits sum.splits\<close>)
next
  case (Recognizing j)
  with job_remaining_step [of ext svc j w] show ?thesis
    by (simp add: call_step_def connect_def case_prod_beta)
qed (simp_all add: call_step_def connect_def split: prod.splits sum.splits)

lemma call_remaining_0_iff: "call_remaining ext c = 0 \<longleftrightarrow> is_answered c"
  by (cases c) (simp_all add: is_answered_def split: request.splits)

lemma call_steps_rest:
  assumes "call_remaining ext c \<le> k"
  shows "steps (call_step ext svc) k c w =
           (Answered (fst (call_rest ext svc c w)), snd (call_rest ext svc c w))"
proof (rule steps_result [where m = "call_remaining ext"])
  show "\<exists>r. c = Answered r \<and> (\<forall>w. call_rest ext svc c w = (r, w))"
    if "call_remaining ext c = 0" for c
    using that by (cases c) (simp_all split: request.splits)
qed (use call_remaining_step in \<open>simp_all add: call_rest_step assms\<close>)

section \<open>What every step of a call keeps\<close>

lemma recognizing_projections [simp]:
  "connected (recognizing j) = holding (job_task j)"
  "call_task (recognizing j) = job_task j"
  "call_keys ext svc tbl (recognizing j) = job_keys ext svc tbl j"
  by (cases j; simp add: recognizing_def connected_def call_task_def call_keys_def)+

lemma call_projections [simp]:
  "connected (Arrived rq) = False" "connected (Recognizing j) = holding (job_task j)"
  "connected (Querying q)" "connected (Releasing r)" "connected (Answered r) = False"
  "call_task (Arrived rq) = Done (Inr False)" "call_task (Recognizing j) = job_task j"
  "call_task (Querying q) = Done (Inr False)" "call_task (Releasing r) = Done (Inr False)"
  "call_task (Answered r) = Done (Inr False)"
  "call_keys ext svc tbl (Recognizing j) = job_keys ext svc tbl j"
  "call_keys ext svc tbl (Querying q) = {}" "call_keys ext svc tbl (Releasing r) = {}"
  "call_keys ext svc tbl (Answered r) = {}"
  by (simp_all add: connected_def call_task_def call_keys_def)

lemma connect_frame:
  assumes "get_db_connection w = (r, w')"
  shows "students w' = students w" and "attendance w' = attendance w"
    and "attendance_seq w' = attendance_seq w"
    and "open_conns w' = (if isl r then open_conns w else Suc (open_conns w))"
  using assms
  by (auto simp: get_db_connection_def db_call_def split: list.splits option.splits)

lemma statement_frame:
  assumes "db_call (statement q) w = (r, w')"
  shows "students w' = students w" and "open_conns w' = open_conns w"
    and "attendance_seq w' = attendance_seq w"
    and "\<exists>c. attendance w' = attendance w \<or>
           attendance w' = filter (\<lambda>a. a_class_id a \<noteq> c) (attendance w)"
  using assms
  by (auto simp: db_call_def statement_def
      split: list.splits option.splits query.splits)

lemma call_step_students:
  assumes "call_step ext svc c w = (c', w')"
  shows "students w' = students w"
proof (cases c)
  case (Arrived rq)
  with assms show ?thesis
    by (cases rq)
      (auto simp: call_step_def connect_def dest: job_step_frame(1) connect_frame(1)
        split: prod.splits sum.splits)
next
  case (Recognizing j)
  with assms show ?thesis
    by (auto simp: call_step_def connect_def dest: job_step_frame(1) split: prod.splits)
next
  case (Querying q)
  with assms show ?thesis
    by (auto simp: call_step_def connect_def dest: statement_frame(1) split: prod.splits sum.splits)
qed (use assms in \<open>auto simp: call_step_def connect_def conn_close_def\<close>)

lemma call_step_conns:
  assumes "call_step ext svc c w = (c', w')" and "connected c \<Longrightarrow> 0 < open_conns w"
  shows "open_conns w' + (if connected c then 1 else 0) =
         open_conns w + (if connected c' then 1 else 0)"
proof (cases c)
  case (Arrived rq)
  show ?thesis
  proof (cases rq)
    case (PostRecognizeFaces d)
    obtain j w1 where st: "job_step ext svc (Pending (image_base64 d) (class_id d)) w = (j, w1)"
      by (cases "job_step ext svc (Pending (image_base64 d) (class_id d)) w")
    with job_step_conns [OF st] assms Arrived PostRecognizeFaces show ?thesis
      by (auto simp: call_step_def connect_def)
  qed (use assms Arrived in \<open>auto simp: call_step_def connect_def dest: connect_frame(4)
          split: prod.splits sum.splits\<close>)
next
  case (Recognizing j)
  obtain j' w1 where st: "job_step ext svc j w = (j', w1)" by (cases "job_step ext svc j w")
  with job_step_conns [OF st] assms Recognizing show ?thesis by (auto simp: call_step_def connect_def)
next
  case (Querying q)
  with assms show ?thesis
    by (auto simp: call_step_def connect_def dest: statement_frame(2) split: prod.splits sum.splits)
qed (use assms in \<open>auto simp: call_step_def connect_def conn_close_def\<close>)

lemma resume_call_conns:
  "open_conns (snd c) = n + count_where connected (fst c) \<Longrightarrow>
   open_conns (snd (resume (call_step ext svc) i c)) =
     n + count_where connected (fst (resume (call_step ext svc) i c))"
  by (rule resume_accounting [where P = connected]) (rule call_step_conns)

lemma reachable_calls_invariants:
  assumes "reachable (call_step ext svc) c c'"
  shows "open_conns (snd c) = n + count_where connected (fst c) \<Longrightarrow>
         open_conns (snd c') = n + count_where connected (fst c')"
    and "students (snd c') = students (snd c)"
proof -
  show "open_conns (snd c) = n + count_where connected (fst c) \<Longrightarrow>
      open_conns (snd c') = n + count_where connected (fst c')"
    using assms by (induction rule: reachable.induct) (simp_all add: resume_call_conns)
  show "students (snd c') = students (snd c)"
    using assms
    by (rule reachable_world [where R = "\<lambda>w w'. students w' = students w"])
      (auto dest: call_step_students)
qed

lemma not_connected_answered: "is_answered c \<Longrightarrow> \<not> connected c"
  by (cases c) (simp_all add: is_answered_def)

section \<open>Calls about different students\<close>

lemma call_keys_Arrived [simp]:
  "call_keys ext svc tbl (Arrived (PostRecognizeFaces d)) =
     job_keys ext svc tbl (Pending (image_base64 d) (class_id d))"
  "call_keys ext svc tbl (Arrived (GetAttendance k)) = {}"
  "call_keys ext svc tbl (Arrived (GetStudents k)) = {}"
  "call_keys ext svc tbl (Arrived (PostClearAttendance k)) = {}"
  "call_keys ext svc tbl (Arrived GetHealth) = {}"
  by (simp_all add: call_keys_def)

lemma call_step_keys:
  assumes "call_step ext svc c w = (c', w')"
  shows "call_keys ext svc (students w) c' \<subseteq> call_keys ext svc (students w) c"
proof (cases c)
  case (Arrived rq)
  with assms show ?thesis
    by (cases rq)
      (auto simp: call_step_def connect_def dest: subsetD [OF job_step_keys] split: prod.splits sum.splits)
next
  case (Recognizing j)
  with assms show ?thesis
    by (auto simp: call_step_def connect_def dest: subsetD [OF job_step_keys] split: prod.splits)
qed (use assms in \<open>auto simp: call_step_def connect_def split: prod.splits sum.splits\<close>)

lemma task_key_call_task: "set_option (task_key tbl (call_task c)) \<subseteq> call_keys ext svc tbl c"
  using task_key_job_task [of tbl _ ext svc] by (cases c) (simp_all add: task_key_def)

lemma statement_ledger:
  assumes "db_call (statement q) w = (r, w')"
  shows "wf_world w \<Longrightarrow> wf_world w'" and "\<exists>P. attendance w' = filter P (attendance w)"
proof -
  from statement_frame(4) [OF assms] obtain c where
    "attendance w' = filter (\<lambda>_. True) (attendance w) \<or>
     attendance w' = filter (\<lambda>a. a_class_id a \<noteq> c) (attendance w)"
    by auto
  then show P: "\<exists>P. attendance w' = filter P (attendance w)" by blast
  assume "wf_world w"
  with P statement_frame(3) [OF assms] show "wf_world w'"
    by (auto simp: wf_world_def list_all_iff)
qed

lemma call_step_wf:
  assumes "call_step ext svc c w = (c', w')" and "wf_world w"
  shows "wf_world w'"
proof (cases c)
  case (Arrived rq)
  with assms show ?thesis
    by (cases rq)
      (auto simp: call_step_def connect_def wf_world_def
        dest: job_step_ledger(1) connect_frame(2,3) split: prod.splits sum.splits)
next
  case (Recognizing j)
  with assms show ?thesis
    by (auto simp: call_step_def connect_def dest: job_step_ledger(1) split: prod.splits)
next
  case (Querying q)
  with assms show ?thesis
    by (auto simp: call_step_def connect_def dest: statement_ledger(1) split: prod.splits sum.splits)
qed (use assms in \<open>auto simp: call_step_def connect_def conn_close_def wf_world_def\<close>)

lemma job_step_fresh:
  assumes st: "job_step ext svc j w = (j', w')" and wf: "wf_world w" and u: "unique_per_day w"
    and pf: "pending_fresh (ts, w)" and dk: "distinct_keys tbl ts"
    and i: "i < length ts" "ts ! i = job_task j"
  shows "unique_per_day w' \<and> pending_fresh (ts[i := job_task j'], w')"
  using job_step_ledger(2) [OF st wf] i(2)
  by (intro ledger_step_fresh [OF pf dk i(1) u]) simp

lemma call_step_quiet:
  assumes "call_step ext svc c w = (c', w')"
    and "c = Arrived (GetAttendance k) \<or> c = Arrived (GetStudents k) \<or>
         c = Arrived (PostClearAttendance k) \<or> c = Arrived GetHealth \<or> c = Releasing r \<or>
         c = Answered r"
  shows "attendance w' = attendance w" and "call_task c' = Done (Inr False)"
  using assms
  by (auto simp: call_step_def connect_def conn_close_def dest: connect_frame(2) split: prod.splits sum.splits)

lemma call_step_fresh:
  assumes st: "call_step ext svc c w = (c', w')" and wf: "wf_world w" and u: "unique_per_day w"
    and pf: "pending_fresh (ts, w)" and dk: "distinct_keys tbl ts"
    and i: "i < length ts" "ts ! i = call_task c"
  shows "unique_per_day w' \<and> pending_fresh (ts[i := call_task c'], w')"
proof -
  consider d where "c = Arrived (PostRecognizeFaces d)" | j where "c = Recognizing j"
    | q where "c = Querying q"
    | k r where "c = Arrived (GetAttendance k) \<or> c = Arrived (GetStudents k) \<or>
         c = Arrived (PostClearAttendance k) \<or> c = Arrived GetHealth \<or> c = Releasing r \<or>
         c = Answered r"
    by (cases c; cases "case c of Arrived rq \<Rightarrow> rq | _ \<Rightarrow> GetHealth") auto
  then show ?thesis
  proof cases
    case 1
    obtain j w1 where j: "job_step ext svc (Pending (image_base64 d) (class_id d)) w = (j, w1)"
      by (cases "job_step ext svc (Pending (image_base64 d) (class_id d)) w")
    with st 1 i(2) job_step_fresh [OF j wf u pf dk i(1)] show ?thesis
      by (auto simp: call_step_def connect_def)
  next
    case 2
    obtain j' w1 where j: "job_step ext svc j w = (j', w1)" by (cases "job_step ext svc j w")
    with st 2 i(2) job_step_fresh [OF j wf u pf dk i(1)] show ?thesis
      by (auto simp: call_step_def connect_def)
  next
    case 3
    obtain r w1 where r: "db_call (statement q) w = (r, w1)" by (cases "db_call (statement q) w")
    from statement_ledger(2) [OF r] obtain P where "attendance w1 = filter P (attendance w)" ..
    from ledger_step_filter [OF pf u this, of "Done (Inr False)" i] st 3 r show ?thesis
      by (auto simp: call_step_def connect_def split: sum.splits)
  next
    case 4
    from call_step_quiet [OF st 4] ledger_step_filter [OF pf u, of w' "\<lambda>_. True" "Done (Inr False)" i]
    show ?thesis by simp
  qed
qed

lemma resume_server_race_free:
  assumes "server_race_free ext svc tbl c"
  shows "server_race_free ext svc tbl (resume (call_step ext svc) i c)"
proof (cases c)
  case (Pair cs w)
  with assms have wf: "wf_world w" and u: "unique_per_day w" and st: "students w = tbl"
    and dk: "disjoint_family (call_keys ext svc tbl) cs" and pf: "pending_fresh (map call_task cs, w)"
    by (simp_all add: server_race_free_def)
  from \<open>c = (cs, w)\<close> [symmetric]
  have "resume (call_step ext svc) i (cs, w) = resume (call_step ext svc) i c" by simp
  then show ?thesis
  proof (cases rule: resume_cases)
    case idle
    with assms Pair show ?thesis by simp
  next
    case (step c' w')
    from step(1) have i: "i < length (map call_task cs)" by simp
    from call_step_keys [OF step(2)] st
    have "disjoint_family (call_keys ext svc tbl) (cs[i := c'])"
      by (intro disjoint_family_update [OF dk step(1)]) simp
    moreover from call_step_students [OF step(2)] st have "students w' = tbl" by simp
    moreover note call_step_wf [OF step(2) wf]
    moreover from step(1)
    have "unique_per_day w' \<and> pending_fresh ((map call_task cs)[i := call_task c'], w')"
      by (intro call_step_fresh
          [OF step(2) wf u pf distinct_keys_family [OF dk task_key_call_task] i]) simp
    ultimately show ?thesis using step(3) by (simp add: server_race_free_def map_update)
  qed
qed

lemma pending_fresh_Arrived: "pending_fresh (map call_task (map Arrived rqs), w)"
  by (auto simp: pending_fresh_def)

section \<open>What a call reports\<close>

lemma response_faces_simps [simp]:
  "response_faces (Inl e) = []"
  "response_faces (Inr (RecognitionResponse res)) = recognized_faces res"
  "response_faces (Inr (AttendanceResponse a)) = []"
  "response_faces (Inr (StudentsResponse s)) = []"
  "response_faces (Inr (ClearResponse m)) = []"
  "response_faces (Inr (HealthResponse h)) = []"
  by (simp_all add: response_faces_def)

lemma call_faces_simps [simp]:
  "call_faces (Arrived rq) = []" "call_faces (Recognizing j) = job_faces j"
  "call_faces (Querying q) = []" "call_faces (Releasing r) = response_faces r"
  "call_faces (Answered r) = response_faces r"
  by (simp_all add: call_faces_def)

lemma call_faces_recognizing [simp]: "call_faces (recognizing j) = job_faces j"
proof (cases j)
  case (Finished r)
  then show ?thesis by (cases r) simp_all
qed simp_all

lemma statement_faces: "db_call (statement q) w = (r, w') \<Longrightarrow> response_faces r = []"
  by (cases q)
    (auto simp: db_call_def statement_def split: list.splits option.splits)

lemma call_step_faces:
  assumes "list_all (accepted_by svc) (call_faces c)" and "call_step ext svc c w = (c', w')"
  shows "list_all (accepted_by svc) (call_faces c')"
proof (cases c)
  case (Arrived rq)
  with assms(2) show ?thesis
    by (cases rq)
      (auto simp: call_step_def connect_def dest: job_step_faces [of svc "Pending s cid" for s cid, simplified]
        split: prod.splits sum.splits)
next
  case (Recognizing j)
  with assms show ?thesis
    by (auto simp: call_step_def connect_def intro: job_step_faces split: prod.splits)
next
  case (Querying q)
  with assms(2) show ?thesis
    by (auto simp: call_step_def connect_def dest: statement_faces split: prod.splits sum.splits)
qed (use assms in \<open>auto simp: call_step_def connect_def\<close>)

lemma reachable_faces:
  assumes "reachable (call_step ext svc) (map Arrived rqs, w) (cs, w')"
  shows "list_all (\<lambda>c. list_all (accepted_by svc) (call_faces c)) cs"
  using reachable_list_all [OF assms, of "\<lambda>c. list_all (accepted_by svc) (call_faces c)"]
    call_step_faces [of svc _ ext]
  by (simp add: list_all_iff)

section \<open>Properties\<close>

lemma demo_calls_disjoint:
  "disjoint_family (call_keys demo_ext demo_service (students demo_world)) (map Arrived demo_calls)"
  by (auto simp: disjoint_family_def demo_calls_def demo_frame_def demo_detected demo_face_keys
      nth_Cons split: nat.splits)

text \<open>
  C10: The small-step model of the five handlers agrees with the handlers.  A call
  that is resumed without any other call running in between - once for
  \<^verbatim>\<open>health_check\<close>, three times for the handlers with one statement, once and five
  times for every detected face for \<^verbatim>\<open>recognize_faces\<close> - is answered with the
  response or the exception, and in the world, that the handler of the sequential
  model yields, under every script of storage faults.
\<close>

theorem call_refines_handle:
  assumes "call_remaining ext (Arrived rq) \<le> k"
  shows "steps (call_step ext svc) k (Arrived rq) w = (Answered r, w') \<longleftrightarrow>
         handle ext svc rq w = (r, w')"
  using call_steps_rest [of ext "Arrived rq" k svc w] assms by (auto simp: prod_eq_iff)

theorem call_refines_handle_witness:
  "call_remaining demo_ext (Arrived demo_frame) \<le> 11 \<and>
   steps (call_step demo_ext demo_service) 11 (Arrived demo_frame) demo_world =
     (Answered (Inr (RecognitionResponse \<lparr>recognized_faces =
          [\<lparr>rf_name = ''Asha'', rf_confidence = 4 / 5, rf_bbox = (0, 0, 1280, 960)\<rparr>],
        attendance_marked = [''Asha'']\<rparr>)),
      demo_world\<lparr>attendance := [present_row 1 7 3 ''2024-03-09'' ''08:05:00''],
                 attendance_seq := 2\<rparr>)"
proof -
  have k: "call_remaining demo_ext (Arrived demo_frame) \<le> 11"
    by (simp add: demo_frame_def demo_detected demo_faces_def)
  from call_refines_handle [OF k, THEN iffD2, OF demo_handle(1)] k show ?thesis by simp
qed

text \<open>
  C29: A server that takes the requests one at a time is a special case of the event
  loop: under the serial schedule the calls are answered with the responses of
  \<open>serve\<close>, in the same order, and the storage ends in the same state.
\<close>

theorem serial_server_refines_serve:
  assumes "\<forall>rq \<in> set rqs. call_remaining ext (Arrived rq) \<le> m"
  shows "run_loop (call_step ext svc) (serial_schedule m 0 (length rqs)) (map Arrived rqs, w) =
         (map Answered (fst (serve ext svc rqs w)), snd (serve ext svc rqs w))"
  using run_serial [of rqs "call_step ext svc" m Arrived Answered "handle ext svc" "[]" w] assms
  by (simp add: call_steps_rest serve_run_all)

theorem serial_server_refines_serve_witness:
  "list_all (\<lambda>rq. call_remaining demo_ext (Arrived rq) \<le> 11) demo_calls \<and>
   run_loop (call_step demo_ext demo_service) (serial_schedule 11 0 3) (map Arrived demo_calls, demo_world) =
     (map Answered (fst (serve demo_ext demo_service demo_calls demo_world)),
      snd (serve demo_ext demo_service demo_calls demo_world))"
  using serial_server_refines_serve [of demo_calls demo_ext 11 demo_service demo_world]
  by (simp add: demo_calls_def demo_frame_def demo_detected demo_faces_def numeral_3_eq_3)

text \<open>
  C28: Along every interleaving of calls to the five endpoints the students table
  stays as it is, and the open connections exceed the initial number by the number
  of calls suspended between their connect and their close; when every call has
  been answered, every connection has been closed.
\<close>

theorem server_interleaving_invariants:
  assumes "reachable (call_step ext svc) (map Arrived rqs, w) (cs, w')"
  shows "length cs = length rqs \<and> students w' = students w \<and>
         open_conns w' = open_conns w + count_where connected cs \<and>
         (list_all is_answered cs \<longrightarrow> open_conns w' = open_conns w)"
proof -
  let ?c = "(map Arrived rqs, w)"
  note inv = reachable_calls_invariants [OF assms]
  have "count_where connected (fst ?c) = 0" by (rule count_where_0) (simp add: list_all_iff)
  then have "open_conns (snd ?c) = open_conns w + count_where connected (fst ?c)" by simp
  then have "open_conns (snd (cs, w')) = open_conns w + count_where connected (fst (cs, w'))"
    by (rule inv(1))
  moreover have "count_where connected cs = 0" if "list_all is_answered cs"
    by (rule count_where_0) (use that in \<open>auto simp: list_all_iff not_connected_answered\<close>)
  ultimately show ?thesis using reachable_length [OF assms] inv(2) by auto
qed

theorem server_interleaving_invariants_witness:
  "reachable (call_step demo_ext demo_service) (map Arrived demo_calls, demo_world)
     (run_loop (call_step demo_ext demo_service) round_robin (map Arrived demo_calls, demo_world)) \<and>
   students (snd (run_loop (call_step demo_ext demo_service) round_robin
     (map Arrived demo_calls, demo_world))) = students demo_world"
  using server_interleaving_invariants [of demo_ext demo_service demo_calls demo_world
      "fst (run_loop (call_step demo_ext demo_service) round_robin (map Arrived demo_calls, demo_world))"
      "snd (run_loop (call_step demo_ext demo_service) round_robin (map Arrived demo_calls, demo_world))"]
    reachable_run_loop [of "call_step demo_ext demo_service" "(map Arrived demo_calls, demo_world)"
      round_robin]
  by simp

text \<open>
  C30: Every call is answered.  Whatever the other calls do and whatever the storage,
  the decoder and the detector answer, a call that the loop has resumed as often as
  its bound says has returned or raised.
\<close>

theorem call_is_answered:
  assumes "j < length rqs" and "call_remaining ext (Arrived (rqs ! j)) \<le> count_list is j"
  shows "is_answered (fst (run_loop (call_step ext svc) is (map Arrived rqs, w)) ! j)"
proof -
  let ?c = "(map Arrived rqs, w)"
  from run_loop_measure [of "call_remaining ext" "call_step ext svc" j ?c "is", OF call_remaining_step]
    assms
  have "call_remaining ext (fst (run_loop (call_step ext svc) is ?c) ! j) = 0" by simp
  then show ?thesis by (simp add: call_remaining_0_iff)
qed

theorem call_is_answered_witness:
  "(0::nat) < length demo_calls \<and>
   call_remaining demo_ext (Arrived (demo_calls ! 0)) \<le> count_list round_robin 0 \<and>
   is_answered (fst (run_loop (call_step demo_ext demo_service) round_robin
     (map Arrived demo_calls, demo_world)) ! 0)"
  using call_is_answered [of 0 demo_calls demo_ext round_robin demo_service demo_world]
  by (simp add: demo_calls_def demo_frame_def demo_detected demo_faces_def round_robin_def)

text \<open>
  C12: Requests to the five endpoints over different students do not race.  When
  the sets of students that the frames of the recognition requests can mark are
  pairwise disjoint, every configuration reachable under any interleaving - reads
  and \<^verbatim>\<open>clear_attendance\<close> calls included - keeps at most one record per student and
  day: a \<^verbatim>\<open>DELETE\<close> between the check and the insert of a \<^verbatim>\<open>mark_attendance\<close> only
  removes rows.
\<close>

theorem server_never_races:
  assumes "wf_world w" and "unique_per_day w"
    and "disjoint_family (call_keys ext svc (students w)) (map Arrived rqs)"
    and "reachable (call_step ext svc) (map Arrived rqs, w) (cs, w')"
  shows "unique_per_day w' \<and> wf_world w'"
proof -
  from assms(1-3) pending_fresh_Arrived [of rqs w]
  have "server_race_free ext svc (students w) (map Arrived rqs, w)"
    by (simp add: server_race_free_def)
  with assms(4) have "server_race_free ext svc (students w) (cs, w')"
    by (rule reachable_invariant) (rule resume_server_race_free)
  then show ?thesis by (simp add: server_race_free_def)
qed

theorem server_never_races_witness:
  "wf_world demo_world \<and> unique_per_day demo_world \<and>
   disjoint_family (call_keys demo_ext demo_service (students demo_world)) (map Arrived demo_calls) \<and>
   unique_per_day (snd (run_loop (call_step demo_ext demo_service) round_robin
     (map Arrived demo_calls, demo_world)))"
proof -
  let ?c = "(map Arrived demo_calls, demo_world)"
  have r: "reachable (call_step demo_ext demo_service) ?c
      (fst (run_loop (call_step demo_ext demo_service) round_robin ?c),
       snd (run_loop (call_step demo_ext demo_service) round_robin ?c))"
    using reachable_run_loop [of "call_step demo_ext demo_service" ?c round_robin] by simp
  from server_never_races [OF demo_world_facts(1,2) demo_calls_disjoint r] demo_calls_disjoint
  show ?thesis by (simp add: demo_world_facts)
qed

text \<open>
  Under every interleaving, every face that a response of \<^verbatim>\<open>recognize_faces\<close>
  reports is an accepted match of the service: its name and its confidence are
  what the match of some embedding against the index yields.  No interleaving
  mixes the result lists of two requests.
\<close>

theorem reported_faces_are_matches:
  assumes "reachable (call_step ext svc) (map Arrived rqs, w) (cs, w')"
    and "Answered (Inr (RecognitionResponse res)) \<in> set cs" and "x \<in> set (recognized_faces res)"
  shows "\<exists>e. match_face svc e = Inr (Some (rf_name x, rf_confidence x))"
  using reachable_faces [OF assms(1)] assms(2,3)
  by (fastforce simp: list_all_iff accepted_by_def)

theorem reported_faces_are_matches_witness:
  "reachable (call_step demo_ext demo_service) (map Arrived [demo_frame], demo_world)
     ([Answered (Inr (RecognitionResponse \<lparr>recognized_faces =
          [\<lparr>rf_name = ''Asha'', rf_confidence = 4 / 5, rf_bbox = (0, 0, 1280, 960)\<rparr>],
        attendance_marked = [''Asha'']\<rparr>))],
      demo_world\<lparr>attendance := [present_row 1 7 3 ''2024-03-09'' ''08:05:00''],
                 attendance_seq := 2\<rparr>) \<and>
   (\<exists>e. match_face demo_service e = Inr (Some (''Asha'', 4 / 5)))"
proof -
  let ?res = "\<lparr>recognized_faces =
          [\<lparr>rf_name = ''Asha'', rf_confidence = 4 / 5, rf_bbox = (0, 0, 1280, 960)\<rparr>],
        attendance_marked = [''Asha'']\<rparr>"
  have "call_remaining demo_ext (Arrived demo_frame) \<le> 11"
    by (simp add: demo_frame_def demo_detected demo_faces_def)
  from call_steps_rest [OF this, of demo_service demo_world]
    reachable_run_loop [of "call_step demo_ext demo_service" "([Arrived demo_frame], demo_world)"
      "replicate 11 0"]
  have r: "reachable (call_step demo_ext demo_service) (map Arrived [demo_frame], demo_world)
      ([Answered (Inr (RecognitionResponse ?res))],
       demo_world\<lparr>attendance := [present_row 1 7 3 ''2024-03-09'' ''08:05:00''],
                 attendance_seq := 2\<rparr>)"
    by (simp add: run_loop_replicate demo_handle del: replicate.simps)
  from reported_faces_are_matches [OF r, of ?res
      "\<lparr>rf_name = ''Asha'', rf_confidence = 4 / 5, rf_bbox = (0, 0, 1280, 960)\<rparr>"] r
  show ?thesis by simp
qed

end
