(* ===== verification/Spec2Isabelle.thy ===== *)
theory Spec2Isabelle
  imports Server Enrollment
begin

text \<open>
  \<^bold>\<open>A verification development for the classroom face-recognition attendance service\<close>
  (\<^verbatim>\<open>src/face_recognition_service.py\<close>).

  \<^bold>\<open>The program.\<close>  A FastAPI service in one module.  At start-up it loads or builds
  a matrix of unit-normalised face embeddings with one label per row and adds the
  matrix to an exact inner-product index (lines 39-76).  A request
  \<^verbatim>\<open>POST /recognize-faces\<close> (lines 182-186) calls \<^verbatim>\<open>recognize_faces_in_image\<close> (lines
  127-179): decode the image, run an external detector on a 640x640 copy, and for
  every detected face rescale the bounding box to the original frame, normalise the
  embedding, ask the index for the single best row, accept it when the similarity is
  greater than 0.5, and call \<^verbatim>\<open>mark_attendance\<close> (lines 96-124), which inserts a
  Present row for the student unless one exists for today.  Four further endpoints
  (lines 188-233) read the tables, clear the attendance of a class and report health.
  The handlers are coroutines of one event loop (line 237): between two \<^verbatim>\<open>await\<close>s a
  handler runs alone, at an \<^verbatim>\<open>await\<close> any other handler may run.

  \<^bold>\<open>The theories\<close>, leaf first; each models one part and carries its lemmas.
  \<^item> \<open>FR_Prelude\<close>: what the components share.  Float arrays are lists of reals
    (\<open>vec\<close>); Python exceptions are the datatype \<open>exn\<close>; a coroutine body is a function
    from a world to a result \<open>exn + 'a\<close> and the next world (\<open>act\<close>), composed with
    \<open>bindE\<close> (sequencing), \<open>catchE\<close> (\<^verbatim>\<open>try/except\<close>) and \<open>finallyE\<close> (\<^verbatim>\<open>try/finally\<close>);
    \<open>preserves\<close> with the rule collection \<open>preserves_intros\<close> lifts an invariant
    through these combinators.  \<open>trunc0\<close> is \<^verbatim>\<open>int()\<close> on a float, \<open>py_truthy\<close> the truth
    value of a query result, \<open>str_nat\<close> and \<open>zfill\<close> the decimal rendering of
    \<^verbatim>\<open>strftime\<close> and \<^verbatim>\<open>str\<close>.
  \<^item> \<open>Vectors\<close>: \<open>dot\<close>, \<open>linalg_norm\<close>, \<open>normalize_embedding\<close> (line 157, also line
    64).  A division by a zero norm gives the array of NaNs, \<open>NaNs n\<close>, as numpy does;
    every comparison with a NaN is false.  Lemmas: the Cauchy-Schwarz inequality,
    normalisation yields unit length, similarities of normalised vectors lie in
    \<open>[-1, 1]\<close>, a similarity of 1 between unit vectors means equality.
  \<^item> \<open>Embedding_Index\<close>: \<open>build_index\<close> (lines 74-76), \<open>index_search\<close> (line 158) as
    the linear scan \<open>scan_rows\<close> of a flat index with \<open>k = 1\<close>, and its specification
    \<open>best_match\<close>.  Lemmas: the scan refines the specification (greatest similarity,
    least position among equals), an enrolled unit vector finds itself.
  \<^item> \<open>Face_Match\<close>: \<open>match_face\<close> (lines 146, 156-161) on a \<open>service\<close> (the globals
    \<^verbatim>\<open>index\<close> and \<^verbatim>\<open>labels\<close>).  Lemmas: strictness of the threshold, no exception on a
    well-formed service, zero norm gives no identity, confidences in \<open>(0.5, 1]\<close>.
  \<^item> \<open>Coordinates\<close>: \<open>reconcile_bbox\<close> (lines 141-142, 150-154) with both
    truncations.  Lemmas: the full frame maps to the full frame, order and
    containment are kept, the error of the double truncation is below \<open>s + 1\<close>.
  \<^item> \<open>Ledger\<close>: the \<open>world\<close> (tables \<open>students\<close> and \<open>attendance\<close> as lists of rows, the
    serial key, the count of open connections, a script of storage faults, a script
    of clock readings) and \<open>mark_attendance\<close> (lines 96-124) statement by statement.
    Lemmas: all outcomes of a call under every fault script, release of the
    connection, append-only writes, the invariant \<open>unique_per_day\<close>, refinement of the
    contract \<open>markPresent\<close> on sets of (student, date) pairs, idempotence, and the
    duplicate that a row with key 0 allows.
  \<^item> \<open>Recognition\<close>: \<open>process_face\<close>, \<open>process_faces\<close>, \<open>recognize_faces_in_image\<close>
    (lines 127-179) over the record \<open>collab\<close> of library calls.  Lemmas: the output
    refines \<open>matched_faces\<close>, every failure is a status 500, the ledger invariant is
    preserved by a request, a frame sent again marks nobody, no student is marked
    twice by one frame, a failure in the middle of a frame keeps earlier rows.
  \<^item> \<open>Api\<close>: \<open>get_attendance\<close>, \<open>get_students\<close>, \<open>clear_attendance\<close>, \<open>health_check\<close>
    (lines 188-233), the SQL statements by their meaning on the tables.  Lemmas: the
    reads change nothing and return the sorted join, the delete removes the rows of
    one class, every handler releases its connection, a record just written is
    listed.
  \<^item> \<open>Service\<close>: the endpoint \<open>recognize_faces\<close> (lines 182-186), the request model
    \<open>ImageData\<close> (lines 87-89), the routes as the datatype \<open>request\<close> with the dispatch
    \<open>handle\<close>, and \<open>serve\<close>, a server that handles requests one after another.
    Lemmas: the ledger invariant and the frame conditions along every run of
    \<open>serve\<close>; a frame sent twice marks once.
  \<^item> \<open>Event_Loop\<close>: the scheduler, for any kind of coroutine: a coroutine is a state
    with a step function on the shared world, \<open>resume\<close> lets one coroutine run to its
    next \<^verbatim>\<open>await\<close>, \<open>run_loop\<close> follows a schedule, \<open>reachable\<close> is reachability,
    \<open>serial_schedule\<close> and \<open>run_all\<close> describe calls made one after another.  Its
    lemmas are the proof rules the next three theories instantiate: invariants,
    decreasing measures, resources held, disjoint claims, and that steps which
    keep the meaning of the rest compute the whole.
  \<^item> \<open>Interleaving\<close>: \<open>mark_attendance\<close> cut at its five \<^verbatim>\<open>await\<close>s (\<open>task\<close>, \<open>task_step\<close>).
    Lemmas: a call run without interruption is \<open>mark_attendance\<close> of \<open>Ledger\<close>; serial
    schedules keep the invariant; invariants of every interleaving by rule
    induction; every call is done after five steps, and on a steady day its
    student then has a record; two interleaved calls for one student insert twice;
    calls for different students never do.
  \<^item> \<open>Requests\<close>: \<open>recognize_faces_in_image\<close> cut at the \<^verbatim>\<open>await\<close>s of its calls of
    \<^verbatim>\<open>mark_attendance\<close> (\<open>job\<close>, \<open>job_step\<close>, with \<open>next_face\<close> for the loop up to the next
    \<^verbatim>\<open>await\<close> and \<open>after_mark\<close> for the return into the loop).  Lemmas: a request run
    without interruption is \<open>recognize_faces_in_image\<close> of \<open>Recognition\<close>; two
    interleaved requests with one frame both report the student as marked and
    leave two rows; requests over disjoint sets of students never race; on a
    steady day a well-shaped request returns the accepted matches of its frame
    under every interleaving, and its students then have their records.
  \<^item> \<open>Server\<close>: the five handlers as coroutines (\<open>call\<close>, \<open>call_step\<close>): the three
    handlers with one statement suspend at the connect, the statement and the
    close, \<^verbatim>\<open>recognize_faces\<close> suspends as its job does, \<^verbatim>\<open>health_check\<close> never.
    Lemmas: a call run without interruption is \<open>handle\<close>, so \<open>serve\<close> is the serial
    schedule; under every interleaving the students table is fixed, connections
    are accounted for, every call is answered within its bound, and - for
    recognition requests over disjoint students, whatever reads and clears run in
    between - the ledger keeps one record per student and day.
  \<^item> \<open>Enrollment\<close>: \<open>startup\<close> (lines 40-76) as an action on a \<open>filesystem\<close>: the cache
    files read (\<open>np_load\<close>, \<open>pickle_load\<close>) when both exist, otherwise the loops over
    the dataset directory (\<open>enroll_dataset\<close>, \<open>enroll_class\<close>, \<open>enroll_image\<close>, \<open>best_face\<close>,
    \<open>vstack\<close>) and the cache written (\<open>np_save\<close>, \<open>pickle_dump\<close>).  Lemmas: a service
    built from the dataset is well formed, its labels are class folders; a failed
    start-up writes no cache and a successful one is repeated from the cache alone;
    an unchecked cache can break the label lookup.
  \<^item> \<open>Spec2Isabelle\<close> (this theory): the module as a whole (lines 236-237 after the
    start-up): \<open>run_server\<close>, the start-up followed by the event loop under a
    schedule, and \<open>run_service\<close>, the start-up followed by the server that takes
    one request at a time; and the property that spans start-up, matching and the
    handlers: every name a response reports comes from a class folder of the
    dataset, under every schedule.

  \<^bold>\<open>Choices and bounds.\<close>  No function of the model needs fuel: the loops of the
  program are the scan over the rows of the index, the loop over the detected faces
  and the two loops over directory listings, all structural recursions on a list.
  The event loop is modelled by its schedule, a list of positions of coroutines,
  and the theorems about interleavings hold for every schedule.  A call of
  \<^verbatim>\<open>mark_attendance\<close> has at most five suspension points, a recognition request one
  step before its loop and at most five per detected face, a handler with one
  statement three, \<^verbatim>\<open>health_check\<close> one: these are the bounds \<open>remaining\<close>,
  \<open>job_remaining\<close> and \<open>call_remaining\<close>, proved sufficient in \<open>Interleaving\<close>, \<open>Requests\<close>
  and \<open>Server\<close> (a coroutine resumed that often is done, under every schedule).
  Floating-point numbers are
  real numbers; results that depend on \<^verbatim>\<open>float32\<close> rounding (a similarity that rounds
  across 0.5, a norm that rounds to 1 + epsilon) are outside the model.  Storage
  failures are a list \<open>faults\<close> consumed one entry per storage call (\<open>None\<close>: the call
  succeeds, \<open>Some e\<close>: it raises \<open>e\<close>; an exhausted list means no more failures), so a
  theorem quantified over worlds covers every pattern of failures.  The clock is a
  current reading and a list of later readings consumed by each \<^verbatim>\<open>datetime.now()\<close>.
  A steady day is a world without pending failures whose clock stays on one date.

  \<^bold>\<open>Not modelled.\<close>  The detector network and the decoding of images (lines 29-31,
  130-132, 138-139) are inputs of the model, through \<open>collab\<close> and the detector
  argument of \<open>startup\<close>.  The imports, the construction of the FastAPI application
  and its CORS middleware, the database URL and the server start (lines 1-27, 34,
  235-237) configure libraries; what is kept of them is the dispatch by route and
  the event loop.  Parsing and validation of requests by the framework (a body that
  is no \<^verbatim>\<open>ImageData\<close>, a path parameter that is no integer) happen before a handler
  runs and are not modelled.  The database is its two tables with the meaning of
  the six SQL statements; transactions, isolation levels and constraints of a real
  server are not modelled - the code uses none.  Failures of the cache writes, and
  \<^verbatim>\<open>float32\<close> rounding, as said above.  The model \<^verbatim>\<open>AttendanceRecord\<close> (lines 79-85) is
  declared in theory \<open>Api\<close>; no handler uses it.
\<close>

section \<open>The service from start-up on\<close>

definition run_service ::
  "(frame \<Rightarrow> face list) \<Rightarrow> filesystem \<Rightarrow> collab \<Rightarrow> request list \<Rightarrow> world \<Rightarrow>
   exn + (exn + response) list \<times> world" where
  "run_service detect fs ext rqs w =
     (case startup detect fs of
        (Inl e, fs') \<Rightarrow> Inl e
      | (Inr svc, fs') \<Rightarrow> Inr (serve ext svc rqs w))"

definition run_server ::
  "(frame \<Rightarrow> face list) \<Rightarrow> filesystem \<Rightarrow> collab \<Rightarrow> nat list \<Rightarrow> request list \<Rightarrow> world \<Rightarrow>
   exn + call list \<times> world" where
  "run_server detect fs ext is rqs w =
     (case startup detect fs of
        (Inl e, fs') \<Rightarrow> Inl e
      | (Inr svc, fs') \<Rightarrow> Inr (run_loop (call_step ext svc) is (map Arrived rqs, w)))"

section \<open>Lemmas\<close>

lemma demo_run_service:
  "run_service demo_detect demo_fs demo_ext [demo_frame] demo_world =
     Inr ([Inr (RecognitionResponse \<lparr>recognized_faces =
             [\<lparr>rf_name = ''Asha'', rf_confidence = 4 / 5, rf_bbox = (0, 0, 1280, 960)\<rparr>],
           attendance_marked = [''Asha'']\<rparr>)],
          demo_world\<lparr>attendance := [present_row 1 7 3 ''2024-03-09'' ''08:05:00''],
                     attendance_seq := 2\<rparr>)"
  by (simp add: run_service_def demo_startup demo_handle)

lemma demo_run_server:
  "run_server demo_detect demo_fs demo_ext (replicate 11 0) [demo_frame] demo_world =
     Inr ([Answered (Inr (RecognitionResponse \<lparr>recognized_faces =
             [\<lparr>rf_name = ''Asha'', rf_confidence = 4 / 5, rf_bbox = (0, 0, 1280, 960)\<rparr>],
           attendance_marked = [''Asha'']\<rparr>))],
          demo_world\<lparr>attendance := [present_row 1 7 3 ''2024-03-09'' ''08:05:00''],
                     attendance_seq := 2\<rparr>)"
proof -
  have "call_remaining demo_ext (Arrived demo_frame) \<le> 11"
    by (simp add: demo_frame_def demo_detected demo_faces_def)
  from call_steps_rest [OF this, of demo_service demo_world] show ?thesis
    by (simp add: run_server_def demo_startup run_loop_replicate demo_handle del: replicate.simps)
qed

lemma startup_match:
  assumes "\<not> cached fs" and "startup detect fs = (Inr svc, fs')"
    and m: "match_face svc e = Inr (Some (name, D))"
  shows "name \<in> class_folders fs \<and> threshold < D \<and> D \<le> 1"
proof -
  from m have "e \<noteq> []" using match_face_Nil by metis
  then have "0 < length e" by simp
  with match_face_SomeD(1) [OF m] have "0 < ix_dim (index svc)" by simp
  from startup_wf [OF assms(1,2) this]
  have wf: "wf_service svc" and sub: "set (labels svc) \<subseteq> class_folders fs"
    by simp_all
  from match_face_SomeD [OF m] sub have "name \<in> class_folders fs" and "threshold < D"
    by (auto simp: threshold_def)
  moreover from m wf \<open>e \<noteq> []\<close> have "D \<le> 1" by (rule match_face_le_1)
  ultimately show ?thesis by simp
qed

section \<open>Properties of the service\<close>

text \<open>
  C32: From the dataset to the response, under every schedule of the event loop.
  When the service was built from the dataset directory (no cache files), every
  face that a response reports - whatever requests are in flight and however the
  loop interleaves their handlers - carries the name of a class folder of the
  dataset and a confidence in (0.5, 1].
\<close>

theorem reported_names_are_class_folders:
  assumes "\<not> cached fs"
    and "run_server detect fs ext is rqs w = Inr (cs, w')"
    and "Answered (Inr (RecognitionResponse res)) \<in> set cs" and "r \<in> set (recognized_faces res)"
  shows "rf_name r \<in> class_folders fs \<and>
         threshold < rf_confidence r \<and> rf_confidence r \<le> 1"
proof -
  from assms(2) obtain svc fs' where svc: "startup detect fs = (Inr svc, fs')"
    and run: "run_loop (call_step ext svc) is (map Arrived rqs, w) = (cs, w')"
    by (auto simp: run_server_def split: prod.splits sum.splits)
  from run reachable_run_loop [of "call_step ext svc" "(map Arrived rqs, w)" "is"]
  have "reachable (call_step ext svc) (map Arrived rqs, w) (cs, w')" by simp
  from reachable_faces [OF this] assms(3,4) obtain e
    where "match_face svc e = Inr (Some (rf_name r, rf_confidence r))"
    by (fastforce simp: list_all_iff accepted_by_def)
  with assms(1) svc show ?thesis by (rule startup_match)
qed

theorem reported_names_are_class_folders_witness:
  "\<not> cached demo_fs \<and>
   run_server demo_detect demo_fs demo_ext (replicate 11 0) [demo_frame] demo_world =
     Inr ([Answered (Inr (RecognitionResponse \<lparr>recognized_faces =
             [\<lparr>rf_name = ''Asha'', rf_confidence = 4 / 5, rf_bbox = (0, 0, 1280, 960)\<rparr>],
           attendance_marked = [''Asha'']\<rparr>))],
          demo_world\<lparr>attendance := [present_row 1 7 3 ''2024-03-09'' ''08:05:00''],
                     attendance_seq := 2\<rparr>) \<and>
   ''Asha'' \<in> class_folders demo_fs \<and> threshold < 4 / 5 \<and> (4 / 5 :: real) \<le> 1"
  using reported_names_are_class_folders [OF demo_fs_cache demo_run_server,
      of "\<lparr>recognized_faces =
             [\<lparr>rf_name = ''Asha'', rf_confidence = 4 / 5, rf_bbox = (0, 0, 1280, 960)\<rparr>],
           attendance_marked = [''Asha'']\<rparr>"
         "\<lparr>rf_name = ''Asha'', rf_confidence = 4 / 5, rf_bbox = (0, 0, 1280, 960)\<rparr>"]
    demo_fs_cache demo_run_server
  by simp

text \<open>
  The same for the server that takes one request at a time: every face that any
  response of any run of \<open>run_service\<close> reports carries the name of a class folder
  and a confidence in (0.5, 1].
\<close>

theorem served_names_are_class_folders:
  assumes "\<not> cached fs"
    and "run_service detect fs ext rqs w = Inr (rs, w')"
    and "Inr (RecognitionResponse res) \<in> set rs" and "r \<in> set (recognized_faces res)"
  shows "rf_name r \<in> class_folders fs \<and>
         threshold < rf_confidence r \<and> rf_confidence r \<le> 1"
proof -
  from assms(2) obtain svc fs' where svc: "startup detect fs = (Inr svc, fs')"
    and run: "serve ext svc rqs w = (rs, w')"
    by (auto simp: run_service_def split: prod.splits sum.splits)
  from served_face [of res ext svc rqs w r] run assms(3,4) obtain e
    where "match_face svc e = Inr (Some (rf_name r, rf_confidence r))" by auto
  with assms(1) svc show ?thesis by (rule startup_match)
qed

theorem served_names_are_class_folders_witness:
  "\<not> cached demo_fs \<and>
   run_service demo_detect demo_fs demo_ext [demo_frame] demo_world =
     Inr ([Inr (RecognitionResponse \<lparr>recognized_faces =
             [\<lparr>rf_name = ''Asha'', rf_confidence = 4 / 5, rf_bbox = (0, 0, 1280, 960)\<rparr>],
           attendance_marked = [''Asha'']\<rparr>)],
          demo_world\<lparr>attendance := [present_row 1 7 3 ''2024-03-09'' ''08:05:00''],
                     attendance_seq := 2\<rparr>) \<and>
   ''Asha'' \<in> class_folders demo_fs \<and> threshold < 4 / 5 \<and> (4 / 5 :: real) \<le> 1"
  using served_names_are_class_folders [OF demo_fs_cache demo_run_service,
      of "\<lparr>recognized_faces =
             [\<lparr>rf_name = ''Asha'', rf_confidence = 4 / 5, rf_bbox = (0, 0, 1280, 960)\<rparr>],
           attendance_marked = [''Asha'']\<rparr>"
         "\<lparr>rf_name = ''Asha'', rf_confidence = 4 / 5, rf_bbox = (0, 0, 1280, 960)\<rparr>"]
    demo_fs_cache demo_run_service
  by simp

end
